(* ===== verification/Prelude.thy ===== *)
theory Prelude
  imports Main "HOL-Library.State_Monad" "HOL-Library.Finite_Map" "HOL-Library.Sublist"
    "HOL-Library.List_Lexorder" "HOL-Library.Char_ord"
begin

text \<open>
  What every component of the gateway model shares: Go's map, slice and error-return
  conventions, the sequencing of fallible steps over a state, a small calculus of pre- and
  postconditions for such steps, and the collections the component theories add their facts to.

  A Go function that changes state is a value of the library's state monad. A Go function that
  may also return an error returns a sum, with the error on the left; \<open>and_then\<close> is the
  \<open>if err != nil { return err }\<close> of the source.
\<close>

named_theorems vcg \<open>proof rules for pre- and postconditions of state steps\<close>
named_theorems model_defs \<open>definitions of small operations, unfolded together\<close>

subsection \<open>Maps and slices\<close>

text \<open>
  A Go map with string keys is a finite map. \<open>lookup_or d m k\<close> is the read \<open>m[k]\<close>, which
  yields the zero value \<open>d\<close> of the element type when the key is absent.
\<close>

definition lookup_or :: "'v \<Rightarrow> (string, 'v) fmap \<Rightarrow> string \<Rightarrow> 'v" where
  "lookup_or d m k = (case fmlookup m k of None \<Rightarrow> d | Some v \<Rightarrow> v)"

lemma lookup_or_simps [simp]:
  "lookup_or d fmempty k = d"
  "lookup_or d (fmupd k v m) k' = (if k = k' then v else lookup_or d m k')"
  by (simp_all add: lookup_or_def)

lemma lookup_or_Some [simp]: "fmlookup m k = Some v \<Longrightarrow> lookup_or d m k = v"
  by (simp add: lookup_or_def)

text \<open>
  Go's \<open>copy(dst, src)\<close> overwrites the first \<open>min(len(dst), len(src))\<close> elements of
  \<open>dst\<close>.
\<close>

definition go_copy :: "'a list \<Rightarrow> 'a list \<Rightarrow> 'a list" where
  "go_copy dst src = take (length dst) src @ drop (length src) dst"

lemma length_go_copy [simp]: "length (go_copy dst src) = length dst"
  by (simp add: go_copy_def)

lemma go_copy_shift: "xs \<noteq> [] \<Longrightarrow> go_copy xs (drop 1 xs) = tl xs @ [last xs]"
proof (induction xs)
  case (Cons x xs)
  have "drop (length xs) (x # xs) = [last (x # xs)]"
    by (induction xs arbitrary: x) auto
  then show ?case by (simp add: go_copy_def)
qed simp

subsection \<open>Integer division\<close>

text \<open>Go's \<open>/\<close> on integers truncates towards zero.\<close>

definition go_div :: "int \<Rightarrow> int \<Rightarrow> int" where
  "go_div a b = sgn a * sgn b * (\<bar>a\<bar> div \<bar>b\<bar>)"

lemma go_div_nonneg: "0 \<le> a \<Longrightarrow> 0 < b \<Longrightarrow> go_div a b = a div b"
  by (cases "a = 0") (simp_all add: go_div_def)

subsection \<open>Error results without a state\<close>

definition sum_bind :: "'e + 'a \<Rightarrow> ('a \<Rightarrow> 'e + 'b) \<Rightarrow> 'e + 'b" where
  "sum_bind r k = (case r of Inl e \<Rightarrow> Inl e | Inr a \<Rightarrow> k a)"

lemma sum_bind_simps [simp]:
  "sum_bind (Inl e) k = Inl e"
  "sum_bind (Inr a) k = k a"
  by (simp_all add: sum_bind_def)

lemma sum_bind_Inr_iff: "sum_bind r k = Inr b \<longleftrightarrow> (\<exists>a. r = Inr a \<and> k a = Inr b)"
  by (cases r) simp_all

lemma sum_bind_Inl_iff: "sum_bind r k = Inl e \<longleftrightarrow> r = Inl e \<or> (\<exists>a. r = Inr a \<and> k a = Inl e)"
  by (cases r) simp_all

subsection \<open>Fallible steps\<close>

type_synonym ('s, 'e, 'a) prog = "('s, 'e + 'a) state"

definition raise :: "'e \<Rightarrow> ('s, 'e, 'a) prog" where
  "raise e = State_Monad.return (Inl e)"

definition done_with :: "'a \<Rightarrow> ('s, 'e, 'a) prog" where
  "done_with a = State_Monad.return (Inr a)"

definition and_then :: "('s, 'e, 'a) prog \<Rightarrow> ('a \<Rightarrow> ('s, 'e, 'b) prog) \<Rightarrow> ('s, 'e, 'b) prog" where
  "and_then m k = State_Monad.bind m (\<lambda>r. case r of Inl e \<Rightarrow> raise e | Inr a \<Rightarrow> k a)"

definition modify :: "('s \<Rightarrow> 's) \<Rightarrow> ('s, unit) state" where
  "modify f = State (\<lambda>s. ((), f s))"

definition reads :: "('s \<Rightarrow> 'a) \<Rightarrow> ('s, 'a) state" where
  "reads f = State (\<lambda>s. (f s, s))"

lemma run_raise [simp]: "run_state (raise e) s = (Inl e, s)"
  by (simp add: raise_def)

lemma run_done_with [simp]: "run_state (done_with a) s = (Inr a, s)"
  by (simp add: done_with_def)

lemma run_and_then [simp]:
  "run_state (and_then m k) s =
     (case run_state m s of (Inl e, t) \<Rightarrow> (Inl e, t) | (Inr a, t) \<Rightarrow> run_state (k a) t)"
  by (simp add: and_then_def split: prod.splits sum.splits)

lemma run_modify [simp]: "run_state (modify f) s = ((), f s)"
  by (simp add: modify_def)

lemma run_reads [simp]: "run_state (reads f) s = (f s, s)"
  by (simp add: reads_def)

lemma and_then_assoc: "and_then (and_then m k) l = and_then m (\<lambda>a. and_then (k a) l)"
  by (rule state_ext) (simp split: prod.splits sum.splits)

lemma and_then_raise [simp]: "and_then (raise e) k = raise e"
  by (rule state_ext) simp

lemma and_then_done_with [simp]: "and_then (done_with a) k = k a"
  by (rule state_ext) simp

text \<open>
  \<open>wp m Q s\<close>: started in state \<open>s\<close>, the step \<open>m\<close> ends with a result and a state related by
  \<open>Q\<close>. Every step is a total function, so this is total correctness. The rules execute a step
  symbolically, backwards over its structure and forwards over its primitive steps.
\<close>

definition wp :: "('s, 'a) state \<Rightarrow> ('a \<Rightarrow> 's \<Rightarrow> bool) \<Rightarrow> 's \<Rightarrow> bool" where
  "wp m Q s \<longleftrightarrow> (case run_state m s of (a, t) \<Rightarrow> Q a t)"

lemma wpI: "(\<And>a t. run_state m s = (a, t) \<Longrightarrow> Q a t) \<Longrightarrow> wp m Q s"
  by (simp add: wp_def split: prod.splits)

lemma wpD: "wp m Q s \<Longrightarrow> run_state m s = (a, t) \<Longrightarrow> Q a t"
  by (simp add: wp_def)

lemma wp_mono: "wp m R s \<Longrightarrow> (\<And>a t. R a t \<Longrightarrow> Q a t) \<Longrightarrow> wp m Q s"
  by (auto simp: wp_def split: prod.splits)

lemma wp_conj: "wp m Q s \<Longrightarrow> wp m R s \<Longrightarrow> wp m (\<lambda>a t. Q a t \<and> R a t) s"
  by (auto simp: wp_def split: prod.splits)

lemma wp_bind [vcg]: "wp m (\<lambda>a. wp (f a) Q) s \<Longrightarrow> wp (State_Monad.bind m f) Q s"
  by (simp add: wp_def split: prod.splits)

lemma wp_return [vcg]: "Q a s \<Longrightarrow> wp (State_Monad.return a) Q s"
  by (simp add: wp_def)

lemma wp_raise [vcg]: "Q (Inl e) s \<Longrightarrow> wp (raise e) Q s"
  by (simp add: wp_def)

lemma wp_done_with [vcg]: "Q (Inr a) s \<Longrightarrow> wp (done_with a) Q s"
  by (simp add: wp_def)

lemma wp_and_then [vcg]:
  "wp m (\<lambda>r t. case r of Inl e \<Rightarrow> Q (Inl e) t | Inr a \<Rightarrow> wp (k a) Q t) s \<Longrightarrow> wp (and_then m k) Q s"
  by (auto simp: wp_def split: prod.splits sum.splits)

lemma wp_if [vcg]: "(b \<Longrightarrow> wp m Q s) \<Longrightarrow> (\<not> b \<Longrightarrow> wp n Q s) \<Longrightarrow> wp (if b then m else n) Q s"
  by simp

lemma wp_option [vcg]:
  "(x = None \<Longrightarrow> wp m Q s) \<Longrightarrow> (\<And>v. x = Some v \<Longrightarrow> wp (f v) Q s) \<Longrightarrow>
     wp (case x of None \<Rightarrow> m | Some v \<Rightarrow> f v) Q s"
  by (cases x) simp_all

lemma wp_sum [vcg]:
  "(\<And>e. x = Inl e \<Longrightarrow> wp (f e) Q s) \<Longrightarrow> (\<And>v. x = Inr v \<Longrightarrow> wp (g v) Q s) \<Longrightarrow>
     wp (case x of Inl e \<Rightarrow> f e | Inr v \<Rightarrow> g v) Q s"
  by (cases x) simp_all

lemma wp_Let [vcg]: "wp (f x) Q s \<Longrightarrow> wp (let y = x in f y) Q s"
  by simp

lemma wp_prod [vcg]: "(\<And>a b. x = (a, b) \<Longrightarrow> wp (f a b) Q s) \<Longrightarrow> wp (case x of (a, b) \<Rightarrow> f a b) Q s"
  by (cases x) simp

subsection \<open>Steps that keep a relation between the states\<close>

text \<open>
  A preorder on states that every primitive step of a program stays in is kept by the whole
  program: the contract is reflexivity and transitivity, and the lemmas are one per way of
  composing steps.
\<close>

locale step_relation =
  fixes R :: "'s \<Rightarrow> 's \<Rightarrow> bool"
  assumes R_refl: "R s s"
    and R_trans: "R s t \<Longrightarrow> R t u \<Longrightarrow> R s u"
begin

lemma keeps_return: "state_io_rel R (State_Monad.return a)"
  by (auto simp: state_io_rel_def R_refl)

lemma keeps_raise: "state_io_rel R (raise e)"
  by (auto simp: state_io_rel_def R_refl)

lemma keeps_done_with: "state_io_rel R (done_with a)"
  by (auto simp: state_io_rel_def R_refl)

lemma keeps_reads: "state_io_rel R (reads f)"
  by (auto simp: state_io_rel_def R_refl)

lemma keeps_modify: "(\<And>s. R s (f s)) \<Longrightarrow> state_io_rel R (modify f)"
  by (simp add: state_io_rel_def)

lemma keeps_bind:
  assumes "state_io_rel R m" and "\<And>a. state_io_rel R (f a)"
  shows "state_io_rel R (State_Monad.bind m f)"
  using assms R_trans unfolding state_io_rel_def
  by (auto split: prod.splits) (metis snd_conv)

lemma keeps_and_then:
  assumes "state_io_rel R m" and "\<And>a. state_io_rel R (k a)"
  shows "state_io_rel R (and_then m k)"
  unfolding and_then_def using assms
  by (intro keeps_bind) (auto split: sum.splits intro: keeps_raise)

lemma keeps_if: "state_io_rel R m \<Longrightarrow> state_io_rel R n \<Longrightarrow> state_io_rel R (if b then m else n)"
  by simp

lemma keeps_option:
  "state_io_rel R m \<Longrightarrow> (\<And>v. state_io_rel R (f v)) \<Longrightarrow>
     state_io_rel R (case x of None \<Rightarrow> m | Some v \<Rightarrow> f v)"
  by (cases x) simp_all

lemma keeps_sum:
  "(\<And>e. state_io_rel R (f e)) \<Longrightarrow> (\<And>v. state_io_rel R (g v)) \<Longrightarrow>
     state_io_rel R (case x of Inl e \<Rightarrow> f e | Inr v \<Rightarrow> g v)"
  by (cases x) simp_all

lemma keeps_prod: "(\<And>a b. state_io_rel R (f a b)) \<Longrightarrow> state_io_rel R (case x of (a, b) \<Rightarrow> f a b)"
  by (cases x) simp

lemma keeps_run: "state_io_rel R m \<Longrightarrow> run_state m s = (a, t) \<Longrightarrow> R s t"
  by (auto simp: state_io_rel_def) (metis snd_conv)

lemmas keeps = keeps_return keeps_raise keeps_done_with keeps_reads keeps_bind keeps_and_then
  keeps_if keeps_option keeps_sum keeps_prod

end

end
