(* ===== verification/GoJson.thy ===== *)
theory GoJson
  imports GoStrings
begin

text \<open>
  The values a Go \<open>any\<close> holds in this program (what \<open>encoding/json\<close> and the YAML decoder
  produce) and the text \<open>encoding/json\<close> writes. A finite \<open>float64\<close> is represented by the
  shortest decimal text that determines it, which is the text Go writes for it; the program
  never computes with one. An object is kept as an association list, its order standing for the
  iteration order of the Go map; the encoder sorts by key, as Go does.
\<close>

datatype float64 = Float64 (float_text: string)

datatype any =
    ANil
  | ABool bool
  | AInt int
  | AFloat float64
  | AString string
  | ASlice "any list"
  | AMap "(string \<times> any) list"

datatype json =
    JNull
  | JBool bool
  | JNum string
  | JStr string
  | JArr "json list"
  | JObj "(string \<times> json) list"

fun json_of_any :: "any \<Rightarrow> json" where
  "json_of_any ANil = JNull"
| "json_of_any (ABool b) = JBool b"
| "json_of_any (AInt i) = JNum (show_int i)"
| "json_of_any (AFloat f) = JNum (float_text f)"
| "json_of_any (AString s) = JStr s"
| "json_of_any (ASlice vs) = JArr (map json_of_any vs)"
| "json_of_any (AMap kvs) = JObj (sort_key fst (map (\<lambda>kv. (fst kv, json_of_any (snd kv))) kvs))"

definition json_of_strings :: "(string, string) fmap \<Rightarrow> json" where
  "json_of_strings m = JObj (map (\<lambda>(k, v). (k, JStr v)) (sorted_list_of_fmap m))"

definition json_of_ints :: "(string, int) fmap \<Rightarrow> json" where
  "json_of_ints m = JObj (map (\<lambda>(k, v). (k, JNum (show_int v))) (sorted_list_of_fmap m))"

subsection \<open>Struct fields\<close>

text \<open>
  A struct is written field by field in declaration order; a field with \<open>omitempty\<close> is left
  out when it holds its empty value. A nil slice without \<open>omitempty\<close> is written \<open>null\<close>, so
  slices whose emptiness is visible that way are modelled as \<open>'a slice\<close>.
\<close>

type_synonym 'a slice = "'a list option"

definition elems :: "'a slice \<Rightarrow> 'a list" where
  "elems s = (case s of None \<Rightarrow> [] | Some xs \<Rightarrow> xs)"

lemma elems_simps [simp]: "elems None = []" "elems (Some xs) = xs"
  by (simp_all add: elems_def)

definition json_slice :: "('a \<Rightarrow> json) \<Rightarrow> 'a slice \<Rightarrow> json" where
  "json_slice f s = (case s of None \<Rightarrow> JNull | Some xs \<Rightarrow> JArr (map f xs))"

definition omit_if :: "bool \<Rightarrow> string \<Rightarrow> json \<Rightarrow> (string \<times> json) list" where
  "omit_if is_zero k v = (if is_zero then [] else [(k, v)])"

subsection \<open>Text\<close>

text \<open>
  \<open>rune_size\<close> is the length of the UTF-8 sequence at the start of a byte string, and 0 when
  there is no valid one (where \<open>utf8.DecodeRuneInString\<close> answers \<open>RuneError\<close> with size 1).
\<close>

definition between :: "nat \<Rightarrow> char \<Rightarrow> nat \<Rightarrow> bool" where
  "between lo c hi \<longleftrightarrow> lo \<le> of_char c \<and> of_char c \<le> hi"

definition cont_byte :: "char \<Rightarrow> bool" where
  "cont_byte c \<longleftrightarrow> between 128 c 191"

fun rune_size :: "string \<Rightarrow> nat" where
  "rune_size [] = 0"
| "rune_size (a # s) =
     (if between 0 a 127 then 1
      else if between 194 a 223 then
        (case s of b # _ \<Rightarrow> if cont_byte b then 2 else 0 | _ \<Rightarrow> 0)
      else if between 224 a 239 then
        (case s of b # c # _ \<Rightarrow>
           if (if of_char a = (224::nat) then between 160 b 191
               else if of_char a = (237::nat) then between 128 b 159 else cont_byte b) \<and> cont_byte c
           then 3 else 0
         | _ \<Rightarrow> 0)
      else if between 240 a 244 then
        (case s of b # c # d # _ \<Rightarrow>
           if (if of_char a = (240::nat) then between 144 b 191
               else if of_char a = (244::nat) then between 128 b 143 else cont_byte b)
              \<and> cont_byte c \<and> cont_byte d
           then 4 else 0
         | _ \<Rightarrow> 0)
      else 0)"

lemma rune_size_le: "rune_size s \<le> length s"
  by (cases s) (auto split: list.splits)

declare rune_size.simps [simp del]

definition backslash :: char where
  "backslash = char_of (92::nat)"

definition quotation :: char where
  "quotation = char_of (34::nat)"

text \<open>The escapes of one ASCII byte, HTML-escaping on, as \<open>json.Marshal\<close> has it.\<close>

definition json_ascii :: "char \<Rightarrow> string" where
  "json_ascii c =
     (let n = of_char c :: nat
      in if n = 34 \<or> n = 92 then [backslash, c]
         else if n = 8 then [backslash, CHR ''b'']
         else if n = 12 then [backslash, CHR ''f'']
         else if n = 10 then [backslash, CHR ''n'']
         else if n = 13 then [backslash, CHR ''r'']
         else if n = 9 then [backslash, CHR ''t'']
         else if n < 32 \<or> n = 38 \<or> n = 60 \<or> n = 62
           then backslash # ''u00'' @ [hex_digit (n div 16), hex_digit (n mod 16)]
         else [c])"

text \<open>The separators U+2028 and U+2029, in UTF-8 the bytes E2 80 A8 and E2 80 A9.\<close>

definition line_separator :: "string \<Rightarrow> bool" where
  "line_separator s \<longleftrightarrow>
     take 3 s = map char_of [226::nat, 128, 168] \<or> take 3 s = map char_of [226::nat, 128, 169]"

fun json_chars :: "nat \<Rightarrow> string \<Rightarrow> string" where
  "json_chars 0 s = []"
| "json_chars (Suc fuel) s =
     (case s of [] \<Rightarrow> []
      | c # t \<Rightarrow>
          if between 0 c 127 then json_ascii c @ json_chars fuel t
          else if rune_size s = 0 then backslash # ''ufffd'' @ json_chars fuel t
          else if line_separator s
            then backslash # ''u202'' @ [hex_digit (of_char (s ! 2) mod 16)] @ json_chars fuel (drop 3 s)
          else take (rune_size s) s @ json_chars fuel (drop (rune_size s) s))"

definition json_string :: "string \<Rightarrow> string" where
  "json_string s = quotation # json_chars (length s) s @ [quotation]"

fun json_text :: "json \<Rightarrow> string" where
  "json_text JNull = ''null''"
| "json_text (JBool b) = show_bool b"
| "json_text (JNum t) = t"
| "json_text (JStr s) = json_string s"
| "json_text (JArr vs) = ''['' @ Join (map json_text vs) '','' @ '']''"
| "json_text (JObj kvs) =
     ''{'' @ Join (map (\<lambda>kv. json_string (fst kv) @ '':'' @ json_text (snd kv)) kvs) '','' @ ''}''"

text \<open>
  Each step consumes at least one byte, so the length of the string is enough fuel: more does
  not change the text.
\<close>

lemma json_chars_fuel: "length s \<le> n \<Longrightarrow> length s \<le> m \<Longrightarrow> json_chars n s = json_chars m s"
proof (induction n arbitrary: s m)
  case 0
  then show ?case by (cases m) auto
next
  case (Suc n)
  show ?case
  proof (cases s)
    case Nil
    then show ?thesis by (cases m) auto
  next
    case (Cons c t)
    with Suc.prems obtain m' where m: "m = Suc m'" by (cases m) auto
    have drops: "json_chars n (drop k s) = json_chars m' (drop k s)" if "0 < k" for k
      using Suc.prems m that by (intro Suc.IH) auto
    from drops [of 1] have "json_chars n t = json_chars m' t" by (simp add: Cons)
    moreover have "json_chars n (drop 3 s) = json_chars m' (drop 3 s)" by (rule drops) simp
    moreover have "rune_size s \<noteq> 0 \<Longrightarrow>
        json_chars n (drop (rune_size s) s) = json_chars m' (drop (rune_size s) s)"
      by (rule drops) simp
    ultimately show ?thesis unfolding m Cons json_chars.simps list.case by presburger
  qed
qed

end
