(* ===== verification/Capabilities.thy ===== *)
theory Capabilities
  imports GoJson
begin

text \<open>
  The data every component exchanges (\<open>internal/capabilities/types.go\<close>): the capability
  names, one record per Go struct with the struct's fields in its order, the ten plugin
  interfaces, and the JSON the structs are written as.

  A field \<open>F\<close> of a struct is \<open>xx_F\<close>, with a two-letter prefix per struct. Go integers are
  \<open>int\<close>: the program copies and compares them, and computes only with lengths. A
  \<open>time.Time\<close> is its number of nanoseconds, 0 for the zero time. \<open>RequestSummary\<close> and
  \<open>GatewayEvent\<close> are polymorphic in their properties, which are a map of strings where the
  value crosses the plugin boundary and a reference to such a map while the gateway holds it.
\<close>

subsection \<open>Capability names\<close>

text \<open>An open string type with ten declared constants.\<close>

type_synonym CapabilityType = string

definition AuthenticatorCap :: CapabilityType where
  "AuthenticatorCap = ''authenticator''"

definition AuthorizerCap :: CapabilityType where
  "AuthorizerCap = ''authorizer''"

definition RateLimiterCap :: CapabilityType where
  "RateLimiterCap = ''rate_limiter''"

definition RouterCap :: CapabilityType where
  "RouterCap = ''router''"

definition UpstreamProviderCap :: CapabilityType where
  "UpstreamProviderCap = ''upstream_provider''"

definition CacheProviderCap :: CapabilityType where
  "CacheProviderCap = ''cache_provider''"

definition ObserverCap :: CapabilityType where
  "ObserverCap = ''observer''"

definition PromptProviderCap :: CapabilityType where
  "PromptProviderCap = ''prompt_provider''"

definition CostProviderCap :: CapabilityType where
  "CostProviderCap = ''cost_provider''"

definition ModelRegistryProviderCap :: CapabilityType where
  "ModelRegistryProviderCap = ''model_registry_provider''"

lemmas cap_defs = AuthenticatorCap_def AuthorizerCap_def RateLimiterCap_def RouterCap_def
  UpstreamProviderCap_def CacheProviderCap_def ObserverCap_def PromptProviderCap_def
  CostProviderCap_def ModelRegistryProviderCap_def

definition all_caps :: "CapabilityType list" where
  "all_caps = [AuthenticatorCap, AuthorizerCap, RateLimiterCap, RouterCap, UpstreamProviderCap,
     CacheProviderCap, ObserverCap, PromptProviderCap, CostProviderCap, ModelRegistryProviderCap]"

lemma distinct_all_caps: "distinct all_caps"
  by (simp add: all_caps_def cap_defs)

subsection \<open>Structs\<close>

type_synonym props = "(string, string) fmap"

record CallContext =
  cc_RequestID :: string
  cc_TenantID :: string
  cc_Deadline :: int
  cc_TraceContext :: "(string, string) fmap"
  cc_GatewayVersion :: string
  cc_PluginInstance :: string

record Diagnostic =
  dg_Severity :: string
  dg_Code :: string
  dg_Message :: string
  dg_Details :: "(string, string) fmap"

record Identity =
  id_Subject :: string
  id_TenantID :: string
  id_Groups :: "string list"
  id_Claims :: "(string, string) fmap"
  id_AuthMethod :: string

record 'p RequestSummary =
  rs_Operation :: string
  rs_RequestedModel :: string
  rs_EstimatedInputTokens :: int
  rs_Properties :: "'p"

record RequestConstraints =
  rk_AllowedModels :: "string list"
  rk_MaxOutputTokens :: int
  rk_MaxEstimatedCostUSD :: "float64"
  rk_AllowedRegions :: "string list"

record Usage =
  us_ProviderInstance :: string
  us_ProviderModel :: string
  us_InputTokens :: int
  us_OutputTokens :: int
  us_TotalTokens :: int
  us_CostUSD :: "float64"

record ToolCallFunction =
  tf_Name :: string
  tf_Arguments :: string

record ToolCall =
  tc_Index :: int
  tc_ID :: string
  tc_Type :: string
  tc_Function :: ToolCallFunction

record ChatMessage =
  cm_Role :: string
  cm_Content :: any
  cm_Name :: string
  cm_ToolCallID :: string
  cm_ToolCalls :: "ToolCall list"

record ChatCompletionRequest =
  rq_Model :: string
  rq_Messages :: "ChatMessage slice"
  rq_Stream :: bool
  rq_Temperature :: "float64 option"
  rq_MaxTokens :: "int option"
  rq_Tools :: any
  rq_ToolChoice :: any
  rq_Metadata :: any
  rq_Extra :: "(string \<times> any) list"

record ChatChoice =
  ch_Index :: int
  ch_Message :: ChatMessage
  ch_Delta :: ChatMessage
  ch_FinishReason :: string

record ChatCompletionResponse =
  rp_ID :: string
  rp_Object :: string
  rp_Created :: int
  rp_Model :: string
  rp_Choices :: "ChatChoice slice"
  rp_Usage :: "(string, int) fmap"

record ChatCompletionChunk =
  ck_ID :: string
  ck_Object :: string
  ck_Created :: int
  ck_Model :: string
  ck_Choices :: "ChatChoice slice"

record UpstreamError =
  ue_Code :: string
  ue_Message :: string
  ue_HTTPStatus :: int
  ue_Retryable :: bool
  ue_RateLimited :: bool

record ResponseChunk =
  rc_Chunk :: "ChatCompletionChunk option"
  rc_Usage :: "Usage option"
  rc_Error :: "UpstreamError option"

record AuthenticateRequest =
  aq_Context :: CallContext
  aq_Headers :: "(string, string) fmap"
  aq_SourceIP :: string
  aq_Method :: string
  aq_Path :: string

record AuthenticateResponse =
  ar_Allow :: bool
  ar_Identity :: Identity
  ar_DenyReason :: string
  ar_Diagnostics :: "Diagnostic list"

record AuthorizeRequest =
  zq_Context :: CallContext
  zq_Identity :: Identity
  zq_Request :: "(string, string) fmap RequestSummary"

record AuthorizeResponse =
  zr_Allow :: bool
  zr_DenyReason :: string
  zr_Constraints :: RequestConstraints
  zr_Diagnostics :: "Diagnostic list"

record RateLimitCheckRequest =
  lq_Context :: CallContext
  lq_Identity :: Identity
  lq_Model :: string
  lq_EstimatedInputTokens :: int
  lq_RequestedOutputTokens :: int
  lq_Properties :: "(string, string) fmap"

record RateLimitState =
  ls_RequestLimit :: int
  ls_RequestRemaining :: int
  ls_TokenLimit :: int
  ls_TokenRemaining :: int
  ls_BudgetLimitUSD :: "float64"
  ls_BudgetRemainingUSD :: "float64"
  ls_ResetUnixNano :: int

record RateLimitCheckResponse =
  lr_Decision :: string
  lr_DenyReason :: string
  lr_RetryAfterMS :: int
  lr_State :: RateLimitState

record CommitUsageRequest =
  uq_Context :: CallContext
  uq_Identity :: Identity
  uq_Usage :: Usage

record RouteCandidate =
  rn_ProviderInstance :: string
  rn_ProviderModel :: string
  rn_LogicalModel :: string
  rn_Weight :: int
  rn_Region :: string
  rn_Healthy :: bool
  rn_EstimatedCostPer1KInput :: "float64"
  rn_EstimatedCostPer1KOutput :: "float64"
  rn_Properties :: "(string, string) fmap"

record RouteRequest =
  tq_Context :: CallContext
  tq_Identity :: Identity
  tq_RequestedModel :: string
  tq_Request :: "(string, string) fmap RequestSummary"
  tq_Candidates :: "RouteCandidate list"
  tq_Constraints :: RequestConstraints

record SelectedRoute =
  sr_ProviderInstance :: string
  sr_ProviderModel :: string
  sr_Priority :: int
  sr_Properties :: "(string, string) fmap"

record RouteResponse =
  tr_Routes :: "SelectedRoute list"
  tr_Reason :: string
  tr_Diagnostics :: "Diagnostic list"

record InvokeRequest =
  iq_Context :: CallContext
  iq_Identity :: Identity
  iq_ProviderModel :: string
  iq_Request :: ChatCompletionRequest
  iq_Properties :: "(string, string) fmap"

record ModelInfo =
  mi_ID :: string
  mi_Object :: string
  mi_OwnedBy :: string
  mi_ProviderInstance :: string
  mi_ProviderModel :: string
  mi_ContextWindow :: int
  mi_SupportsStreaming :: bool
  mi_SupportsTools :: bool
  mi_SupportsJSONMode :: bool
  mi_SupportsVision :: bool
  mi_Region :: string
  mi_Healthy :: bool
  mi_Properties :: "(string, string) fmap"

record CachePolicy =
  cp_TTLMillis :: int
  cp_Semantic :: bool
  cp_Vary :: "(string, string) fmap"

record CachedResponse =
  cr_Response :: ChatCompletionResponse
  cr_Usage :: Usage

record CacheLookupRequest =
  kq_Context :: CallContext
  kq_Identity :: Identity
  kq_CacheKey :: string
  kq_Policy :: CachePolicy

record CacheLookupResponse =
  kr_Hit :: bool
  kr_Response :: CachedResponse
  kr_CacheID :: string

record CacheStoreRequest =
  sq_Context :: CallContext
  sq_Identity :: Identity
  sq_CacheKey :: string
  sq_Response :: CachedResponse
  sq_Policy :: CachePolicy

record 'p GatewayEvent =
  ev_EventID :: string
  ev_RequestID :: string
  ev_TenantID :: string
  ev_EventType :: string
  ev_TimestampUnixNano :: int
  ev_Properties :: "'p"
  ev_Usage :: Usage
  ev_Error :: "(string, string) fmap"

record PromptResolveRequest =
  pq_Context :: CallContext
  pq_Identity :: Identity
  pq_PromptRef :: string
  pq_Version :: string
  pq_Variables :: "(string, string) fmap"

record PromptResolveResponse =
  pr_Messages :: "ChatMessage list"
  pr_ResolvedVersion :: string
  pr_Properties :: "(string, string) fmap"

record CostEstimateRequest =
  eq_Context :: CallContext
  eq_Provider :: string
  eq_Model :: string
  eq_InputTokens :: int
  eq_OutputTokens :: int

record CostEstimateResponse =
  er_EstimatedCostUSD :: "float64"
subsection \<open>Zero values\<close>

definition zero_float :: float64 where
  "zero_float = Float64 ''0''"

definition zero_usage :: Usage where
  "zero_usage = \<lparr>us_ProviderInstance = [], us_ProviderModel = [], us_InputTokens = 0,
     us_OutputTokens = 0, us_TotalTokens = 0, us_CostUSD = zero_float\<rparr>"

definition zero_message :: ChatMessage where
  "zero_message = \<lparr>cm_Role = [], cm_Content = ANil, cm_Name = [], cm_ToolCallID = [],
     cm_ToolCalls = []\<rparr>"

definition zero_response :: ChatCompletionResponse where
  "zero_response = \<lparr>rp_ID = [], rp_Object = [], rp_Created = 0, rp_Model = [], rp_Choices = None,
     rp_Usage = fmempty\<rparr>"

definition zero_constraints :: RequestConstraints where
  "zero_constraints = \<lparr>rk_AllowedModels = [], rk_MaxOutputTokens = 0,
     rk_MaxEstimatedCostUSD = zero_float, rk_AllowedRegions = []\<rparr>"

subsection \<open>Errors\<close>

text \<open>
  The dynamic types an \<open>error\<close> of the request path has: the missing-capabilities and gateway
  errors of the pipeline (\<open>internal/pipeline/errors.go\<close>), an upstream error, and every other
  error, known by its text only. \<open>EWrapped\<close> and \<open>EAnnotated\<close> are \<open>fmt.Errorf\<close> with one \<open>%w\<close>:
  a text in front of another error, or behind it. \<open>EShutdown\<close> is the sentinel
  \<open>rpc.ErrShutdown\<close>.
\<close>

record GatewayError =
  ge_Type :: string
  ge_Code :: string
  ge_Message :: string
  ge_Status :: int
  ge_Details :: "(string \<times> any) list"

datatype goerr =
    EMissing "CapabilityType list"
  | EGateway GatewayError
  | EUpstream UpstreamError
  | EText string
  | EWrapped string goerr
  | EAnnotated goerr string
  | EShutdown

definition missing_message :: "CapabilityType list \<Rightarrow> string" where
  "missing_message ms =
     ''Gateway cannot serve chat completions. Missing required capabilities: ''
       @ Join ms '', '' @ ''.''"

fun err_text :: "goerr \<Rightarrow> string" where
  "err_text (EMissing ms) = missing_message ms"
| "err_text (EGateway e) = ge_Message e"
| "err_text (EUpstream e) = ue_Message e"
| "err_text (EText s) = s"
| "err_text (EWrapped s e) = s @ err_text e"
| "err_text (EAnnotated e s) = err_text e @ s"
| "err_text EShutdown = ''connection is shut down''"

text \<open>\<open>errors.As(err, &ue)\<close> for an upstream error: the first one along the wrapping chain.\<close>

fun as_upstream :: "goerr \<Rightarrow> UpstreamError option" where
  "as_upstream (EUpstream e) = Some e"
| "as_upstream (EWrapped s e) = as_upstream e"
| "as_upstream (EAnnotated e s) = as_upstream e"
| "as_upstream _ = None"

text \<open>\<open>errors.Is(err, rpc.ErrShutdown)\<close>.\<close>

fun is_shutdown :: "goerr \<Rightarrow> bool" where
  "is_shutdown EShutdown = True"
| "is_shutdown (EWrapped s e) = is_shutdown e"
| "is_shutdown (EAnnotated e s) = is_shutdown e"
| "is_shutdown _ = False"

subsection \<open>Plugin interfaces\<close>

text \<open>
  A plugin is code outside the repository. Its methods are functions that take the request and
  the state of the world outside the gateway, \<open>'w\<close>, and give an answer and the world after the
  call, so a plugin may keep state, answer differently each time, and influence other plugins.
  An upstream invocation that succeeds yields the chunks its channel delivers until it is
  closed.
\<close>

type_synonym ('w, 'a, 'b) answering = "'a \<Rightarrow> 'w \<Rightarrow> (goerr + 'b) \<times> 'w"

record 'w Authenticator =
  Authenticate :: "('w, AuthenticateRequest, AuthenticateResponse) answering"

record 'w Authorizer =
  Authorize :: "('w, AuthorizeRequest, AuthorizeResponse) answering"

record 'w RateLimiter =
  Check :: "('w, RateLimitCheckRequest, RateLimitCheckResponse) answering"
  Commit :: "('w, CommitUsageRequest, unit) answering"

record 'w Router =
  Route :: "('w, RouteRequest, RouteResponse) answering"

text \<open>
  The channel an upstream answers is the list of the chunks it sends on it. Whether it closes the
  channel after them is not part of the answer: it is a parameter of the streaming theory, and what
  the collection of a non-streaming response assumes.
\<close>

record 'w UpstreamProvider =
  Invoke :: "('w, InvokeRequest, ResponseChunk list) answering"
  ListModels :: "('w, unit, ModelInfo list) answering"

record 'w CacheProvider =
  Lookup :: "('w, CacheLookupRequest, CacheLookupResponse) answering"
  Store :: "('w, CacheStoreRequest, unit) answering"

record 'w Observer =
  Emit :: "('w, props GatewayEvent list, unit) answering"

record 'w PromptProvider =
  ResolvePrompt :: "('w, PromptResolveRequest, PromptResolveResponse) answering"

record 'w CostProvider =
  Estimate :: "('w, CostEstimateRequest, CostEstimateResponse) answering"

record 'w ModelRegistryProvider =
  mr_ListModels :: "('w, unit, ModelInfo list) answering"

subsection \<open>JSON of the structs\<close>

definition json_tool_call :: "ToolCall \<Rightarrow> json" where
  "json_tool_call t = JObj
     ([(''index'', JNum (show_int (tc_Index t)))]
      @ omit_if (tc_ID t = []) ''id'' (JStr (tc_ID t))
      @ omit_if (tc_Type t = []) ''type'' (JStr (tc_Type t))
      @ [(''function'', JObj
           (omit_if (tf_Name (tc_Function t) = []) ''name'' (JStr (tf_Name (tc_Function t)))
            @ omit_if (tf_Arguments (tc_Function t) = []) ''arguments''
                (JStr (tf_Arguments (tc_Function t)))))])"

definition json_message :: "ChatMessage \<Rightarrow> json" where
  "json_message m = JObj
     ([(''role'', JStr (cm_Role m)), (''content'', json_of_any (cm_Content m))]
      @ omit_if (cm_Name m = []) ''name'' (JStr (cm_Name m))
      @ omit_if (cm_ToolCallID m = []) ''tool_call_id'' (JStr (cm_ToolCallID m))
      @ omit_if (cm_ToolCalls m = []) ''tool_calls'' (JArr (map json_tool_call (cm_ToolCalls m))))"

definition json_messages :: "ChatMessage slice \<Rightarrow> json" where
  "json_messages = json_slice json_message"

definition json_request :: "ChatCompletionRequest \<Rightarrow> json" where
  "json_request r = JObj
     ([(''model'', JStr (rq_Model r)), (''messages'', json_messages (rq_Messages r))]
      @ omit_if (\<not> rq_Stream r) ''stream'' (JBool (rq_Stream r))
      @ (case rq_Temperature r of None \<Rightarrow> [] | Some f \<Rightarrow> [(''temperature'', JNum (float_text f))])
      @ (case rq_MaxTokens r of None \<Rightarrow> [] | Some n \<Rightarrow> [(''max_tokens'', JNum (show_int n))])
      @ omit_if (rq_Tools r = ANil) ''tools'' (json_of_any (rq_Tools r))
      @ omit_if (rq_ToolChoice r = ANil) ''tool_choice'' (json_of_any (rq_ToolChoice r))
      @ omit_if (rq_Metadata r = ANil) ''metadata'' (json_of_any (rq_Metadata r)))"

definition json_choice :: "ChatChoice \<Rightarrow> json" where
  "json_choice c = JObj
     ([(''index'', JNum (show_int (ch_Index c))),
       (''message'', json_message (ch_Message c)),
       (''delta'', json_message (ch_Delta c))]
      @ omit_if (ch_FinishReason c = []) ''finish_reason'' (JStr (ch_FinishReason c)))"

definition json_response :: "ChatCompletionResponse \<Rightarrow> json" where
  "json_response r = JObj
     ([(''id'', JStr (rp_ID r)), (''object'', JStr (rp_Object r)),
       (''created'', JNum (show_int (rp_Created r))), (''model'', JStr (rp_Model r)),
       (''choices'', json_slice json_choice (rp_Choices r))]
      @ omit_if (rp_Usage r = fmempty) ''usage'' (json_of_ints (rp_Usage r)))"

definition json_chunk :: "ChatCompletionChunk \<Rightarrow> json" where
  "json_chunk c = JObj
     [(''id'', JStr (ck_ID c)), (''object'', JStr (ck_Object c)),
      (''created'', JNum (show_int (ck_Created c))), (''model'', JStr (ck_Model c)),
      (''choices'', json_slice json_choice (ck_Choices c))]"

text \<open>The \<open>Extra\<close> fields of a request are tagged \<open>json:"-"\<close> and never written.\<close>

lemma json_request_ignores_Extra: "json_request (r\<lparr>rq_Extra := x\<rparr>) = json_request r"
  by (simp add: json_request_def)

end
