(* ===== verification/PluginRegistry.thy ===== *)
theory PluginRegistry
  imports Capabilities
begin

text \<open>
  The registry of plugin capabilities (\<open>internal/plugins/registry.go\<close>): one table per capability,
  from plugin instance names to the plugin's implementation, and the metadata table. Every method
  of the source holds the registry's lock for its whole body, so each is one atomic operation.

  A Go map lookup of an absent name gives nil, which the getters turn into an error; nil is never
  stored, because the only caller stores a dialled client.
\<close>

record CapabilityDescriptor =
  cd_Type :: CapabilityType
  cd_Name :: string
  cd_Version :: string

record DataPermissions =
  dp_ReadPrompt :: bool
  dp_ReadResponse :: bool
  dp_ModifyRequest :: bool
  dp_ModifyResponse :: bool
  dp_ReadHeaders :: bool

record Permissions =
  pm_OutboundHosts :: "string list"
  pm_SecretNames :: "string list"
  pm_Data :: DataPermissions

record Metadata =
  md_Name :: string
  md_Version :: string
  md_Homepage :: string
  md_Capabilities :: "CapabilityDescriptor list"
  md_Permissions :: Permissions

record 'w Registry =
  rg_authn :: "(string, 'w Authenticator) fmap"
  rg_authz :: "(string, 'w Authorizer) fmap"
  rg_ratelimit :: "(string, 'w RateLimiter) fmap"
  rg_router :: "(string, 'w Router) fmap"
  rg_upstream :: "(string, 'w UpstreamProvider) fmap"
  rg_cache :: "(string, 'w CacheProvider) fmap"
  rg_observer :: "(string, 'w Observer) fmap"
  rg_prompt :: "(string, 'w PromptProvider) fmap"
  rg_cost :: "(string, 'w CostProvider) fmap"
  rg_modelregistry :: "(string, 'w ModelRegistryProvider) fmap"
  rg_metadata :: "(string, Metadata) fmap"

definition NewRegistry :: "'w Registry" where
  "NewRegistry = \<lparr>rg_authn = fmempty, rg_authz = fmempty, rg_ratelimit = fmempty,
     rg_router = fmempty, rg_upstream = fmempty, rg_cache = fmempty, rg_observer = fmempty,
     rg_prompt = fmempty, rg_cost = fmempty, rg_modelregistry = fmempty, rg_metadata = fmempty\<rparr>"

definition AddMetadata :: "string \<Rightarrow> Metadata \<Rightarrow> 'w Registry \<Rightarrow> 'w Registry" where
  "AddMetadata inst md r = r\<lparr>rg_metadata := fmupd inst md (rg_metadata r)\<rparr>"

definition Metadata_of :: "'w Registry \<Rightarrow> string \<Rightarrow> Metadata option" where
  "Metadata_of r inst = fmlookup (rg_metadata r) inst"

subsection \<open>Adding\<close>

definition AddAuthenticator :: "string \<Rightarrow> 'w Authenticator \<Rightarrow> 'w Registry \<Rightarrow> 'w Registry" where
  "AddAuthenticator name v r = r\<lparr>rg_authn := fmupd name v (rg_authn r)\<rparr>"

definition AddAuthorizer :: "string \<Rightarrow> 'w Authorizer \<Rightarrow> 'w Registry \<Rightarrow> 'w Registry" where
  "AddAuthorizer name v r = r\<lparr>rg_authz := fmupd name v (rg_authz r)\<rparr>"

definition AddRateLimiter :: "string \<Rightarrow> 'w RateLimiter \<Rightarrow> 'w Registry \<Rightarrow> 'w Registry" where
  "AddRateLimiter name v r = r\<lparr>rg_ratelimit := fmupd name v (rg_ratelimit r)\<rparr>"

definition AddRouter :: "string \<Rightarrow> 'w Router \<Rightarrow> 'w Registry \<Rightarrow> 'w Registry" where
  "AddRouter name v r = r\<lparr>rg_router := fmupd name v (rg_router r)\<rparr>"

definition AddUpstreamProvider :: "string \<Rightarrow> 'w UpstreamProvider \<Rightarrow> 'w Registry \<Rightarrow> 'w Registry" where
  "AddUpstreamProvider name v r = r\<lparr>rg_upstream := fmupd name v (rg_upstream r)\<rparr>"

definition AddCacheProvider :: "string \<Rightarrow> 'w CacheProvider \<Rightarrow> 'w Registry \<Rightarrow> 'w Registry" where
  "AddCacheProvider name v r = r\<lparr>rg_cache := fmupd name v (rg_cache r)\<rparr>"

definition AddObserver :: "string \<Rightarrow> 'w Observer \<Rightarrow> 'w Registry \<Rightarrow> 'w Registry" where
  "AddObserver name v r = r\<lparr>rg_observer := fmupd name v (rg_observer r)\<rparr>"

definition AddPromptProvider :: "string \<Rightarrow> 'w PromptProvider \<Rightarrow> 'w Registry \<Rightarrow> 'w Registry" where
  "AddPromptProvider name v r = r\<lparr>rg_prompt := fmupd name v (rg_prompt r)\<rparr>"

definition AddCostProvider :: "string \<Rightarrow> 'w CostProvider \<Rightarrow> 'w Registry \<Rightarrow> 'w Registry" where
  "AddCostProvider name v r = r\<lparr>rg_cost := fmupd name v (rg_cost r)\<rparr>"

definition AddModelRegistryProvider :: "string \<Rightarrow> 'w ModelRegistryProvider \<Rightarrow> 'w Registry \<Rightarrow> 'w Registry" where
  "AddModelRegistryProvider name v r = r\<lparr>rg_modelregistry := fmupd name v (rg_modelregistry r)\<rparr>"

subsection \<open>Getting\<close>

text \<open>\<open>not_found\<close> is the error \<open>fmt.Errorf("<kind> %q not found", name)\<close>.\<close>

definition not_found :: "string \<Rightarrow> string \<Rightarrow> goerr" where
  "not_found kind name = EText (kind @ '' '' @ Quote name @ '' not found'')"

definition get_or_error :: "string \<Rightarrow> (string, 'v) fmap \<Rightarrow> string \<Rightarrow> goerr + 'v" where
  "get_or_error kind m name =
     (case fmlookup m name of None \<Rightarrow> Inl (not_found kind name) | Some v \<Rightarrow> Inr v)"

definition getAuthenticator :: "'w Registry \<Rightarrow> string \<Rightarrow> goerr + 'w Authenticator" where
  "getAuthenticator r = get_or_error ''authenticator'' (rg_authn r)"

definition getAuthorizer :: "'w Registry \<Rightarrow> string \<Rightarrow> goerr + 'w Authorizer" where
  "getAuthorizer r = get_or_error ''authorizer'' (rg_authz r)"

definition getRateLimiter :: "'w Registry \<Rightarrow> string \<Rightarrow> goerr + 'w RateLimiter" where
  "getRateLimiter r = get_or_error ''rate limiter'' (rg_ratelimit r)"

definition getRouter :: "'w Registry \<Rightarrow> string \<Rightarrow> goerr + 'w Router" where
  "getRouter r = get_or_error ''router'' (rg_router r)"

definition getUpstreamProvider :: "'w Registry \<Rightarrow> string \<Rightarrow> goerr + 'w UpstreamProvider" where
  "getUpstreamProvider r = get_or_error ''upstream provider'' (rg_upstream r)"

definition getCacheProvider :: "'w Registry \<Rightarrow> string \<Rightarrow> goerr + 'w CacheProvider" where
  "getCacheProvider r = get_or_error ''cache provider'' (rg_cache r)"

definition getObserver :: "'w Registry \<Rightarrow> string \<Rightarrow> goerr + 'w Observer" where
  "getObserver r = get_or_error ''observer'' (rg_observer r)"

definition getPromptProvider :: "'w Registry \<Rightarrow> string \<Rightarrow> goerr + 'w PromptProvider" where
  "getPromptProvider r = get_or_error ''prompt provider'' (rg_prompt r)"

definition getCostProvider :: "'w Registry \<Rightarrow> string \<Rightarrow> goerr + 'w CostProvider" where
  "getCostProvider r = get_or_error ''cost provider'' (rg_cost r)"

definition getModelRegistryProvider :: "'w Registry \<Rightarrow> string \<Rightarrow> goerr + 'w ModelRegistryProvider" where
  "getModelRegistryProvider r = get_or_error ''model registry provider'' (rg_modelregistry r)"

definition Has :: "'w Registry \<Rightarrow> string \<Rightarrow> CapabilityType \<Rightarrow> bool" where
  "Has r name cap =
     (if cap = AuthenticatorCap then fmlookup (rg_authn r) name \<noteq> None
      else if cap = AuthorizerCap then fmlookup (rg_authz r) name \<noteq> None
      else if cap = RateLimiterCap then fmlookup (rg_ratelimit r) name \<noteq> None
      else if cap = RouterCap then fmlookup (rg_router r) name \<noteq> None
      else if cap = UpstreamProviderCap then fmlookup (rg_upstream r) name \<noteq> None
      else if cap = CacheProviderCap then fmlookup (rg_cache r) name \<noteq> None
      else if cap = ObserverCap then fmlookup (rg_observer r) name \<noteq> None
      else if cap = PromptProviderCap then fmlookup (rg_prompt r) name \<noteq> None
      else if cap = CostProviderCap then fmlookup (rg_cost r) name \<noteq> None
      else if cap = ModelRegistryProviderCap then fmlookup (rg_modelregistry r) name \<noteq> None
      else False)"

lemmas add_defs = AddMetadata_def AddAuthenticator_def AddAuthorizer_def AddRateLimiter_def AddRouter_def AddUpstreamProvider_def AddCacheProvider_def AddObserver_def AddPromptProvider_def AddCostProvider_def AddModelRegistryProvider_def
lemmas get_defs = getAuthenticator_def getAuthorizer_def getRateLimiter_def getRouter_def getUpstreamProvider_def getCacheProvider_def getObserver_def getPromptProvider_def getCostProvider_def getModelRegistryProvider_def

subsection \<open>The contract of a capability table\<close>

text \<open>
  What the pipeline compiler relies on, for one capability: after an addition the getter answers
  the added implementation under that name and is unchanged under every other, and \<open>Has\<close> tells
  whether the getter answers at all.
\<close>

locale capability_table =
  fixes add :: "string \<Rightarrow> 'v \<Rightarrow> 'r \<Rightarrow> 'r"
    and find :: "'r \<Rightarrow> string \<Rightarrow> goerr + 'v"
    and has :: "'r \<Rightarrow> string \<Rightarrow> CapabilityType \<Rightarrow> bool"
    and cap :: CapabilityType
    and fresh :: 'r
  assumes find_fresh: "\<exists>e. find fresh n = Inl e"
    and find_add: "find (add n v r) m = (if m = n then Inr v else find r m)"
    and has_find: "has r n cap \<longleftrightarrow> (\<exists>v. find r n = Inr v)"
    and add_add: "add n v (add n u r) = add n v r"
begin

lemma find_added: "find (add n v r) n = Inr v"
  by (simp add: find_add)

lemma has_add: "has (add n v r) m cap \<longleftrightarrow> m = n \<or> has r m cap"
  by (simp add: has_find find_add)

lemma find_fold: "find (fold (\<lambda>(n, v). add n v) xs r) m =
    (case map_of (rev xs) m of None \<Rightarrow> find r m | Some v \<Rightarrow> Inr v)"
  by (induction xs arbitrary: r) (auto simp: find_add map_add_def split: option.splits)

lemma has_fold: "has (fold (\<lambda>(n, v). add n v) xs fresh) m cap \<longleftrightarrow> m \<in> fst ` set xs"
proof -
  have "has (fold (\<lambda>(n, v). add n v) xs r) m cap \<longleftrightarrow> m \<in> fst ` set xs \<or> has r m cap" for r
    by (induction xs arbitrary: r) (auto simp: has_add)
  moreover have "\<not> has fresh m cap" using find_fresh [of m] by (auto simp: has_find)
  ultimately show ?thesis by blast
qed

end

interpretation authn_table: capability_table AddAuthenticator getAuthenticator Has AuthenticatorCap NewRegistry
  by unfold_locales
    (auto simp: AddAuthenticator_def getAuthenticator_def get_or_error_def Has_def NewRegistry_def cap_defs
      split: option.splits)

interpretation authz_table: capability_table AddAuthorizer getAuthorizer Has AuthorizerCap NewRegistry
  by unfold_locales
    (auto simp: AddAuthorizer_def getAuthorizer_def get_or_error_def Has_def NewRegistry_def cap_defs
      split: option.splits)

interpretation ratelimit_table: capability_table AddRateLimiter getRateLimiter Has RateLimiterCap NewRegistry
  by unfold_locales
    (auto simp: AddRateLimiter_def getRateLimiter_def get_or_error_def Has_def NewRegistry_def cap_defs
      split: option.splits)

interpretation router_table: capability_table AddRouter getRouter Has RouterCap NewRegistry
  by unfold_locales
    (auto simp: AddRouter_def getRouter_def get_or_error_def Has_def NewRegistry_def cap_defs
      split: option.splits)

interpretation upstream_table: capability_table AddUpstreamProvider getUpstreamProvider Has UpstreamProviderCap NewRegistry
  by unfold_locales
    (auto simp: AddUpstreamProvider_def getUpstreamProvider_def get_or_error_def Has_def NewRegistry_def cap_defs
      split: option.splits)

interpretation cache_table: capability_table AddCacheProvider getCacheProvider Has CacheProviderCap NewRegistry
  by unfold_locales
    (auto simp: AddCacheProvider_def getCacheProvider_def get_or_error_def Has_def NewRegistry_def cap_defs
      split: option.splits)

interpretation observer_table: capability_table AddObserver getObserver Has ObserverCap NewRegistry
  by unfold_locales
    (auto simp: AddObserver_def getObserver_def get_or_error_def Has_def NewRegistry_def cap_defs
      split: option.splits)

interpretation prompt_table: capability_table AddPromptProvider getPromptProvider Has PromptProviderCap NewRegistry
  by unfold_locales
    (auto simp: AddPromptProvider_def getPromptProvider_def get_or_error_def Has_def NewRegistry_def cap_defs
      split: option.splits)

interpretation cost_table: capability_table AddCostProvider getCostProvider Has CostProviderCap NewRegistry
  by unfold_locales
    (auto simp: AddCostProvider_def getCostProvider_def get_or_error_def Has_def NewRegistry_def cap_defs
      split: option.splits)

interpretation modelregistry_table: capability_table AddModelRegistryProvider getModelRegistryProvider Has ModelRegistryProviderCap NewRegistry
  by unfold_locales
    (auto simp: AddModelRegistryProvider_def getModelRegistryProvider_def get_or_error_def Has_def NewRegistry_def cap_defs
      split: option.splits)

subsection \<open>Tables do not interfere\<close>

text \<open>An addition to one table leaves every other table and the metadata alone.\<close>

lemma Has_other_table:
  "c \<noteq> AuthenticatorCap \<Longrightarrow> Has (AddAuthenticator n v r) m c = Has r m c"
  "c \<noteq> AuthorizerCap \<Longrightarrow> Has (AddAuthorizer n v1 r) m c = Has r m c"
  "c \<noteq> RateLimiterCap \<Longrightarrow> Has (AddRateLimiter n v2 r) m c = Has r m c"
  "c \<noteq> RouterCap \<Longrightarrow> Has (AddRouter n v3 r) m c = Has r m c"
  "c \<noteq> UpstreamProviderCap \<Longrightarrow> Has (AddUpstreamProvider n v4 r) m c = Has r m c"
  "c \<noteq> CacheProviderCap \<Longrightarrow> Has (AddCacheProvider n v5 r) m c = Has r m c"
  "c \<noteq> ObserverCap \<Longrightarrow> Has (AddObserver n v6 r) m c = Has r m c"
  "c \<noteq> PromptProviderCap \<Longrightarrow> Has (AddPromptProvider n v7 r) m c = Has r m c"
  "c \<noteq> CostProviderCap \<Longrightarrow> Has (AddCostProvider n v8 r) m c = Has r m c"
  "c \<noteq> ModelRegistryProviderCap \<Longrightarrow> Has (AddModelRegistryProvider n v9 r) m c = Has r m c"
  by (simp_all add: Has_def add_defs)

lemma Metadata_of_AddMetadata:
  "Metadata_of (AddMetadata n md r) m = (if m = n then Some md else Metadata_of r m)"
  by (simp add: Metadata_of_def AddMetadata_def)

lemma Has_unknown: "c \<notin> set all_caps \<Longrightarrow> \<not> Has r n c"
  by (simp add: Has_def all_caps_def)

end
