(* ===== verification/Config.thy ===== *)
theory Config
  imports Capabilities
begin

text \<open>
  The configuration (\<open>internal/config\<close>): the structs, \<open>ApplyDefaults\<close>, \<open>Validate\<close> and
  \<open>Load\<close>. Reading the file and decoding YAML are outside the repository (\<open>os.ReadFile\<close>,
  \<open>gopkg.in/yaml.v3\<close>) and are arguments of \<open>Load\<close>.

  A \<open>Duration\<close> is an \<open>int64\<close> count of nanoseconds, a type of its own as in the source; it gets
  the order and the zero of its count, so that conditions read as they do in the code.
\<close>

subsection \<open>Durations\<close>

datatype Duration = Duration (nanoseconds: int)

instantiation Duration :: "{zero, linorder}"
begin

definition zero_Duration :: Duration where
  "zero_Duration = Duration 0"

definition less_eq_Duration :: "Duration \<Rightarrow> Duration \<Rightarrow> bool" where
  "less_eq_Duration a b \<longleftrightarrow> nanoseconds a \<le> nanoseconds b"

definition less_Duration :: "Duration \<Rightarrow> Duration \<Rightarrow> bool" where
  "less_Duration a b \<longleftrightarrow> nanoseconds a < nanoseconds b"

instance
proof
  fix x y z :: Duration
  show "(x < y) = (x \<le> y \<and> \<not> y \<le> x)"
    by (auto simp: less_Duration_def less_eq_Duration_def)
  show "x \<le> x" by (simp add: less_eq_Duration_def)
  show "x \<le> y \<Longrightarrow> y \<le> z \<Longrightarrow> x \<le> z" by (simp add: less_eq_Duration_def)
  show "x \<le> y \<Longrightarrow> y \<le> x \<Longrightarrow> x = y"
    by (cases x; cases y) (simp add: less_eq_Duration_def)
  show "x \<le> y \<or> y \<le> x" by (auto simp: less_eq_Duration_def)
qed

end

definition seconds :: "int \<Rightarrow> Duration" where
  "seconds n = Duration (n * 1000000000)"

definition milliseconds :: "int \<Rightarrow> Duration" where
  "milliseconds n = Duration (n * 1000000)"

lemma duration_pos [simp]:
  "0 < n \<Longrightarrow> (0::Duration) < seconds n"
  "0 < n \<Longrightarrow> (0::Duration) < milliseconds n"
  by (simp_all add: less_Duration_def zero_Duration_def seconds_def milliseconds_def)

lemma duration_nonzero [simp]:
  "seconds n = 0 \<longleftrightarrow> n = 0"
  "milliseconds n = 0 \<longleftrightarrow> n = 0"
  by (simp_all add: zero_Duration_def seconds_def milliseconds_def)

subsection \<open>Structs\<close>

record ServerConfig =
  sv_Listen :: string
  sv_RequestTimeout :: Duration
  sv_StreamIdleTimeout :: Duration

record AuthConfig =
  au_Anonymous :: bool

record EnvSecretsConfig =
  es_Enabled :: bool

record SecretsConfig =
  sc_Env :: EnvSecretsConfig

record PluginSource =
  ps_Type :: string
  ps_Path :: string
  ps_Repository :: string
  ps_Release :: string
  ps_Asset :: string
  ps_Binary :: string
  ps_Checksum :: string

record SandboxConfig =
  sb_Enabled :: bool
  sb_MemoryMB :: int
  sb_CPUQuota :: float64
  sb_AllowNetwork :: "string list"
  sb_ReadOnlyFilesystem :: bool
  sb_AllowChildProcesses :: bool

record PluginConfig =
  pc_Name :: string
  pc_Source :: PluginSource
  pc_Capabilities :: "string list"
  pc_FailMode :: string
  pc_Config :: "(string \<times> any) list"
  pc_Checksum :: string
  pc_Trust :: string
  pc_Sandbox :: SandboxConfig

record PipelineConfig =
  pl_Authenticator :: string
  pl_Authorizer :: string
  pl_RateLimiter :: string
  pl_CacheProvider :: string
  pl_PromptProvider :: string
  pl_Router :: string
  pl_CostProvider :: string
  pl_ModelRegistryProvider :: string
  pl_UpstreamProviders :: "string list"
  pl_Observers :: "string list"
  pl_BlockingObservers :: "string list"

record ModelCandidate =
  mc_Provider :: string
  mc_Model :: string
  mc_Weight :: int
  mc_Region :: string
  mc_Properties :: props

record ModelAlias =
  ma_Candidates :: "ModelCandidate list"

record ModelsConfig =
  mo_Aliases :: "(string, ModelAlias) fmap"

record FallbackConfig =
  fb_MaxAttempts :: int
  fb_RetryOn :: "string list"
  fb_DoNotRetryOn :: "string list"

record ObservabilityConfig =
  ob_QueueSize :: int
  ob_BatchSize :: int
  ob_FlushInterval :: Duration
  ob_OnOverflow :: string
  ob_CapturePayloads :: bool

record RestartConfig =
  rt_MaxAttempts :: int
  rt_InitialBackoff :: Duration
  rt_MaxBackoff :: Duration

record Config =
  cf_Server :: ServerConfig
  cf_Auth :: AuthConfig
  cf_Secrets :: SecretsConfig
  cf_Plugins :: "PluginConfig list"
  cf_Pipeline :: PipelineConfig
  cf_Models :: ModelsConfig
  cf_Fallbacks :: FallbackConfig
  cf_Observability :: ObservabilityConfig
  cf_Restart :: RestartConfig
  cf_AllowZeroPlugins :: bool

subsection \<open>Defaults\<close>

text \<open>
  Each line is one \<open>if c.F == zero { c.F = default }\<close> of \<open>ApplyDefaults\<close>: the default where
  the field has the zero value, the field itself otherwise.
\<close>

definition default_to :: "'a \<Rightarrow> 'a \<Rightarrow> 'a \<Rightarrow> 'a" where
  "default_to z d v = (if v = z then d else v)"

lemma default_to_idem [simp]: "d \<noteq> z \<Longrightarrow> default_to z d (default_to z d v) = default_to z d v"
  by (simp add: default_to_def)

lemma default_to_nonzero [simp]: "d \<noteq> z \<Longrightarrow> default_to z d v \<noteq> z"
  by (simp add: default_to_def)

lemma default_to_kept [simp]: "v \<noteq> z \<Longrightarrow> default_to z d v = v"
  by (simp add: default_to_def)

definition default_server :: "ServerConfig \<Rightarrow> ServerConfig" where
  "default_server s = s\<lparr>
     sv_Listen := default_to [] ''127.0.0.1:8080'' (sv_Listen s),
     sv_RequestTimeout := default_to 0 (seconds 120) (sv_RequestTimeout s),
     sv_StreamIdleTimeout := default_to 0 (seconds 60) (sv_StreamIdleTimeout s)\<rparr>"

definition default_observability :: "ObservabilityConfig \<Rightarrow> ObservabilityConfig" where
  "default_observability b = b\<lparr>
     ob_QueueSize := default_to 0 10000 (ob_QueueSize b),
     ob_BatchSize := default_to 0 100 (ob_BatchSize b),
     ob_FlushInterval := default_to 0 (seconds 1) (ob_FlushInterval b),
     ob_OnOverflow := default_to [] ''drop_oldest'' (ob_OnOverflow b)\<rparr>"

definition default_fallbacks :: "FallbackConfig \<Rightarrow> FallbackConfig" where
  "default_fallbacks f = f\<lparr>
     fb_MaxAttempts := default_to 0 3 (fb_MaxAttempts f),
     fb_RetryOn := default_to []
       [''upstream_timeout'', ''upstream_rate_limited'', ''upstream_5xx''] (fb_RetryOn f)\<rparr>"

definition default_restart :: "RestartConfig \<Rightarrow> RestartConfig" where
  "default_restart r = r\<lparr>
     rt_MaxAttempts := default_to 0 5 (rt_MaxAttempts r),
     rt_InitialBackoff := default_to 0 (milliseconds 500) (rt_InitialBackoff r),
     rt_MaxBackoff := default_to 0 (seconds 30) (rt_MaxBackoff r)\<rparr>"

definition default_plugin :: "PluginConfig \<Rightarrow> PluginConfig" where
  "default_plugin p = p\<lparr>
     pc_FailMode := default_to [] ''closed'' (pc_FailMode p),
     pc_Trust := default_to [] ''community'' (pc_Trust p)\<rparr>"

definition ApplyDefaults :: "Config \<Rightarrow> Config" where
  "ApplyDefaults c = c\<lparr>
     cf_Server := default_server (cf_Server c),
     cf_Observability := default_observability (cf_Observability c),
     cf_Fallbacks := default_fallbacks (cf_Fallbacks c),
     cf_Restart := default_restart (cf_Restart c),
     cf_Plugins := map default_plugin (cf_Plugins c)\<rparr>"

lemmas default_defs = default_server_def default_observability_def default_fallbacks_def
  default_restart_def default_plugin_def ApplyDefaults_def

subsection \<open>Validation\<close>

definition plugin_error :: "string \<Rightarrow> string \<Rightarrow> goerr" where
  "plugin_error name msg = EText (''plugin '' @ Quote name @ '' '' @ msg)"

text \<open>The checks of one plugin after its name, in the order of the source.\<close>

definition check_source :: "PluginConfig \<Rightarrow> goerr + unit" where
  "check_source p =
     (let s = pc_Source p
      in if ps_Type s = [] then Inl (plugin_error (pc_Name p) ''source.type is required'')
         else if ps_Type s = ''filesystem'' then
           (if ps_Path s = [] then Inl (plugin_error (pc_Name p) ''source.path is required'')
            else Inr ())
         else if ps_Type s = ''github'' then
           (if ps_Repository s = [] \<or> ps_Release s = [] \<or> ps_Asset s = [] \<or> ps_Binary s = []
            then Inl (plugin_error (pc_Name p)
                   ''github source requires repository, release, asset, and binary'')
            else Inr ())
         else Inl (plugin_error (pc_Name p) (''unsupported source type '' @ Quote (ps_Type s))))"

definition check_modes :: "PluginConfig \<Rightarrow> goerr + unit" where
  "check_modes p =
     (if pc_FailMode p \<noteq> ''open'' \<and> pc_FailMode p \<noteq> ''closed''
      then Inl (plugin_error (pc_Name p) ''fail_mode must be open or closed'')
      else if pc_Trust p \<noteq> ''trusted'' \<and> pc_Trust p \<noteq> ''community'' \<and> pc_Trust p \<noteq> ''untrusted''
      then Inl (plugin_error (pc_Name p) ''trust must be trusted, community, or untrusted'')
      else Inr ())"

text \<open>The loop over the plugins: the index and the names seen are its state.\<close>

fun validate_plugins :: "nat \<Rightarrow> (string, bool) fmap \<Rightarrow> PluginConfig list \<Rightarrow> goerr + unit" where
  "validate_plugins i seen [] = Inr ()"
| "validate_plugins i seen (p # ps) =
     (if pc_Name p = [] then Inl (EText (''plugins['' @ show_nat i @ ''].name is required''))
      else if lookup_or False seen (pc_Name p)
      then Inl (EText (''duplicate plugin name '' @ Quote (pc_Name p)))
      else case check_source p of
        Inl e \<Rightarrow> Inl e
      | Inr _ \<Rightarrow> (case check_modes p of
            Inl e \<Rightarrow> Inl e
          | Inr _ \<Rightarrow> validate_plugins (Suc i) (fmupd (pc_Name p) True seen) ps))"

definition Validate :: "Config \<Rightarrow> goerr + unit" where
  "Validate c =
     (if sv_Listen (cf_Server c) = [] then Inl (EText ''server.listen is required'')
      else validate_plugins 0 fmempty (cf_Plugins c))"

definition Load ::
  "(string \<Rightarrow> goerr + string) \<Rightarrow> (string \<Rightarrow> goerr + Config) \<Rightarrow> string \<Rightarrow> goerr + Config" where
  "Load read_file unmarshal path =
     (case read_file path of
        Inl e \<Rightarrow> Inl (EWrapped (''read config '' @ path @ '': '') e)
      | Inr b \<Rightarrow> (case unmarshal b of
            Inl e \<Rightarrow> Inl (EWrapped (''parse config '' @ path @ '': '') e)
          | Inr raw \<Rightarrow>
              (let c = ApplyDefaults raw
               in case Validate c of Inl e \<Rightarrow> Inl e | Inr _ \<Rightarrow> Inr c)))"

subsection \<open>What an accepted configuration satisfies\<close>

definition source_ok :: "PluginSource \<Rightarrow> bool" where
  "source_ok s \<longleftrightarrow>
     ps_Type s = ''filesystem'' \<and> ps_Path s \<noteq> [] \<or>
     ps_Type s = ''github'' \<and> ps_Repository s \<noteq> [] \<and> ps_Release s \<noteq> [] \<and> ps_Asset s \<noteq> [] \<and>
       ps_Binary s \<noteq> []"

definition plugin_ok :: "PluginConfig \<Rightarrow> bool" where
  "plugin_ok p \<longleftrightarrow>
     pc_Name p \<noteq> [] \<and> source_ok (pc_Source p) \<and>
     pc_FailMode p \<in> {''open'', ''closed''} \<and>
     pc_Trust p \<in> {''trusted'', ''community'', ''untrusted''}"

definition config_ok :: "Config \<Rightarrow> bool" where
  "config_ok c \<longleftrightarrow>
     sv_Listen (cf_Server c) \<noteq> [] \<and> distinct (map pc_Name (cf_Plugins c)) \<and>
     list_all plugin_ok (cf_Plugins c)"

lemma check_source_iff: "check_source p = Inr () \<longleftrightarrow> source_ok (pc_Source p)"
  by (auto simp: check_source_def source_ok_def Let_def)

lemma check_modes_iff:
  "check_modes p = Inr () \<longleftrightarrow>
     pc_FailMode p \<in> {''open'', ''closed''} \<and> pc_Trust p \<in> {''trusted'', ''community'', ''untrusted''}"
  by (auto simp: check_modes_def)

lemma validate_plugins_Cons_iff:
  "validate_plugins i seen (p # ps) = Inr () \<longleftrightarrow>
     plugin_ok p \<and> \<not> lookup_or False seen (pc_Name p) \<and>
     validate_plugins (Suc i) (fmupd (pc_Name p) True seen) ps = Inr ()"
proof -
  have ok: "plugin_ok p \<longleftrightarrow> pc_Name p \<noteq> [] \<and> check_source p = Inr () \<and> check_modes p = Inr ()"
    unfolding plugin_ok_def check_source_iff check_modes_iff by blast
  show ?thesis unfolding ok by (auto split: sum.splits)
qed

lemma validate_plugins_iff:
  "validate_plugins i seen ps = Inr () \<longleftrightarrow>
     distinct (map pc_Name ps) \<and> list_all plugin_ok ps \<and>
     (\<forall>p \<in> set ps. \<not> lookup_or False seen (pc_Name p))"
proof (induction ps arbitrary: i seen)
  case (Cons p ps)
  show ?case unfolding validate_plugins_Cons_iff Cons.IH by auto
qed simp

text \<open>
  The loop reports the first plugin it cannot accept: the plugins before it pass on their own.
\<close>

lemma validate_plugins_first:
  "validate_plugins i seen ps = Inl e \<Longrightarrow>
     \<exists>k < length ps. validate_plugins i seen (take k ps) = Inr () \<and>
       validate_plugins i seen (take (Suc k) ps) = Inl e"
proof (induction ps arbitrary: i seen)
  case (Cons p ps)
  show ?case
  proof (cases "validate_plugins i seen [p]")
    case (Inl e')
    with Cons.prems have "validate_plugins i seen [p] = Inl e"
      by (auto split: if_splits sum.splits)
    then show ?thesis by (intro exI [of _ 0]) simp
  next
    case (Inr u)
    have step: "validate_plugins i seen (p # qs) =
        validate_plugins (Suc i) (fmupd (pc_Name p) True seen) qs" for qs
      using Inr by (auto split: if_splits sum.splits)
    from Cons.prems obtain k where "k < length ps"
      and "validate_plugins (Suc i) (fmupd (pc_Name p) True seen) (take k ps) = Inr ()"
      and "validate_plugins (Suc i) (fmupd (pc_Name p) True seen) (take (Suc k) ps) = Inl e"
      unfolding step using Cons.IH by blast
    then show ?thesis
      by (intro exI [of _ "Suc k"]) (simp add: step del: validate_plugins.simps)
  qed
qed simp

lemma Validate_iff: "Validate c = Inr () \<longleftrightarrow> config_ok c"
  by (auto simp: Validate_def config_ok_def validate_plugins_iff)

lemma default_plugin_idem: "default_plugin (default_plugin p) = default_plugin p"
  by (simp add: default_plugin_def)

lemma default_plugin_name [simp]: "pc_Name (default_plugin p) = pc_Name p"
  by (simp add: default_plugin_def)

subsection \<open>Properties\<close>

lemma ApplyDefaults_twice: "ApplyDefaults (ApplyDefaults c) = ApplyDefaults c"
  by (simp add: default_defs comp_def)

lemma Load_Inr:
  assumes "Load rf um path = Inr c"
  obtains b raw where "rf path = Inr b" "um b = Inr raw" "c = ApplyDefaults raw" "Validate c = Inr ()"
  using assms by (auto simp: Load_def Let_def split: sum.splits)

text \<open>
  C36: \<open>Validate\<close> accepts exactly the configurations with a listen address, pairwise different
  non-empty plugin names, a complete source of one of the two supported types for every plugin,
  and a known fail mode and trust level.
\<close>

theorem Validate_exact:
  "Validate c = Inr () \<longleftrightarrow>
     sv_Listen (cf_Server c) \<noteq> [] \<and> distinct (map pc_Name (cf_Plugins c)) \<and>
     list_all plugin_ok (cf_Plugins c)"
  by (simp add: Validate_iff config_ok_def)

text \<open>
  When the plugin loop of \<open>Validate\<close> reports an error, it is the error of the first plugin
  that cannot be accepted: with the plugins before it the configuration is valid, and with that
  plugin added the same error is reported.
\<close>

theorem Validate_first_error:
  assumes "Validate c = Inl e" and "sv_Listen (cf_Server c) \<noteq> []"
  shows "\<exists>k < length (cf_Plugins c).
           Validate (c\<lparr>cf_Plugins := take k (cf_Plugins c)\<rparr>) = Inr () \<and>
           Validate (c\<lparr>cf_Plugins := take (Suc k) (cf_Plugins c)\<rparr>) = Inl e"
  using assms validate_plugins_first [of 0 fmempty "cf_Plugins c" e]
  by (simp add: Validate_def)


end
