(* ===== verification/ModelRegistry.thy ===== *)
theory ModelRegistry
  imports Config
begin

text \<open>
  The model registry (\<open>internal/models/registry.go\<close>): logical model names to the upstream
  candidates the configuration gives them. Go iterates over a map in an unspecified order, so the
  two loops over a map take that order as an argument: a list that enumerates the map.
\<close>

record ModelRegistry =
  mg_aliases :: "(string, RouteCandidate list) fmap"

definition effective_weight :: "int \<Rightarrow> int" where
  "effective_weight w = (if w = 0 then 100 else w)"

definition candidate_of :: "string \<Rightarrow> ModelCandidate \<Rightarrow> RouteCandidate" where
  "candidate_of logical c =
     \<lparr>rn_ProviderInstance = mc_Provider c, rn_ProviderModel = mc_Model c,
      rn_LogicalModel = logical, rn_Weight = effective_weight (mc_Weight c),
      rn_Region = mc_Region c, rn_Healthy = True,
      rn_EstimatedCostPer1KInput = zero_float, rn_EstimatedCostPer1KOutput = zero_float,
      rn_Properties = mc_Properties c\<rparr>"

type_synonym alias_table = "(string, RouteCandidate list) fmap"

fun add_candidates :: "string \<Rightarrow> ModelCandidate list \<Rightarrow> alias_table \<Rightarrow> alias_table" where
  "add_candidates logical [] r = r"
| "add_candidates logical (c # cs) r =
     add_candidates logical cs
       (fmupd logical (lookup_or [] r logical @ [candidate_of logical c]) r)"

fun add_aliases :: "(string \<times> ModelAlias) list \<Rightarrow> alias_table \<Rightarrow> alias_table" where
  "add_aliases [] r = r"
| "add_aliases ((logical, alias) # rest) r =
     add_aliases rest (add_candidates logical (ma_Candidates alias) r)"

text \<open>\<open>order\<close> is the order in which \<open>range cfg.Aliases\<close> yields the entries.\<close>

definition NewModelRegistry :: "(string \<times> ModelAlias) list \<Rightarrow> ModelRegistry" where
  "NewModelRegistry order = \<lparr>mg_aliases = add_aliases order fmempty\<rparr>"

definition enumerates :: "('k \<times> 'v) list \<Rightarrow> ('k, 'v) fmap \<Rightarrow> bool" where
  "enumerates xs m \<longleftrightarrow> distinct (map fst xs) \<and> fmap_of_list xs = m"

definition Candidates :: "ModelRegistry \<Rightarrow> string \<Rightarrow> goerr + RouteCandidate list" where
  "Candidates r model =
     (let c = lookup_or [] (mg_aliases r) model
      in if c = [] then Inl (EText (''model '' @ Quote model @ '' not found'')) else Inr c)"

definition model_info :: "string \<Rightarrow> ModelInfo" where
  "model_info m =
     \<lparr>mi_ID = m, mi_Object = ''model'', mi_OwnedBy = ''gateway'', mi_ProviderInstance = [],
      mi_ProviderModel = [], mi_ContextWindow = 0, mi_SupportsStreaming = False,
      mi_SupportsTools = False, mi_SupportsJSONMode = False, mi_SupportsVision = False,
      mi_Region = [], mi_Healthy = True, mi_Properties = fmempty\<rparr>"

text \<open>\<open>keys\<close> is the order in which \<open>range r.aliases\<close> yields the keys.\<close>

definition List_models :: "string list \<Rightarrow> ModelInfo list" where
  "List_models keys = map model_info keys"

subsection \<open>Lemmas\<close>

lemma add_candidates_lookup:
  "lookup_or [] (add_candidates l cs r) m =
     lookup_or [] r m @ (if m = l then map (candidate_of l) cs else [])"
  by (induction l cs r rule: add_candidates.induct) auto

lemma add_candidates_dom:
  "fset (fmdom (add_candidates l cs r)) = fset (fmdom r) \<union> (if cs = [] then {} else {l})"
  by (induction l cs r rule: add_candidates.induct) auto

lemma add_aliases_lookup:
  "distinct (map fst xs) \<Longrightarrow>
     lookup_or [] (add_aliases xs r) m = lookup_or [] r m @
       (case map_of xs m of None \<Rightarrow> [] | Some a \<Rightarrow> map (candidate_of m) (ma_Candidates a))"
proof (induction xs r rule: add_aliases.induct)
  case (2 l a rest r)
  have "map_of rest l = None" using 2(2) by (simp add: map_of_eq_None_iff)
  with 2 show ?case by (simp add: add_candidates_lookup split: option.splits)
qed simp

lemma add_aliases_dom:
  "fset (fmdom (add_aliases xs r)) =
     fset (fmdom r) \<union> {l. \<exists>a. (l, a) \<in> set xs \<and> ma_Candidates a \<noteq> []}"
  by (induction xs r rule: add_aliases.induct) (auto simp: add_candidates_dom)

lemma enumerates_map_of: "enumerates xs m \<Longrightarrow> map_of xs k = fmlookup m k"
  by (auto simp: enumerates_def fmlookup_of_list)

lemma enumerates_in: "enumerates xs m \<Longrightarrow> (k, v) \<in> set xs \<longleftrightarrow> fmlookup m k = Some v"
  by (auto simp: enumerates_def fmlookup_of_list)

lemma Candidates_New:
  assumes "enumerates order (mo_Aliases cfg)"
  shows "lookup_or [] (mg_aliases (NewModelRegistry order)) m =
     (case fmlookup (mo_Aliases cfg) m of None \<Rightarrow> []
      | Some a \<Rightarrow> map (candidate_of m) (ma_Candidates a))"
  using assms
  by (simp add: NewModelRegistry_def add_aliases_lookup enumerates_map_of)
    (simp add: enumerates_def add_aliases_lookup enumerates_map_of [symmetric])

text \<open>The table itself: an alias without candidates leaves no entry.\<close>

lemma NewModelRegistry_lookup:
  assumes "enumerates order (mo_Aliases cfg)"
  shows "fmlookup (mg_aliases (NewModelRegistry order)) m =
     (case fmlookup (mo_Aliases cfg) m of None \<Rightarrow> None
      | Some a \<Rightarrow> if ma_Candidates a = [] then None
                 else Some (map (candidate_of m) (ma_Candidates a)))"
proof -
  let ?t = "mg_aliases (NewModelRegistry order)"
  have d: "fmlookup ?t m \<noteq> None \<longleftrightarrow> (\<exists>a. fmlookup (mo_Aliases cfg) m = Some a \<and> ma_Candidates a \<noteq> [])"
    using enumerates_in [OF assms] add_aliases_dom [of order fmempty]
    by (simp add: NewModelRegistry_def fmlookup_dom_iff set_eq_iff)
  moreover have "fmlookup ?t m = Some v \<Longrightarrow> lookup_or [] ?t m = v" for v
    by simp
  ultimately show ?thesis
    using Candidates_New [OF assms, of m]
    by (cases "fmlookup ?t m") (auto split: option.splits)
qed

subsection \<open>Properties\<close>

text \<open>
  C34: For every model name the registry answers the configured candidates of the alias of that
  name, in the configured order: the provider, the model, the region and the properties as
  configured, the weight 100 in place of 0, the logical name asked for, healthy and without a cost.
  It answers an error exactly when the alias is absent or has no candidate.
\<close>

theorem Candidates_configured:
  assumes "enumerates order (mo_Aliases cfg)"
  shows "Candidates (NewModelRegistry order) m =
     (case fmlookup (mo_Aliases cfg) m of
        None \<Rightarrow> Inl (EText (''model '' @ Quote m @ '' not found''))
      | Some a \<Rightarrow>
          if ma_Candidates a = [] then Inl (EText (''model '' @ Quote m @ '' not found''))
          else Inr (map (\<lambda>c. \<lparr>rn_ProviderInstance = mc_Provider c, rn_ProviderModel = mc_Model c,
              rn_LogicalModel = m, rn_Weight = (if mc_Weight c = 0 then 100 else mc_Weight c),
              rn_Region = mc_Region c, rn_Healthy = True,
              rn_EstimatedCostPer1KInput = zero_float, rn_EstimatedCostPer1KOutput = zero_float,
              rn_Properties = mc_Properties c\<rparr>) (ma_Candidates a)))"
  using Candidates_New [OF assms, of m]
  by (simp add: Candidates_def Let_def candidate_of_def effective_weight_def split: option.splits)

text \<open>
  C35: The registry built from a configuration does not depend on the order in which Go iterates
  over the alias map.
\<close>

theorem NewModelRegistry_order:
  assumes "enumerates xs (mo_Aliases cfg)" and "enumerates ys (mo_Aliases cfg)"
  shows "NewModelRegistry xs = NewModelRegistry ys"
  by (intro ModelRegistry.equality fmap_ext)
    (simp_all add: NewModelRegistry_lookup [OF assms(1)] NewModelRegistry_lookup [OF assms(2)])

end
