(* ===== verification/EventQueue.thy ===== *)
theory EventQueue
  imports Config
begin

text \<open>
  The bounded event queue between the request path and the observers
  (\<open>internal/observability/queue.go\<close>): \<open>NewQueue\<close>, \<open>Enqueue\<close>, \<open>takeBatch\<close>, \<open>flush\<close>, \<open>run\<close>
  and \<open>Close\<close>. \<open>Enqueue\<close> and \<open>takeBatch\<close> hold the mutex for their whole body, so each is one
  atomic step. The slice operations of the source that can panic are partial: \<open>None\<close> is a panic.

  The first part is the operations and their contract as a locale; the second part is the flusher
  goroutine running against any number of producers, as a step relation.
\<close>

record 'e Queue =
  qu_events :: "'e list"
  qu_cap :: int
  qu_batch :: int
  qu_interval :: Duration
  qu_overflow :: string

definition NewQueue :: "int \<Rightarrow> int \<Rightarrow> Duration \<Rightarrow> string \<Rightarrow> 'e Queue" where
  "NewQueue sz batch interval overflow =
     \<lparr>qu_events = [],
      qu_cap = (if sz \<le> 0 then 10000 else sz),
      qu_batch = (if batch \<le> 0 then 100 else batch),
      qu_interval = (if interval \<le> 0 then seconds 1 else interval),
      qu_overflow = overflow\<rparr>"

text \<open>
  The overflow branch moves the events one place down with \<open>copy\<close> and overwrites the last one;
  on an empty slice \<open>q.events[1:]\<close> panics.
\<close>

definition Enqueue :: "'e \<Rightarrow> 'e Queue \<Rightarrow> (bool \<times> 'e Queue) option" where
  "Enqueue ev q =
     (let es = qu_events q
      in if qu_cap q \<le> int (length es) then
           (if qu_overflow q = ''block'' \<or> qu_overflow q = ''fail'' then Some (False, q)
            else if es = [] then None
            else Some (True, q\<lparr>qu_events := (go_copy es (drop 1 es))[length es - 1 := ev]\<rparr>))
         else Some (True, q\<lparr>qu_events := es @ [ev]\<rparr>))"

text \<open>A negative batch size would make \<open>make([]GatewayEvent, n)\<close> panic.\<close>

definition takeBatch :: "'e Queue \<Rightarrow> ('e list \<times> 'e Queue) option" where
  "takeBatch q =
     (let es = qu_events q
      in if es = [] then Some ([], q)
         else let n = min (qu_batch q) (int (length es))
              in if n < 0 then None
                 else Some (take (nat n) es, q\<lparr>qu_events := drop (nat n) es\<rparr>))"

definition queue_inv :: "'e Queue \<Rightarrow> bool" where
  "queue_inv q \<longleftrightarrow> 0 < qu_cap q \<and> 0 < qu_batch q \<and> int (length (qu_events q)) \<le> qu_cap q"

definition drops_oldest :: "'e Queue \<Rightarrow> bool" where
  "drops_oldest q \<longleftrightarrow> qu_overflow q \<noteq> ''block'' \<and> qu_overflow q \<noteq> ''fail''"

subsection \<open>Operations\<close>

lemma queue_inv_New: "queue_inv (NewQueue sz batch interval overflow)"
  by (simp add: queue_inv_def NewQueue_def)

lemma shift_last: "es \<noteq> [] \<Longrightarrow> (go_copy es (drop 1 es))[length es - 1 := ev] = tl es @ [ev]"
  using go_copy_shift [of es] by (simp add: list_update_append)

lemma Enqueue_cases:
  assumes "queue_inv q"
  obtains (room) "int (length (qu_events q)) < qu_cap q"
      "Enqueue ev q = Some (True, q\<lparr>qu_events := qu_events q @ [ev]\<rparr>)"
  | (refused) "int (length (qu_events q)) = qu_cap q" "\<not> drops_oldest q"
      "Enqueue ev q = Some (False, q)"
  | (shifted) "int (length (qu_events q)) = qu_cap q" "drops_oldest q" "qu_events q \<noteq> []"
      "Enqueue ev q = Some (True, q\<lparr>qu_events := tl (qu_events q) @ [ev]\<rparr>)"
proof (cases "int (length (qu_events q)) < qu_cap q")
  case True
  then show ?thesis by (intro room) (simp_all add: Enqueue_def Let_def)
next
  case False
  with assms have full: "int (length (qu_events q)) = qu_cap q" and ne: "qu_events q \<noteq> []"
    by (auto simp: queue_inv_def)
  show ?thesis
  proof (cases "drops_oldest q")
    case True
    with full ne shift_last [OF ne] show ?thesis
      by (intro shifted) (simp_all add: Enqueue_def Let_def drops_oldest_def)
  next
    case d: False
    with full show ?thesis
      by (intro refused) (auto simp: Enqueue_def Let_def drops_oldest_def)
  qed
qed

lemma takeBatch_cases:
  assumes "queue_inv q"
  obtains (empty) "qu_events q = []" "takeBatch q = Some ([], q)"
  | (some) n where "0 < n" "n \<le> length (qu_events q)" "int n \<le> qu_batch q"
      "n = length (qu_events q) \<or> int n = qu_batch q"
      "takeBatch q = Some (take n (qu_events q), q\<lparr>qu_events := drop n (qu_events q)\<rparr>)"
proof (cases "qu_events q = []")
  case True
  then show ?thesis by (intro empty) (simp_all add: takeBatch_def)
next
  case False
  let ?n = "nat (min (qu_batch q) (int (length (qu_events q))))"
  from False assms show ?thesis
    by (intro some [of ?n]) (auto simp: takeBatch_def Let_def queue_inv_def min_def)
qed

lemma Enqueue_inv: "queue_inv q \<Longrightarrow> Enqueue ev q = Some (b, q') \<Longrightarrow> queue_inv q'"
  by (rule Enqueue_cases [of q ev], assumption) (auto simp: queue_inv_def)

lemma Enqueue_frame:
  "Enqueue ev q = Some (b, q') \<Longrightarrow> qu_cap q' = qu_cap q \<and> qu_batch q' = qu_batch q \<and>
     qu_overflow q' = qu_overflow q"
  by (auto simp: Enqueue_def Let_def split: if_splits)

lemma takeBatch_frame:
  "takeBatch q = Some (b, q') \<Longrightarrow> qu_cap q' = qu_cap q \<and> qu_batch q' = qu_batch q \<and>
     qu_overflow q' = qu_overflow q"
  by (auto simp: takeBatch_def Let_def split: if_splits)

lemma takeBatch_inv: "queue_inv q \<Longrightarrow> takeBatch q = Some (b, q') \<Longrightarrow> queue_inv q'"
  using takeBatch_frame [of q b q']
  by (auto simp: queue_inv_def takeBatch_def Let_def split: if_splits)

subsection \<open>The contract of an event buffer\<close>

text \<open>
  \<open>accounted accepted taken held\<close>: what was accepted is some prefix followed by what is held,
  and what was taken is a subsequence of that prefix. So the held events are the newest accepted
  ones, in order, and every event is taken at most once, in order.
\<close>

definition accounted :: "'e list \<Rightarrow> 'e list \<Rightarrow> 'e list \<Rightarrow> bool" where
  "accounted accepted taken held \<longleftrightarrow> (\<exists>pre. accepted = pre @ held \<and> subseq taken pre)"

lemma accounted_Nil: "accounted [] [] []"
  by (simp add: accounted_def)

lemma accounted_subseq: "accounted accepted taken held \<Longrightarrow> subseq (taken @ held) accepted"
  by (auto simp: accounted_def intro: list_emb_append_mono)

locale event_buffer =
  fixes contents :: "'q \<Rightarrow> 'e list"
    and enq :: "'e \<Rightarrow> 'q \<Rightarrow> (bool \<times> 'q) option"
    and tak :: "'q \<Rightarrow> ('e list \<times> 'q) option"
    and invar :: "'q \<Rightarrow> bool"
  assumes enq_total: "invar q \<Longrightarrow> enq e q \<noteq> None"
    and enq_invar: "invar q \<Longrightarrow> enq e q = Some (b, q') \<Longrightarrow> invar q'"
    and enq_accepted: "invar q \<Longrightarrow> enq e q = Some (True, q') \<Longrightarrow>
          \<exists>k. contents q' = drop k (contents q) @ [e]"
    and enq_refused: "invar q \<Longrightarrow> enq e q = Some (False, q') \<Longrightarrow> contents q' = contents q"
    and tak_total: "invar q \<Longrightarrow> tak q \<noteq> None"
    and tak_invar: "invar q \<Longrightarrow> tak q = Some (xs, q') \<Longrightarrow> invar q'"
    and tak_split: "invar q \<Longrightarrow> tak q = Some (xs, q') \<Longrightarrow> contents q = xs @ contents q'"
    and tak_progress: "invar q \<Longrightarrow> tak q = Some ([], q') \<Longrightarrow> contents q = []"
begin

lemma accounted_enq:
  assumes "invar q" and "enq e q = Some (b, q')" and "accounted accepted taken (contents q)"
  shows "accounted (accepted @ (if b then [e] else [])) taken (contents q')"
proof (cases b)
  case True
  with assms(2) have "enq e q = Some (True, q')" by simp
  then obtain k where k: "contents q' = drop k (contents q) @ [e]"
    using enq_accepted [OF assms(1)] by blast
  from assms(3) obtain pre where pre: "accepted = pre @ contents q" "subseq taken pre"
    by (auto simp: accounted_def)
  have "accepted @ [e] = (pre @ take k (contents q)) @ contents q'"
    by (simp add: k pre)
  moreover have "subseq taken (pre @ take k (contents q))"
    using list_emb_append_mono [OF pre(2), of "[]" "take k (contents q)"] by simp
  ultimately show ?thesis using True by (auto simp: accounted_def)
next
  case False
  with assms show ?thesis using enq_refused by simp
qed

lemma accounted_tak:
  assumes "invar q" and "tak q = Some (xs, q')" and "accounted accepted taken (contents q)"
  shows "accounted accepted (taken @ xs) (contents q')"
proof -
  from assms(3) obtain pre where "accepted = pre @ contents q" "subseq taken pre"
    by (auto simp: accounted_def)
  then have "accepted = (pre @ xs) @ contents q'" and "subseq (taken @ xs) (pre @ xs)"
    using tak_split [OF assms(1,2)] by (auto intro: list_emb_append_mono)
  then show ?thesis unfolding accounted_def by blast
qed

lemma tak_shrinks:
  "invar q \<Longrightarrow> tak q = Some (xs, q') \<Longrightarrow> xs \<noteq> [] \<Longrightarrow> length (contents q') < length (contents q)"
  using tak_split by fastforce

end

text \<open>A buffer that never evicts: what was accepted is what was taken, then what is held.\<close>

locale lossless_buffer = event_buffer +
  assumes enq_keeps: "invar q \<Longrightarrow> enq e q = Some (True, q') \<Longrightarrow> contents q' = contents q @ [e]"
begin

lemma conserved_enq:
  "invar q \<Longrightarrow> enq e q = Some (b, q') \<Longrightarrow> accepted = taken @ contents q \<Longrightarrow>
     accepted @ (if b then [e] else []) = taken @ contents q'"
  by (cases b) (auto dest: enq_keeps enq_refused)

lemma conserved_tak:
  "invar q \<Longrightarrow> tak q = Some (xs, q') \<Longrightarrow> accepted = taken @ contents q \<Longrightarrow>
     accepted = (taken @ xs) @ contents q'"
  using tak_split by fastforce

end

interpretation event_queue: event_buffer qu_events Enqueue takeBatch queue_inv
proof
  fix q :: "'a Queue" and e b q' xs
  assume inv: "queue_inv q"
  show "Enqueue e q \<noteq> None"
    using inv by (rule Enqueue_cases [of q e]) simp_all
  show "Enqueue e q = Some (b, q') \<Longrightarrow> queue_inv q'"
    using inv by (rule Enqueue_inv)
  show "Enqueue e q = Some (True, q') \<Longrightarrow> \<exists>k. qu_events q' = drop k (qu_events q) @ [e]"
    using inv by (rule Enqueue_cases [of q e]) (auto intro: exI [of _ 0] exI [of _ 1] simp: drop_Suc)
  show "Enqueue e q = Some (False, q') \<Longrightarrow> qu_events q' = qu_events q"
    using inv by (rule Enqueue_cases [of q e]) auto
  show "takeBatch q \<noteq> None"
    using inv by (rule takeBatch_cases) simp_all
  show "takeBatch q = Some (xs, q') \<Longrightarrow> queue_inv q'"
    using inv by (rule takeBatch_inv)
  show "takeBatch q = Some (xs, q') \<Longrightarrow> qu_events q = xs @ qu_events q'"
    using inv by (rule takeBatch_cases) auto
  show "takeBatch q = Some ([], q') \<Longrightarrow> qu_events q = []"
    using inv by (rule takeBatch_cases) auto
qed

interpretation refusing_queue: lossless_buffer qu_events Enqueue takeBatch
  "\<lambda>q. queue_inv q \<and> \<not> drops_oldest q"
proof unfold_locales
  fix q :: "'a Queue" and e b q' xs
  assume inv: "queue_inv q \<and> \<not> drops_oldest q"
  show "Enqueue e q \<noteq> None" and "takeBatch q \<noteq> None"
    using inv event_queue.enq_total [of q e] event_queue.tak_total [of q] by simp_all
  show "Enqueue e q = Some (b, q') \<Longrightarrow> queue_inv q' \<and> \<not> drops_oldest q'"
    using inv Enqueue_inv Enqueue_frame [of e q b q'] by (auto simp: drops_oldest_def)
  show "takeBatch q = Some (xs, q') \<Longrightarrow> queue_inv q' \<and> \<not> drops_oldest q'"
    using inv takeBatch_inv takeBatch_frame [of q xs q'] by (auto simp: drops_oldest_def)
  show "Enqueue e q = Some (True, q') \<Longrightarrow> qu_events q' = qu_events q @ [e]"
    by (rule Enqueue_cases [of q e]) (use inv in auto)
qed (auto dest: event_queue.enq_accepted
      event_queue.enq_refused event_queue.tak_split event_queue.tak_progress)

subsection \<open>Flushing\<close>

text \<open>
  One batch goes to every observer in turn; an error is logged and the next observer is called.
  \<open>flush\<close> repeats until a batch comes back empty. This is the loop when no producer interferes;
  the interleaved version is the step relation below.
\<close>

fun deliver :: "('w, 'e list, unit) answering list \<Rightarrow> 'e list \<Rightarrow> 'w \<Rightarrow> 'w" where
  "deliver [] xs w = w"
| "deliver (emit # rest) xs w = deliver rest xs (snd (emit xs w))"

function flush :: "('w, 'e list, unit) answering list \<Rightarrow> 'e Queue \<Rightarrow> 'w \<Rightarrow> ('e Queue \<times> 'w) option" where
  "flush obs q w =
     (case takeBatch q of
        None \<Rightarrow> None
      | Some (xs, q') \<Rightarrow> if xs = [] then Some (q', w) else flush obs q' (deliver obs xs w))"
  by pat_completeness auto
termination
  by (relation "measure (\<lambda>(obs, q, w). length (qu_events q))")
    (auto simp: takeBatch_def Let_def split: if_splits)

declare flush.simps [simp del]

text \<open>The batches a flush delivers from a list of events: pieces of the batch size.\<close>

function batches :: "nat \<Rightarrow> 'e list \<Rightarrow> 'e list list" where
  "batches n xs = (if n = 0 \<or> xs = [] then [] else take n xs # batches n (drop n xs))"
  by pat_completeness auto
termination
  by (relation "measure (\<lambda>(n, xs). length xs)") auto

declare batches.simps [simp del]

lemma batches_Nil [simp]: "batches n [] = []"
  by (simp add: batches.simps [of n])

lemma concat_batches: "0 < n \<Longrightarrow> concat (batches n xs) = xs"
proof (induction n xs rule: batches.induct)
  case (1 n xs)
  then show ?case by (cases "xs = []") (simp_all add: batches.simps [of n xs])
qed

lemma batches_sizes: "ys \<in> set (batches n xs) \<Longrightarrow> ys \<noteq> [] \<and> length ys \<le> n"
proof (induction n xs rule: batches.induct)
  case (1 n xs)
  then show ?case by (cases "n = 0 \<or> xs = []") (auto simp: batches.simps [of n xs])
qed

lemma flush_eq:
  "queue_inv q \<Longrightarrow>
     flush obs q w =
       Some (q\<lparr>qu_events := []\<rparr>, fold (deliver obs) (batches (nat (qu_batch q)) (qu_events q)) w)"
proof (induction obs q w rule: flush.induct)
  case (1 obs q w)
  note inv = \<open>queue_inv q\<close>
  from inv have pos: "0 < nat (qu_batch q)" by (simp add: queue_inv_def)
  show ?case
  proof (cases "qu_events q = []")
    case True
    then have "takeBatch q = Some ([], q)" by (simp add: takeBatch_def)
    with True show ?thesis
      by (simp add: flush.simps [of obs q w])
  next
    case False
    let ?n = "nat (qu_batch q)"
    let ?q = "q\<lparr>qu_events := drop ?n (qu_events q)\<rparr>"
    have tk: "takeBatch q = Some (take ?n (qu_events q), ?q)"
      using inv False by (auto simp: takeBatch_def Let_def min_def queue_inv_def)
    have ne: "take ?n (qu_events q) \<noteq> []" using pos False by simp
    have "queue_inv ?q" using inv tk by (rule takeBatch_inv)
    with 1(1) [OF tk refl ne]
    show ?thesis using pos False tk
      by (simp add: flush.simps [of obs q w] batches.simps [of ?n "qu_events q"])
  qed
qed

subsection \<open>The flusher against concurrent producers\<close>

text \<open>
  The goroutine started by \<open>NewQueue\<close> waits for a tick or for \<open>Close\<close>, then takes and delivers
  batches until one is empty. \<open>fin\<close> says that it is the last flush, after which it stops. Each
  rule is one atomic step; producers may enqueue between any two of them, also after the close.
  \<open>sy_accepted\<close> and \<open>sy_delivered\<close> record the history.
\<close>

datatype 'e flusher =
    Waiting
  | Flushing (fin: bool)
  | Delivering (fin: bool) (in_flight: "'e list")
  | Stopped

record 'e qsys =
  sy_queue :: "'e Queue"
  sy_flusher :: "'e flusher"
  sy_closed :: bool
  sy_accepted :: "'e list"
  sy_delivered :: "'e list list"

definition init_sys :: "'e Queue \<Rightarrow> 'e qsys" where
  "init_sys q = \<lparr>sy_queue = q, sy_flusher = Waiting, sy_closed = False, sy_accepted = [],
     sy_delivered = []\<rparr>"

fun held_by :: "'e flusher \<Rightarrow> 'e list" where
  "held_by (Delivering f xs) = xs"
| "held_by _ = []"

inductive qstep :: "'e qsys \<Rightarrow> 'e qsys \<Rightarrow> bool" where
  produce: "Enqueue ev (sy_queue s) = Some (ok, q) \<Longrightarrow>
    qstep s (s\<lparr>sy_queue := q, sy_accepted := sy_accepted s @ (if ok then [ev] else [])\<rparr>)"
| tick: "sy_flusher s = Waiting \<Longrightarrow> qstep s (s\<lparr>sy_flusher := Flushing False\<rparr>)"
| close: "\<not> sy_closed s \<Longrightarrow> qstep s (s\<lparr>sy_closed := True\<rparr>)"
| see_close: "sy_flusher s = Waiting \<Longrightarrow> sy_closed s \<Longrightarrow>
    qstep s (s\<lparr>sy_flusher := Flushing True\<rparr>)"
| take_some: "sy_flusher s = Flushing f \<Longrightarrow> takeBatch (sy_queue s) = Some (xs, q) \<Longrightarrow> xs \<noteq> [] \<Longrightarrow>
    qstep s (s\<lparr>sy_queue := q, sy_flusher := Delivering f xs\<rparr>)"
| take_none: "sy_flusher s = Flushing f \<Longrightarrow> takeBatch (sy_queue s) = Some ([], q) \<Longrightarrow>
    qstep s (s\<lparr>sy_queue := q, sy_flusher := (if f then Stopped else Waiting)\<rparr>)"
| deliver_batch: "sy_flusher s = Delivering f xs \<Longrightarrow>
    qstep s (s\<lparr>sy_flusher := Flushing f, sy_delivered := sy_delivered s @ [xs]\<rparr>)"

inductive qreach :: "'e Queue \<Rightarrow> 'e qsys \<Rightarrow> bool" for q0 where
  start: "qreach q0 (init_sys q0)"
| step: "qreach q0 s \<Longrightarrow> qstep s t \<Longrightarrow> qreach q0 t"

inductive_cases qstep_elim: "qstep s t"

definition taken :: "'e qsys \<Rightarrow> 'e list" where
  "taken s = concat (sy_delivered s) @ held_by (sy_flusher s)"

definition final_flush :: "'e flusher \<Rightarrow> bool" where
  "final_flush f \<longleftrightarrow> f = Stopped \<or> f = Flushing True \<or> (\<exists>xs. f = Delivering True xs)"

definition sys_inv :: "'e Queue \<Rightarrow> 'e qsys \<Rightarrow> bool" where
  "sys_inv q0 s \<longleftrightarrow>
     queue_inv (sy_queue s) \<and>
     qu_cap (sy_queue s) = qu_cap q0 \<and> qu_batch (sy_queue s) = qu_batch q0 \<and>
     qu_overflow (sy_queue s) = qu_overflow q0 \<and>
     accounted (sy_accepted s) (taken s) (qu_events (sy_queue s)) \<and>
     (\<not> drops_oldest q0 \<longrightarrow> sy_accepted s = taken s @ qu_events (sy_queue s)) \<and>
     (\<forall>xs \<in> set (sy_delivered s). xs \<noteq> [] \<and> int (length xs) \<le> qu_batch q0) \<and>
     (\<forall>f xs. sy_flusher s = Delivering f xs \<longrightarrow> xs \<noteq> [] \<and> int (length xs) \<le> qu_batch q0) \<and>
     (final_flush (sy_flusher s) \<longrightarrow> sy_closed s)"

lemma sys_inv_init: "queue_inv q0 \<Longrightarrow> qu_events q0 = [] \<Longrightarrow> sys_inv q0 (init_sys q0)"
  by (simp add: sys_inv_def init_sys_def taken_def accounted_Nil final_flush_def)

lemma sys_inv_produce:
  assumes "sys_inv q0 s" and enq: "Enqueue ev (sy_queue s) = Some (ok, q)"
  shows "sys_inv q0 (s\<lparr>sy_queue := q, sy_accepted := sy_accepted s @ (if ok then [ev] else [])\<rparr>)"
proof -
  from assms(1) have inv: "queue_inv (sy_queue s)" by (simp add: sys_inv_def)
  note frame = Enqueue_frame [OF enq]
  have "accounted (sy_accepted s @ (if ok then [ev] else [])) (taken s) (qu_events q)"
    by (rule event_queue.accounted_enq [OF inv enq]) (use assms(1) in \<open>simp add: sys_inv_def\<close>)
  moreover have "sy_accepted s @ (if ok then [ev] else []) = taken s @ qu_events q"
    if "\<not> drops_oldest q0"
    by (rule refusing_queue.conserved_enq [OF _ enq])
      (use assms(1) that in \<open>auto simp: sys_inv_def drops_oldest_def\<close>)
  ultimately show ?thesis
    using assms(1) frame Enqueue_inv [OF inv enq] by (simp add: sys_inv_def taken_def)
qed

lemma sys_inv_take_some:
  assumes "sys_inv q0 s" and fl: "sy_flusher s = Flushing f"
    and tk: "takeBatch (sy_queue s) = Some (xs, q)" and ne: "xs \<noteq> []"
  shows "sys_inv q0 (s\<lparr>sy_queue := q, sy_flusher := Delivering f xs\<rparr>)"
proof -
  from assms(1) have inv: "queue_inv (sy_queue s)" by (simp add: sys_inv_def)
  note frame = takeBatch_frame [OF tk]
  have t: "taken s = concat (sy_delivered s)" by (simp add: taken_def fl)
  have "int (length xs) \<le> qu_batch (sy_queue s)"
    by (rule takeBatch_cases [OF inv]) (use tk ne in auto)
  moreover have "accounted (sy_accepted s) (taken s @ xs) (qu_events q)"
    by (rule event_queue.accounted_tak [OF inv tk]) (use assms(1) in \<open>simp add: sys_inv_def\<close>)
  moreover have "sy_accepted s = (taken s @ xs) @ qu_events q" if "\<not> drops_oldest q0"
    by (rule refusing_queue.conserved_tak [OF _ tk])
      (use assms(1) that in \<open>auto simp: sys_inv_def drops_oldest_def\<close>)
  ultimately show ?thesis
    using assms(1) ne frame takeBatch_inv [OF inv tk] fl
    by (simp add: sys_inv_def taken_def final_flush_def)
qed

lemma sys_inv_take_none:
  assumes "sys_inv q0 s" and fl: "sy_flusher s = Flushing f"
    and tk: "takeBatch (sy_queue s) = Some ([], q)"
  shows "sys_inv q0 (s\<lparr>sy_queue := q, sy_flusher := (if f then Stopped else Waiting)\<rparr>)"
proof -
  from assms(1) have inv: "queue_inv (sy_queue s)" by (simp add: sys_inv_def)
  have "q = sy_queue s" by (rule takeBatch_cases [OF inv]) (use tk in auto)
  then show ?thesis
    using assms(1) fl by (simp add: sys_inv_def taken_def final_flush_def)
qed

lemma qstep_inv: "qstep s t \<Longrightarrow> sys_inv q0 s \<Longrightarrow> sys_inv q0 t"
proof (induction rule: qstep.induct)
  case (deliver_batch s f xs)
  then show ?case by (auto simp: sys_inv_def taken_def final_flush_def)
qed (simp_all add: sys_inv_produce sys_inv_take_some sys_inv_take_none,
     auto simp: sys_inv_def taken_def final_flush_def)

lemma qreach_inv:
  assumes "queue_inv q0" and "qu_events q0 = []"
  shows "qreach q0 s \<Longrightarrow> sys_inv q0 s"
proof (induction rule: qreach.induct)
  case start
  show ?case using assms by (rule sys_inv_init)
next
  case (step s t)
  then show ?case by (blast intro: qstep_inv)
qed

lemma qreach_New: "qreach (NewQueue sz bt iv ov) s \<Longrightarrow> sys_inv (NewQueue sz bt iv ov) s"
  by (rule qreach_inv [OF queue_inv_New]) (simp_all add: NewQueue_def)

text \<open>
  Left alone after the close, the flusher drains the queue and stops: from a flushing state with
  \<open>n\<close> events queued there is a run that delivers them all.
\<close>

lemma drain:
  assumes "queue_inv (sy_queue s)" and "sy_flusher s = Flushing f"
  shows "\<exists>t. qstep\<^sup>*\<^sup>* s t \<and> sy_flusher t = (if f then Stopped else Waiting) \<and>
     qu_events (sy_queue t) = [] \<and> sy_accepted t = sy_accepted s \<and> sy_closed t = sy_closed s \<and>
     concat (sy_delivered t) = concat (sy_delivered s) @ qu_events (sy_queue s)"
  using assms
proof (induction "length (qu_events (sy_queue s))" arbitrary: s rule: less_induct)
  case less
  note inv = less.prems(1) and fl = less.prems(2)
  obtain xs q where tk: "takeBatch (sy_queue s) = Some (xs, q)"
    using event_queue.tak_total [OF inv] by auto
  show ?case
  proof (cases "xs = []")
    case True
    with tk have none: "takeBatch (sy_queue s) = Some ([], q)" by simp
    have q: "q = sy_queue s" by (rule takeBatch_cases [OF inv]) (use none in auto)
    let ?t = "s\<lparr>sy_queue := q, sy_flusher := (if f then Stopped else Waiting)\<rparr>"
    have "qstep\<^sup>*\<^sup>* s ?t" using qstep.take_none [OF fl none] by (rule r_into_rtranclp)
    then show ?thesis
      using q event_queue.tak_progress [OF inv none] by (intro exI [of _ ?t]) simp
  next
    case ne: False
    let ?m = "s\<lparr>sy_queue := q, sy_flusher := Delivering f xs\<rparr>"
    let ?u = "?m\<lparr>sy_flusher := Flushing f, sy_delivered := sy_delivered s @ [xs]\<rparr>"
    have s1: "qstep s ?m" using fl tk ne by (rule qstep.take_some)
    have s2: "qstep ?m ?u" using qstep.deliver_batch [of ?m f xs] by simp
    have "length (qu_events (sy_queue ?u)) < length (qu_events (sy_queue s))"
      using event_queue.tak_shrinks [OF inv tk ne] by simp
    moreover have "queue_inv (sy_queue ?u)" using takeBatch_inv [OF inv tk] by simp
    ultimately obtain t where "qstep\<^sup>*\<^sup>* ?u t" and t: "sy_flusher t = (if f then Stopped else Waiting)"
      "qu_events (sy_queue t) = []" "sy_accepted t = sy_accepted s" "sy_closed t = sy_closed s"
      "concat (sy_delivered t) = (concat (sy_delivered s) @ xs) @ qu_events q"
      using less.hyps [of ?u] by auto
    moreover have "qstep\<^sup>*\<^sup>* s t"
      using s1 s2 \<open>qstep\<^sup>*\<^sup>* ?u t\<close> by (meson converse_rtranclp_into_rtranclp)
    ultimately show ?thesis using event_queue.tak_split [OF inv tk] by auto
  qed
qed

text \<open>Enqueuing a list of events one after the other.\<close>

fun enqueue_all :: "'e list \<Rightarrow> 'e Queue \<Rightarrow> 'e Queue option" where
  "enqueue_all [] q = Some q"
| "enqueue_all (e # es) q =
     (case Enqueue e q of None \<Rightarrow> None | Some (ok, q') \<Rightarrow> enqueue_all es q')"

lemma enqueue_all_newest:
  assumes "queue_inv q" and "drops_oldest q"
  shows "enqueue_all es q = Some (q\<lparr>qu_events :=
     drop (length (qu_events q) + length es - nat (qu_cap q)) (qu_events q @ es)\<rparr>)"
  using assms
proof (induction es arbitrary: q)
  case Nil
  then have "length (qu_events q) - nat (qu_cap q) = 0"
    by (auto simp: queue_inv_def)
  then show ?case by simp
next
  case (Cons e es)
  note inv = Cons.prems(1)
  show ?case
  proof (rule Enqueue_cases [OF inv, of e])
    assume room: "int (length (qu_events q)) < qu_cap q"
      and enq: "Enqueue e q = Some (True, q\<lparr>qu_events := qu_events q @ [e]\<rparr>)"
    have "drops_oldest (q\<lparr>qu_events := qu_events q @ [e]\<rparr>)"
      using Cons.prems(2) by (simp add: drops_oldest_def)
    with Cons.IH [OF Enqueue_inv [OF inv enq]] enq show ?thesis by simp
  next
    assume "\<not> drops_oldest q"
    with Cons.prems(2) show ?thesis by simp
  next
    assume full: "int (length (qu_events q)) = qu_cap q" and ne: "qu_events q \<noteq> []"
      and enq: "Enqueue e q = Some (True, q\<lparr>qu_events := tl (qu_events q) @ [e]\<rparr>)"
    have "drops_oldest (q\<lparr>qu_events := tl (qu_events q) @ [e]\<rparr>)"
      using Cons.prems(2) by (simp add: drops_oldest_def)
    moreover have "nat (qu_cap q) = length (qu_events q)" using full by simp
    ultimately show ?thesis
      using Cons.IH [OF Enqueue_inv [OF inv enq]] enq ne
      by (cases "qu_events q") simp_all
  qed
qed

subsection \<open>Properties\<close>

text \<open>
  C28: In every state the flusher and any producers can reach together, the queue holds at most
  its capacity and neither \<open>Enqueue\<close> nor \<open>takeBatch\<close> panics.
\<close>

theorem queue_bounded_no_panic:
  assumes "qreach (NewQueue sz batch interval overflow) s"
  shows "int (length (qu_events (sy_queue s))) \<le> (if sz \<le> 0 then 10000 else sz) \<and>
     Enqueue ev (sy_queue s) \<noteq> None \<and> takeBatch (sy_queue s) \<noteq> None"
proof -
  have inv: "queue_inv (sy_queue s)" and "qu_cap (sy_queue s) = (if sz \<le> 0 then 10000 else sz)"
    using qreach_New [OF assms] by (simp_all add: sys_inv_def NewQueue_def)
  then show ?thesis
    using event_queue.enq_total [OF inv] event_queue.tak_total [OF inv]
    by (auto simp: queue_inv_def)
qed

text \<open>
  C27: Under any interleaving, the events given to the observers so far, followed by those still
  queued, are a subsequence of the accepted events: nothing is delivered twice, out of order, or
  without having been accepted, and what is queued is the newest part of what was accepted.
\<close>

theorem delivery_in_order_at_most_once:
  assumes "qreach (NewQueue sz batch interval overflow) s"
  shows "subseq (taken s @ qu_events (sy_queue s)) (sy_accepted s) \<and>
     suffix (qu_events (sy_queue s)) (sy_accepted s)"
proof -
  have "accounted (sy_accepted s) (taken s) (qu_events (sy_queue s))"
    using qreach_New [OF assms] by (simp add: sys_inv_def)
  then show ?thesis by (auto simp: accounted_subseq) (auto simp: accounted_def suffix_def)
qed

text \<open>
  C29: With the overflow policy \<open>block\<close> or \<open>fail\<close> no accepted event is ever lost: under any
  interleaving the accepted events are exactly the delivered ones followed by the queued ones.
\<close>

theorem refusing_queue_lossless:
  assumes "qreach (NewQueue sz batch interval overflow) s" and "overflow \<in> {''block'', ''fail''}"
  shows "sy_accepted s = taken s @ qu_events (sy_queue s)"
  using qreach_New [OF assms(1)] assms(2) by (auto simp: sys_inv_def drops_oldest_def NewQueue_def)

text \<open>
  C30: With any other policy (\<open>drop_oldest\<close> is the default) a burst of events never fails, and
  leaves the queue holding exactly the newest events that fit, in order.
\<close>

theorem drop_oldest_keeps_newest:
  assumes "queue_inv q" and "overflow = qu_overflow q" and "overflow \<notin> {''block'', ''fail''}"
  shows "enqueue_all es q = Some (q\<lparr>qu_events :=
     drop (length (qu_events q @ es) - nat (qu_cap q)) (qu_events q @ es)\<rparr>)"
  using enqueue_all_newest [OF assms(1)] assms(2,3) by (simp add: drops_oldest_def)


text \<open>
  C32: The shutdown flush can always complete: from any reachable state in which the queue is
  closed and the flusher is waiting, it reaches its end having delivered every event still queued.
\<close>

theorem close_flushes_everything:
  assumes "qreach (NewQueue sz batch interval overflow) s"
    and "sy_closed s" and "sy_flusher s = Waiting"
  shows "\<exists>t. qstep\<^sup>*\<^sup>* s t \<and> sy_flusher t = Stopped \<and> qu_events (sy_queue t) = [] \<and>
     concat (sy_delivered t) = concat (sy_delivered s) @ qu_events (sy_queue s)"
proof -
  let ?s = "s\<lparr>sy_flusher := Flushing True\<rparr>"
  have "queue_inv (sy_queue ?s)" using qreach_New [OF assms(1)] by (simp add: sys_inv_def)
  then obtain t where t: "qstep\<^sup>*\<^sup>* ?s t" "sy_flusher t = Stopped" "qu_events (sy_queue t) = []"
    "concat (sy_delivered t) = concat (sy_delivered s) @ qu_events (sy_queue s)"
    using drain [of ?s True] by auto
  have "qstep s ?s" using assms(3,2) by (rule qstep.see_close)
  with t show ?thesis by (meson converse_rtranclp_into_rtranclp)
qed

subsection \<open>Witnesses\<close>

lemma reach_example:
  "qreach (NewQueue 2 1 0 ov)
     (init_sys (NewQueue 2 1 0 ov)\<lparr>sy_queue := (NewQueue 2 1 0 ov)\<lparr>qu_events := [7::nat]\<rparr>,
       sy_accepted := [7], sy_closed := True\<rparr>)"
proof -
  let ?q = "NewQueue 2 1 0 ov :: nat Queue"
  have "Enqueue 7 ?q = Some (True, ?q\<lparr>qu_events := [7]\<rparr>)"
    by (simp add: Enqueue_def NewQueue_def)
  from qstep.produce [of 7 "init_sys ?q" True "?q\<lparr>qu_events := [7]\<rparr>"] this
  have "qstep (init_sys ?q) (init_sys ?q\<lparr>sy_queue := ?q\<lparr>qu_events := [7]\<rparr>, sy_accepted := [7]\<rparr>)"
    by (simp add: init_sys_def)
  from qreach.step [OF qreach.start this]
    qstep.close [of "init_sys ?q\<lparr>sy_queue := ?q\<lparr>qu_events := [7]\<rparr>, sy_accepted := [7]\<rparr>"]
  show ?thesis by (auto simp: init_sys_def intro: qreach.step)
qed

lemma queue_bounded_no_panic_witness:
  "Enqueue 8 (NewQueue 2 1 0 ''fail''\<lparr>qu_events := [7::nat]\<rparr>) \<noteq> None"
  using queue_bounded_no_panic [OF reach_example, of "''fail''" 8] by simp

lemma delivery_in_order_at_most_once_witness: "suffix [7::nat] [7]"
  using delivery_in_order_at_most_once [OF reach_example, of "''drop_oldest''"] by simp

lemma refusing_queue_lossless_witness:
  "[7::nat] = taken (init_sys (NewQueue 2 1 0 ''fail'')) @ [7]"
  using refusing_queue_lossless [OF reach_example, of "''fail''"]
  by (simp add: taken_def init_sys_def)

lemma drop_oldest_keeps_newest_witness:
  "enqueue_all [1, 2, 3::nat] (NewQueue 2 1 0 ''drop_oldest'') =
     Some (NewQueue 2 1 0 ''drop_oldest''\<lparr>qu_events := [2, 3::nat]\<rparr>)"
  using drop_oldest_keeps_newest [OF queue_inv_New refl, of 2 1 0 "''drop_oldest''"
      "[1, 2, 3::nat]"]
  by (simp add: NewQueue_def)


lemma close_flushes_everything_witness:
  "\<exists>t :: nat qsys. sy_flusher t = Stopped \<and> concat (sy_delivered t) = [7]"
  using close_flushes_everything [OF reach_example, of "''fail''"]
  by (simp add: init_sys_def) blast

end
