(* ===== verification/PipelineCompile.thy ===== *)
theory PipelineCompile
  imports PluginRegistry ModelRegistry EventQueue
begin

text \<open>
  Compilation of the configuration into a pipeline (\<open>Compile\<close> of
  \<open>internal/pipeline/pipeline.go\<close>): required capabilities that are not there are collected in
  \<open>missing\<close> and make the pipeline not ready; an optional capability that is named but not
  registered is an error. The event queue the pipeline starts with is a field, as is the list of
  observers its flusher calls.
\<close>

type_synonym props_ref = nat

record 'w Pipeline =
  pp_cfg :: Config
  pp_registry :: "'w Registry"
  pp_models :: ModelRegistry
  pp_authn :: "'w Authenticator option"
  pp_authz :: "'w Authorizer option"
  pp_ratelimit :: "'w RateLimiter option"
  pp_router :: "'w Router option"
  pp_cache :: "'w CacheProvider option"
  pp_prompt :: "'w PromptProvider option"
  pp_cost :: "'w CostProvider option"
  pp_upstreams :: "(string, 'w UpstreamProvider) fmap"
  pp_blockingObservers :: "'w Observer list"
  pp_events :: "props_ref GatewayEvent Queue"
  pp_queue_observers :: "'w Observer list"
  pp_ready :: bool
  pp_missing :: "CapabilityType list"

definition add_missing :: "CapabilityType \<Rightarrow> 'w Pipeline \<Rightarrow> 'w Pipeline" where
  "add_missing c p = p\<lparr>pp_missing := pp_missing p @ [c]\<rparr>"

text \<open>
  A required capability: missing when not named or not found, set otherwise. An optional one:
  left unset when not named, an error when named and not found.
\<close>

definition required ::
  "CapabilityType \<Rightarrow> (string \<Rightarrow> goerr + 'v) \<Rightarrow> ('v \<Rightarrow> 'w Pipeline \<Rightarrow> 'w Pipeline) \<Rightarrow> string
     \<Rightarrow> 'w Pipeline \<Rightarrow> 'w Pipeline" where
  "required cap look put name p =
     (if name = [] then add_missing cap p
      else case look name of Inl e \<Rightarrow> add_missing cap p | Inr v \<Rightarrow> put v p)"

definition optional ::
  "(string \<Rightarrow> goerr + 'v) \<Rightarrow> ('v \<Rightarrow> 'w Pipeline \<Rightarrow> 'w Pipeline) \<Rightarrow> string \<Rightarrow> 'w Pipeline
     \<Rightarrow> goerr + 'w Pipeline" where
  "optional look put name p =
     (if name = [] then Inr p
      else case look name of Inl e \<Rightarrow> Inl e | Inr v \<Rightarrow> Inr (put v p))"

fun compile_upstreams :: "(string \<Rightarrow> goerr + 'w UpstreamProvider) \<Rightarrow> string list \<Rightarrow> 'w Pipeline
    \<Rightarrow> goerr + 'w Pipeline" where
  "compile_upstreams look [] p = Inr p"
| "compile_upstreams look (name # names) p =
     (case look name of
        Inl e \<Rightarrow> Inl e
      | Inr v \<Rightarrow> compile_upstreams look names (p\<lparr>pp_upstreams := fmupd name v (pp_upstreams p)\<rparr>))"

fun find_all :: "(string \<Rightarrow> goerr + 'v) \<Rightarrow> string list \<Rightarrow> 'v list \<Rightarrow> goerr + 'v list" where
  "find_all look [] acc = Inr acc"
| "find_all look (name # names) acc =
     (case look name of Inl e \<Rightarrow> Inl e | Inr v \<Rightarrow> find_all look names (acc @ [v]))"

definition new_pipeline :: "Config \<Rightarrow> 'w Registry \<Rightarrow> ModelRegistry \<Rightarrow> 'w Pipeline" where
  "new_pipeline cfg reg mr =
     \<lparr>pp_cfg = cfg, pp_registry = reg, pp_models = mr, pp_authn = None, pp_authz = None,
      pp_ratelimit = None, pp_router = None, pp_cache = None, pp_prompt = None, pp_cost = None,
      pp_upstreams = fmempty, pp_blockingObservers = [],
      pp_events = NewQueue 0 0 0 [], pp_queue_observers = [], pp_ready = False, pp_missing = []\<rparr>"

definition config_queue :: "ObservabilityConfig \<Rightarrow> 'e Queue" where
  "config_queue ob = NewQueue (ob_QueueSize ob) (ob_BatchSize ob) (ob_FlushInterval ob) (ob_OnOverflow ob)"

definition compile :: "Config \<Rightarrow> 'w Registry \<Rightarrow> ModelRegistry \<Rightarrow> goerr + 'w Pipeline" where
  "compile cfg reg mr =
     (let pl = cf_Pipeline cfg;
          p0 = new_pipeline cfg reg mr;
          p1 = (if \<not> au_Anonymous (cf_Auth cfg)
                then required AuthenticatorCap (getAuthenticator reg)
                       (\<lambda>v p. p\<lparr>pp_authn := Some v\<rparr>) (pl_Authenticator pl) p0
                else p0)
      in sum_bind (optional (getAuthorizer reg) (\<lambda>v p. p\<lparr>pp_authz := Some v\<rparr>) (pl_Authorizer pl) p1)
        (\<lambda>p2. sum_bind
           (optional (getRateLimiter reg) (\<lambda>v p. p\<lparr>pp_ratelimit := Some v\<rparr>) (pl_RateLimiter pl) p2)
        (\<lambda>p3. sum_bind
           (optional (getCacheProvider reg) (\<lambda>v p. p\<lparr>pp_cache := Some v\<rparr>) (pl_CacheProvider pl) p3)
        (\<lambda>p4. sum_bind
           (optional (getPromptProvider reg) (\<lambda>v p. p\<lparr>pp_prompt := Some v\<rparr>) (pl_PromptProvider pl) p4)
        (\<lambda>p5.
           let p6 = required RouterCap (getRouter reg) (\<lambda>v p. p\<lparr>pp_router := Some v\<rparr>)
                      (pl_Router pl) p5
           in sum_bind (compile_upstreams (getUpstreamProvider reg) (pl_UpstreamProviders pl) p6)
        (\<lambda>p7.
           let p8 = (if fmdom (pp_upstreams p7) = {||} then add_missing UpstreamProviderCap p7 else p7)
           in sum_bind (find_all (getObserver reg) (pl_Observers pl) [])
        (\<lambda>async. sum_bind (find_all (getObserver reg) (pl_BlockingObservers pl) [])
        (\<lambda>blocking.
           Inr (p8\<lparr>pp_blockingObservers := blocking,
                   pp_events := config_queue (cf_Observability cfg),
                   pp_queue_observers := async,
                   pp_ready := pp_missing p8 = []\<rparr>)))))))))"

definition Ready :: "'w Pipeline \<Rightarrow> bool" where
  "Ready p = pp_ready p"

definition MissingCapabilities :: "'w Pipeline \<Rightarrow> CapabilityType list" where
  "MissingCapabilities p = pp_missing p"

subsection \<open>Lemmas\<close>

definition resolves :: "(string \<Rightarrow> goerr + 'v) \<Rightarrow> string \<Rightarrow> bool" where
  "resolves look name \<longleftrightarrow> name \<noteq> [] \<and> (\<exists>v. look name = Inr v)"

definition found :: "(string \<Rightarrow> goerr + 'v) \<Rightarrow> string \<Rightarrow> 'v option" where
  "found look name = (if name = [] then None else case look name of Inl e \<Rightarrow> None | Inr v \<Rightarrow> Some v)"

lemma found_None_iff: "found look name = None \<longleftrightarrow> \<not> resolves look name"
  by (auto simp: found_def resolves_def split: sum.splits)

lemma required_eq:
  "required cap look put name p =
     (case found look name of None \<Rightarrow> add_missing cap p | Some v \<Rightarrow> put v p)"
  by (auto simp: required_def found_def split: sum.splits)

lemma optional_Inr_iff:
  "optional look put name p = Inr p' \<longleftrightarrow>
     (name = [] \<or> resolves look name) \<and>
     p' = (case found look name of None \<Rightarrow> p | Some v \<Rightarrow> put v p)"
  by (auto simp: optional_def found_def resolves_def split: sum.splits)

lemma find_all_Inr_iff:
  "find_all look names acc = Inr vs \<longleftrightarrow>
     (\<exists>ws. vs = acc @ ws \<and> map look names = map Inr ws)"
proof (induction look names acc rule: find_all.induct)
  case (2 look name names acc)
  then show ?case by (auto split: sum.splits simp: map_eq_Cons_conv Cons_eq_map_conv)
qed auto

fun add_upstreams :: "(string \<Rightarrow> goerr + 'v) \<Rightarrow> string list \<Rightarrow> (string, 'v) fmap \<Rightarrow> (string, 'v) fmap" where
  "add_upstreams look [] m = m"
| "add_upstreams look (n # ns) m =
     add_upstreams look ns (case look n of Inl e \<Rightarrow> m | Inr v \<Rightarrow> fmupd n v m)"

lemma compile_upstreams_Inr_iff:
  "compile_upstreams look names p = Inr p' \<longleftrightarrow>
     (\<forall>n \<in> set names. \<exists>v. look n = Inr v) \<and>
     p' = p\<lparr>pp_upstreams := add_upstreams look names (pp_upstreams p)\<rparr>"
  by (induction look names p rule: compile_upstreams.induct) (auto split: sum.splits)

lemma add_upstreams_lookup:
  "(\<forall>n \<in> set ns. \<exists>v. look n = Inr v) \<Longrightarrow>
     fmlookup (add_upstreams look ns m) k =
       (if k \<in> set ns then (case look k of Inl e \<Rightarrow> None | Inr v \<Rightarrow> Some v) else fmlookup m k)"
  by (induction look ns m rule: add_upstreams.induct) (auto split: sum.splits)

lemma add_upstreams_empty_iff:
  assumes "\<forall>n \<in> set ns. \<exists>v. look n = Inr v"
  shows "fmdom (add_upstreams look ns fmempty) = {||} \<longleftrightarrow> ns = []"
proof
  assume *: "fmdom (add_upstreams look ns fmempty) = {||}"
  show "ns = []"
  proof (rule ccontr)
    assume "ns \<noteq> []"
    then obtain n where n: "n \<in> set ns" by (cases ns) auto
    with assms have "fmlookup (add_upstreams look ns fmempty) n \<noteq> None"
      by (auto simp: add_upstreams_lookup split: sum.splits)
    with * show False by (auto dest: fmdomI)
  qed
qed simp

text \<open>The same by case analysis, so that it evaluates.\<close>

lemma Inr_iff_not_isl: "(\<exists>v. x = Inr v) \<longleftrightarrow> \<not> isl x"
  by (cases x) simp_all

lemma resolves_code [code]: "resolves look name \<longleftrightarrow> name \<noteq> [] \<and> \<not> isl (look name)"
  by (simp add: resolves_def Inr_iff_not_isl)

text \<open>What the pipeline is compiled to, field by field.\<close>

definition missing_caps :: "Config \<Rightarrow> 'w Registry \<Rightarrow> CapabilityType list" where
  "missing_caps cfg reg =
     (let pl = cf_Pipeline cfg
      in (if au_Anonymous (cf_Auth cfg) \<or> resolves (getAuthenticator reg) (pl_Authenticator pl)
          then [] else [AuthenticatorCap])
         @ (if resolves (getRouter reg) (pl_Router pl) then [] else [RouterCap])
         @ (if pl_UpstreamProviders pl = [] then [UpstreamProviderCap] else []))"

definition optional_ok :: "(string \<Rightarrow> goerr + 'v) \<Rightarrow> string \<Rightarrow> bool" where
  "optional_ok look name \<longleftrightarrow> name = [] \<or> resolves look name"

definition compilable :: "Config \<Rightarrow> 'w Registry \<Rightarrow> bool" where
  "compilable cfg reg \<longleftrightarrow>
     (let pl = cf_Pipeline cfg
      in optional_ok (getAuthorizer reg) (pl_Authorizer pl) \<and>
         optional_ok (getRateLimiter reg) (pl_RateLimiter pl) \<and>
         optional_ok (getCacheProvider reg) (pl_CacheProvider pl) \<and>
         optional_ok (getPromptProvider reg) (pl_PromptProvider pl) \<and>
         (\<forall>n \<in> set (pl_UpstreamProviders pl). \<exists>v. getUpstreamProvider reg n = Inr v) \<and>
         (\<forall>n \<in> set (pl_Observers pl) \<union> set (pl_BlockingObservers pl). \<exists>v. getObserver reg n = Inr v))"

lemma compilable_code [code]:
  "compilable cfg reg \<longleftrightarrow>
     (let pl = cf_Pipeline cfg
      in optional_ok (getAuthorizer reg) (pl_Authorizer pl) \<and>
         optional_ok (getRateLimiter reg) (pl_RateLimiter pl) \<and>
         optional_ok (getCacheProvider reg) (pl_CacheProvider pl) \<and>
         optional_ok (getPromptProvider reg) (pl_PromptProvider pl) \<and>
         list_all (\<lambda>n. \<not> isl (getUpstreamProvider reg n)) (pl_UpstreamProviders pl) \<and>
         list_all (\<lambda>n. \<not> isl (getObserver reg n)) (pl_Observers pl @ pl_BlockingObservers pl))"
  by (auto simp: compilable_def Let_def Inr_iff_not_isl list_all_iff)

definition pick :: "(string \<Rightarrow> goerr + 'v) \<Rightarrow> string list \<Rightarrow> 'v list" where
  "pick look names = concat (map (\<lambda>n. case look n of Inl e \<Rightarrow> [] | Inr v \<Rightarrow> [v]) names)"

definition compiled :: "Config \<Rightarrow> 'w Registry \<Rightarrow> ModelRegistry \<Rightarrow> 'w Pipeline" where
  "compiled cfg reg mr =
     (let pl = cf_Pipeline cfg
      in \<lparr>pp_cfg = cfg, pp_registry = reg, pp_models = mr,
          pp_authn = (if au_Anonymous (cf_Auth cfg) then None
                      else found (getAuthenticator reg) (pl_Authenticator pl)),
          pp_authz = found (getAuthorizer reg) (pl_Authorizer pl),
          pp_ratelimit = found (getRateLimiter reg) (pl_RateLimiter pl),
          pp_router = found (getRouter reg) (pl_Router pl),
          pp_cache = found (getCacheProvider reg) (pl_CacheProvider pl),
          pp_prompt = found (getPromptProvider reg) (pl_PromptProvider pl),
          pp_cost = None,
          pp_upstreams = add_upstreams (getUpstreamProvider reg) (pl_UpstreamProviders pl) fmempty,
          pp_blockingObservers = pick (getObserver reg) (pl_BlockingObservers pl),
          pp_events = config_queue (cf_Observability cfg),
          pp_queue_observers = pick (getObserver reg) (pl_Observers pl),
          pp_ready = missing_caps cfg reg = [],
          pp_missing = missing_caps cfg reg\<rparr>)"

lemma pick_map_Inr: "map look names = map Inr ws \<Longrightarrow> pick look names = ws"
  by (induction names arbitrary: ws) (auto simp: pick_def)

lemma map_Inr_pick: "(\<forall>n \<in> set names. \<exists>v. look n = Inr v) \<Longrightarrow> map look names = map Inr (pick look names)"
  by (induction names) (auto simp: pick_def)

lemma find_all_eq:
  "find_all look names [] = Inr vs \<longleftrightarrow> (\<forall>n \<in> set names. \<exists>v. look n = Inr v) \<and> vs = pick look names"
proof -
  have "\<exists>v. look n = Inr v" if "map look names = map Inr ws" "n \<in> set names" for n ws
    using that by (metis (no_types, lifting) image_iff list.set_map)
  then show ?thesis
    unfolding find_all_Inr_iff using pick_map_Inr [of look names] map_Inr_pick [of names look] by auto
qed

lemma optional_eq:
  "optional look put name p =
     (if optional_ok look name
      then Inr (case found look name of None \<Rightarrow> p | Some v \<Rightarrow> put v p)
      else Inl (case look name of Inl e \<Rightarrow> e | Inr v \<Rightarrow> EText []))"
  by (auto simp: optional_def optional_ok_def found_def resolves_def split: sum.splits)

lemma set_found:
  "pp_authn p = None \<Longrightarrow> (case x of None \<Rightarrow> p | Some v \<Rightarrow> p\<lparr>pp_authn := Some v\<rparr>) = p\<lparr>pp_authn := x\<rparr>"
  "pp_authz p = None \<Longrightarrow> (case y of None \<Rightarrow> p | Some v \<Rightarrow> p\<lparr>pp_authz := Some v\<rparr>) = p\<lparr>pp_authz := y\<rparr>"
  "pp_ratelimit p = None \<Longrightarrow>
     (case z of None \<Rightarrow> p | Some v \<Rightarrow> p\<lparr>pp_ratelimit := Some v\<rparr>) = p\<lparr>pp_ratelimit := z\<rparr>"
  "pp_cache p = None \<Longrightarrow> (case u of None \<Rightarrow> p | Some v \<Rightarrow> p\<lparr>pp_cache := Some v\<rparr>) = p\<lparr>pp_cache := u\<rparr>"
  "pp_prompt p = None \<Longrightarrow> (case w of None \<Rightarrow> p | Some v \<Rightarrow> p\<lparr>pp_prompt := Some v\<rparr>) = p\<lparr>pp_prompt := w\<rparr>"
  by (auto split: option.splits)

lemma set_required:
  "pp_authn p = None \<Longrightarrow>
     (case x of None \<Rightarrow> add_missing c p | Some v \<Rightarrow> p\<lparr>pp_authn := Some v\<rparr>) =
       p\<lparr>pp_authn := x, pp_missing := pp_missing p @ (if x = None then [c] else [])\<rparr>"
  "pp_router p = None \<Longrightarrow>
     (case y of None \<Rightarrow> add_missing c p | Some v \<Rightarrow> p\<lparr>pp_router := Some v\<rparr>) =
       p\<lparr>pp_router := y, pp_missing := pp_missing p @ (if y = None then [c] else [])\<rparr>"
  by (auto simp: add_missing_def split: option.splits)

lemma compile_compilable:
  assumes "compilable cfg reg"
  shows "compile cfg reg mr = Inr (compiled cfg reg mr)"
proof -
  let ?pl = "cf_Pipeline cfg"
  have ups: "\<forall>n \<in> set (pl_UpstreamProviders ?pl). \<exists>v. getUpstreamProvider reg n = Inr v"
    using assms by (simp add: compilable_def Let_def)
  have cu: "compile_upstreams (getUpstreamProvider reg) (pl_UpstreamProviders ?pl) q =
      Inr (q\<lparr>pp_upstreams := add_upstreams (getUpstreamProvider reg) (pl_UpstreamProviders ?pl)
        (pp_upstreams q)\<rparr>)" for q :: "'a Pipeline"
    using ups compile_upstreams_Inr_iff [of "getUpstreamProvider reg"] by blast
  have fa: "find_all (getObserver reg) (pl_Observers ?pl) [] = Inr (pick (getObserver reg) (pl_Observers ?pl))"
    "find_all (getObserver reg) (pl_BlockingObservers ?pl) [] =
       Inr (pick (getObserver reg) (pl_BlockingObservers ?pl))"
    using assms unfolding find_all_eq by (simp_all add: compilable_def Let_def)
  have ok: "optional_ok (getAuthorizer reg) (pl_Authorizer ?pl)"
    "optional_ok (getRateLimiter reg) (pl_RateLimiter ?pl)"
    "optional_ok (getCacheProvider reg) (pl_CacheProvider ?pl)"
    "optional_ok (getPromptProvider reg) (pl_PromptProvider ?pl)"
    using assms by (simp_all add: compilable_def Let_def)
  note emp = add_upstreams_empty_iff [OF ups]
  show ?thesis
    unfolding compile_def Let_def
    by (cases "au_Anonymous (cf_Auth cfg)")
      (simp_all add: optional_eq ok required_eq cu fa set_found set_required new_pipeline_def
        compiled_def missing_caps_def Let_def emp add_missing_def found_None_iff)
qed

lemma compile_Inr_compilable: "compile cfg reg mr = Inr p \<Longrightarrow> compilable cfg reg"
  unfolding compile_def Let_def sum_bind_Inr_iff optional_Inr_iff compile_upstreams_Inr_iff find_all_eq
  by (auto simp: compilable_def optional_ok_def Let_def)

lemma compile_Inr_iff: "compile cfg reg mr = Inr p \<longleftrightarrow> compilable cfg reg \<and> p = compiled cfg reg mr"
  using compile_compilable [of cfg reg mr] compile_Inr_compilable [of cfg reg mr p] by auto

lemma upstreams_dom:
  assumes "compilable cfg reg"
  shows "fset (fmdom (pp_upstreams (compiled cfg reg mr))) = set (pl_UpstreamProviders (cf_Pipeline cfg))"
proof -
  have "\<forall>n \<in> set (pl_UpstreamProviders (cf_Pipeline cfg)). \<exists>v. getUpstreamProvider reg n = Inr v"
    using assms by (simp add: compilable_def Let_def)
  from add_upstreams_lookup [OF this, of fmempty] this show ?thesis
    by (auto simp: compiled_def Let_def fmlookup_dom_iff split: if_splits sum.splits)
qed

text \<open>
  The parts a ready pipeline has: an authenticator unless anonymous, a router, an upstream, and a
  queue in its invariant. The request path relies on it.
\<close>

definition pipeline_ok :: "'w Pipeline \<Rightarrow> bool" where
  "pipeline_ok p \<longleftrightarrow>
     queue_inv (pp_events p) \<and>
     (pp_ready p \<longrightarrow>
        (au_Anonymous (cf_Auth (pp_cfg p)) \<or> pp_authn p \<noteq> None) \<and> pp_router p \<noteq> None \<and>
        fmdom (pp_upstreams p) \<noteq> {||})"

lemma compiled_ok:
  assumes "compilable cfg reg"
  shows "pipeline_ok (compiled cfg reg mr)"
proof -
  have "fmdom (pp_upstreams (compiled cfg reg mr)) = {||} \<longleftrightarrow>
      pl_UpstreamProviders (cf_Pipeline cfg) = []"
    using upstreams_dom [OF assms, of mr] by (metis bot_fset.rep_eq fset_inject set_empty)
  then show ?thesis
    by (auto simp: pipeline_ok_def compiled_def missing_caps_def Let_def found_None_iff
        config_queue_def queue_inv_New split: if_splits)
qed

subsection \<open>Properties\<close>

text \<open>
  C33: Compilation succeeds exactly when every optional capability that is named, every upstream
  provider and every observer is registered; missing required capabilities never make it fail.
\<close>

theorem compile_succeeds_iff:
  "(\<exists>p. compile cfg reg mr = Inr p) \<longleftrightarrow> compilable cfg reg"
  using compile_Inr_iff by blast

text \<open>
  A compiled pipeline is ready exactly when it is anonymous or its authenticator is
  registered, its router is registered, and an upstream provider is named; otherwise the
  capabilities reported missing are exactly those of the three that are not there, in that order.
\<close>

theorem compile_readiness:
  assumes "compile cfg reg mr = Inr p"
  shows "(Ready p \<longleftrightarrow>
       (au_Anonymous (cf_Auth cfg) \<or> resolves (getAuthenticator reg) (pl_Authenticator (cf_Pipeline cfg))) \<and>
       resolves (getRouter reg) (pl_Router (cf_Pipeline cfg)) \<and>
       pl_UpstreamProviders (cf_Pipeline cfg) \<noteq> []) \<and>
     MissingCapabilities p = missing_caps cfg reg \<and>
     (Ready p \<longleftrightarrow> MissingCapabilities p = [])"
  using assms
  by (simp add: compile_Inr_iff Ready_def MissingCapabilities_def compiled_def missing_caps_def Let_def)

text \<open>
  A ready pipeline has every part the request path dereferences: an authenticator unless
  anonymous, a router, and exactly the configured upstream providers, at least one; and its event
  queue starts empty within its bound.
\<close>

theorem compile_ready_parts:
  assumes "compile cfg reg mr = Inr p" and "Ready p"
  shows "(au_Anonymous (cf_Auth (pp_cfg p)) \<or> pp_authn p \<noteq> None) \<and> pp_router p \<noteq> None \<and>
     fset (fmdom (pp_upstreams p)) = set (pl_UpstreamProviders (cf_Pipeline cfg)) \<and>
     fmdom (pp_upstreams p) \<noteq> {||} \<and> queue_inv (pp_events p) \<and> qu_events (pp_events p) = []"
  using assms compiled_ok [of cfg reg mr] upstreams_dom [of cfg reg mr]
  by (auto simp: compile_Inr_iff pipeline_ok_def Ready_def)
    (simp_all add: compiled_def Let_def config_queue_def NewQueue_def)

text \<open>
  With no plugin registered and nothing named, compilation succeeds, the pipeline is not
  ready, and the error of a chat request names the three required capabilities.
\<close>

theorem zero_plugins_not_ready:
  assumes "cf_Pipeline cfg = \<lparr>pl_Authenticator = [], pl_Authorizer = [], pl_RateLimiter = [],
     pl_CacheProvider = [], pl_PromptProvider = [], pl_Router = [], pl_CostProvider = [],
     pl_ModelRegistryProvider = [], pl_UpstreamProviders = [], pl_Observers = [],
     pl_BlockingObservers = []\<rparr>" and "\<not> au_Anonymous (cf_Auth cfg)"
  shows "\<exists>p. compile cfg reg mr = Inr p \<and> \<not> Ready p \<and>
     err_text (EMissing (MissingCapabilities p)) =
       ''Gateway cannot serve chat completions. Missing required capabilities: authenticator, router, upstream_provider.''"
proof -
  have "compilable cfg reg" by (simp add: compilable_def assms optional_ok_def)
  moreover have "missing_caps cfg reg = [AuthenticatorCap, RouterCap, UpstreamProviderCap]"
    by (simp add: missing_caps_def assms resolves_def)
  ultimately show ?thesis
    by (intro exI [of _ "compiled cfg reg mr"])
      (simp add: compile_Inr_iff Ready_def MissingCapabilities_def compiled_def Let_def
        missing_message_def cap_defs)
qed

end
