(* ===== verification/PipelineProps.thy ===== *)
theory PipelineProps
  imports Config
begin

text \<open>
  The property maps, cache keys and estimates of the request pipeline: the pure helper functions
  of \<open>internal/pipeline/pipeline.go\<close>. A property map is a value here; which maps are shared
  between events is the business of the execution theories.

  \<open>json.Marshal\<close> returns no error for these structs, so the \<open>err == nil\<close> branches are always
  taken. SHA-256 is an argument: only equality of digests matters to the program.
\<close>

definition property_prefix :: string where
  "property_prefix = ''x-gateway-property-''"

text \<open>The argument lists the headers in the order Go iterates over the map.\<close>

fun extract_from :: "(string \<times> string) list \<Rightarrow> props \<Rightarrow> props" where
  "extract_from [] ps = ps"
| "extract_from ((k, v) # hs) ps =
     (let lk = ToLower k
      in if HasPrefix lk property_prefix
         then extract_from hs (fmupd (TrimPrefix lk property_prefix) v ps)
         else extract_from hs ps)"

definition extractProperties :: "(string \<times> string) list \<Rightarrow> props" where
  "extractProperties headers = extract_from headers fmempty"

definition estimateTokens :: "ChatCompletionRequest \<Rightarrow> int" where
  "estimateTokens req = go_div (int (length (json_text (json_messages (rq_Messages req))))) 4 + 1"

definition promptVariables :: "props \<Rightarrow> ChatCompletionRequest \<Rightarrow> Identity \<Rightarrow> props" where
  "promptVariables ps req ident =
     fmupd ''request_json'' (json_text (json_request req))
       (fmupd ''messages_json'' (json_text (json_messages (rq_Messages req)))
         (fmupd ''subject'' (id_Subject ident)
           (fmupd ''tenant_id'' (id_TenantID ident)
             (fmupd ''model'' (rq_Model req) ps))))"

text \<open>What is hashed: the encoder ends the request with a newline.\<close>

definition cache_preimage :: "ChatCompletionRequest \<Rightarrow> Identity \<Rightarrow> props \<Rightarrow> string" where
  "cache_preimage req ident ps =
     json_text (json_request req) @ [char_of (10::nat)] @ id_TenantID ident
       @ json_text (json_of_strings ps)"

definition cacheKey ::
  "(string \<Rightarrow> string) \<Rightarrow> ChatCompletionRequest \<Rightarrow> Identity \<Rightarrow> props \<Rightarrow> string" where
  "cacheKey sha256_hex req ident ps = sha256_hex (cache_preimage req ident ps)"

text \<open>
  \<open>time.Since(started)\<close> in microseconds, printed as milliseconds with three decimals. The float
  division and the rounding of \<open>%.3f\<close> are exact below 2^52 microseconds (142 years).
\<close>

definition duration_ms :: "int \<Rightarrow> int \<Rightarrow> string" where
  "duration_ms started now = show_thousandths (go_div (now - started) 1000)"

definition addTiming :: "props \<Rightarrow> int \<Rightarrow> int \<Rightarrow> props" where
  "addTiming base started now = fmupd ''duration_ms'' (duration_ms started now) base"

definition routeEventProps :: "props \<Rightarrow> SelectedRoute \<Rightarrow> int \<Rightarrow> int \<Rightarrow> int \<Rightarrow> props" where
  "routeEventProps base route fallbackIndex started now =
     fmupd ''fallback_index'' (show_int fallbackIndex)
       (fmupd ''route_model'' (sr_ProviderModel route)
         (fmupd ''route_provider'' (sr_ProviderInstance route)
           (addTiming base started now))) ++\<^sub>f sr_Properties route"

definition transcript :: "props \<Rightarrow> ChatCompletionRequest \<Rightarrow> ChatCompletionResponse \<Rightarrow> props" where
  "transcript base req resp =
     fmupd ''payloads_captured'' ''true''
       (fmupd ''response_json'' (json_text (json_response resp))
         (fmupd ''request_json'' (json_text (json_request req)) base))"

definition withTranscriptProps ::
  "bool \<Rightarrow> props \<Rightarrow> ChatCompletionRequest \<Rightarrow> ChatCompletionResponse \<Rightarrow> props" where
  "withTranscriptProps capture base req resp = (if \<not> capture then base else transcript base req resp)"

definition stream_transcript_response :: "ChatCompletionRequest \<Rightarrow> string \<Rightarrow> ChatCompletionResponse" where
  "stream_transcript_response req txt = zero_response\<lparr>
     rp_Model := rq_Model req,
     rp_Choices := Some [\<lparr>ch_Index = 0,
       ch_Message = zero_message\<lparr>cm_Role := ''assistant'', cm_Content := AString txt\<rparr>,
       ch_Delta = zero_message, ch_FinishReason = []\<rparr>]\<rparr>"

definition withStreamTranscriptProps ::
  "bool \<Rightarrow> props \<Rightarrow> ChatCompletionRequest \<Rightarrow> string \<Rightarrow> props" where
  "withStreamTranscriptProps capture base req txt =
     (if \<not> capture then base
      else withTranscriptProps capture base req (stream_transcript_response req txt))"

subsection \<open>Lemmas\<close>

lemma extract_from_lookup:
  assumes "distinct (map (ToLower \<circ> fst) hs)"
  shows "fmlookup (extract_from hs ps) k =
     (case map_of (map (\<lambda>(h, v). (ToLower h, v)) hs) (property_prefix @ k) of
        None \<Rightarrow> fmlookup ps k | Some v \<Rightarrow> Some v)"
  using assms
proof (induction hs ps rule: extract_from.induct)
  case (2 h v hs ps)
  have absent: "map_of (map (\<lambda>(h, v). (ToLower h, v)) hs) (ToLower h) = None"
    using "2.prems" by (force simp: map_of_eq_None_iff image_iff)
  show ?case
  proof (cases "HasPrefix (ToLower h) property_prefix")
    case True
    then obtain t where t: "ToLower h = property_prefix @ t" by (auto simp: HasPrefix_iff)
    with 2 True absent show ?thesis
      by (auto simp: Let_def split: option.splits)
  next
    case False
    then have "ToLower h \<noteq> property_prefix @ k" by auto
    with 2 False show ?thesis by (simp add: Let_def)
  qed
qed simp

lemma addTiming_keeps: "k \<noteq> ''duration_ms'' \<Longrightarrow> fmlookup (addTiming b s n) k = fmlookup b k"
  by (simp add: addTiming_def)

lemma routeEventProps_lookup:
  "fmlookup (routeEventProps b r i s n) k =
     (case fmlookup (sr_Properties r) k of
        Some v \<Rightarrow> Some v
      | None \<Rightarrow>
          if k = ''fallback_index'' then Some (show_int i)
          else if k = ''route_model'' then Some (sr_ProviderModel r)
          else if k = ''route_provider'' then Some (sr_ProviderInstance r)
          else if k = ''duration_ms'' then Some (duration_ms s n)
          else fmlookup b k)"
  by (auto simp: routeEventProps_def addTiming_def fmlookup_dom_iff split: option.splits)

lemma routeEventProps_has_index:
  "fmlookup (routeEventProps b r i s n) ''fallback_index'' \<noteq> None"
  by (auto simp: routeEventProps_lookup split: option.splits)

lemma withTranscriptProps_lookup:
  "k \<notin> {''request_json'', ''response_json'', ''payloads_captured''} \<Longrightarrow>
     fmlookup (withTranscriptProps c b req resp) k = fmlookup b k"
  by (auto simp: withTranscriptProps_def transcript_def)

subsection \<open>The text of a larger map is longer\<close>

definition entry_text :: "string \<Rightarrow> string \<Rightarrow> string" where
  "entry_text k v = json_string k @ '':'' @ json_string v"

definition entries_length :: "props \<Rightarrow> nat" where
  "entries_length m = (\<Sum>k \<in> fset (fmdom m). length (entry_text k (the (fmlookup m k))))"

lemma length_Join: "length (Join xs sep) = sum_list (map length xs) + (length xs - 1) * length sep"
  by (induction xs sep rule: Join.induct) auto

lemma length_json_of_strings:
  "length (json_text (json_of_strings m)) = 2 + entries_length m + (card (fset (fmdom m)) - 1)"
proof -
  let ?ks = "sorted_list_of_fset (fmdom m)"
  let ?e = "\<lambda>k. entry_text k (the (fmlookup m k))"
  have list: "sorted_list_of_fmap m = map (\<lambda>k. (k, the (fmlookup m k))) ?ks"
    by (simp add: sorted_list_of_fmap_def)
  have "json_text (json_of_strings m) = ''{'' @ Join (map ?e ?ks) '','' @ ''}''"
    by (simp add: json_of_strings_def list entry_text_def comp_def)
  moreover have "sum_list (map (\<lambda>k. length (?e k)) ?ks) = entries_length m"
    unfolding entries_length_def sorted_list_of_fset.rep_eq
    by (simp add: sum_list_distinct_conv_sum_set)
  moreover have "length ?ks = card (fset (fmdom m))"
    by (simp add: sorted_list_of_fset.rep_eq)
  ultimately show ?thesis by (simp add: length_Join comp_def)
qed

lemma larger_map_longer_text:
  assumes "m \<subseteq>\<^sub>f m'" and "k |\<in>| fmdom m'" and "k |\<notin>| fmdom m"
  shows "length (json_text (json_of_strings m)) < length (json_text (json_of_strings m'))"
proof -
  let ?D = "fset (fmdom m)" and ?D' = "fset (fmdom m')"
  let ?l = "\<lambda>k. length (entry_text k (the (fmlookup m' k)))"
  have agree: "fmlookup m j = fmlookup m' j" if "j \<in> ?D" for j
    using assms(1) that by (auto simp: fmsubset_alt_def fmlookup_dom_iff fmpred_iff)
  have sub: "insert k ?D \<subseteq> ?D'"
    using assms by (auto simp: fmlookup_dom_iff agree [symmetric])
  have "entries_length m = sum ?l ?D" by (simp add: entries_length_def agree)
  also have "\<dots> < sum ?l (insert k ?D)"
    using assms(3) by (simp add: entry_text_def json_string_def)
  also have "\<dots> \<le> sum ?l ?D'" using sub by (intro sum_mono2) auto
  finally have "entries_length m < entries_length m'" by (simp add: entries_length_def)
  moreover have "card ?D \<le> card ?D'" using sub by (intro card_mono) auto
  ultimately show ?thesis by (simp add: length_json_of_strings)
qed

end
