(* ===== verification/ExecState.thy ===== *)
theory ExecState
  imports PipelineCompile PipelineProps
begin

text \<open>
  The state one chat request runs in, and the primitive steps: calls to plugins, the clock and the
  UUID generator, and the two functions that put an event on the queue (\<open>emit\<close>, \<open>emitError\<close> of
  \<open>internal/pipeline/pipeline.go\<close>).

  \<^item> \<open>x_world\<close> is everything outside the gateway: plugins, clock, UUID source. \<open>env\<close> holds the
    functions that read it.
  \<^item> \<open>x_heap\<close> is the store of property maps. A queued event holds a reference, as the Go event
    holds the map itself, so a later write to the map shows in events already queued.
  \<^item> \<open>x_queue\<close> is the event queue. The flusher may take from it between any two steps; what it
    may do is the subject of the queue theory.
  \<^item> \<open>x_trace\<close> is history: every plugin call with its request and answer and every event handed to
    \<open>Enqueue\<close>, in order. No step reads it.
  \<^item> \<open>x_result\<close> is the local variable \<open>result\<close>, which the Go function returns on every path.

  A step ends with a \<open>halt\<close> when the Go function returns an error, or panics.
\<close>

record 'w env =
  en_uuid :: "'w \<Rightarrow> string \<times> 'w"
  en_now :: "'w \<Rightarrow> int \<times> 'w"
  en_sha256_hex :: "string \<Rightarrow> string"

type_synonym event = "props_ref GatewayEvent"

text \<open>A plugin call is recorded with its request and its answer.\<close>

datatype action =
    ACallAuthn AuthenticateRequest "goerr + AuthenticateResponse"
  | ACallAuthz AuthorizeRequest "goerr + AuthorizeResponse"
  | ACallPrompt PromptResolveRequest "goerr + PromptResolveResponse"
  | ACallLookup CacheLookupRequest "goerr + CacheLookupResponse"
  | ACallCheck RateLimitCheckRequest "goerr + RateLimitCheckResponse"
  | ACallRoute RouteRequest "goerr + RouteResponse"
  | ACallInvoke string InvokeRequest "goerr + ResponseChunk list"
  | ACallStore CacheStoreRequest "goerr + unit"
  | ACallCommit CommitUsageRequest "goerr + unit"
  | ACallObserve "props GatewayEvent list" "goerr + unit"
  | AEvent event

datatype halt =
    Failed goerr
  | Panicked string

text \<open>
  The goroutine a streaming request leaves behind: the channel it reads and the variables it
  captures.
\<close>

record stream_task =
  st_chunks :: "ResponseChunk list"
  st_request :: ChatCompletionRequest
  st_callCtx :: CallContext
  st_identity :: Identity
  st_routeProps :: props_ref
  st_requestID :: string
  st_started :: int

record Result =
  re_RequestID :: string
  re_Response :: ChatCompletionResponse
  re_Stream :: "stream_task option"
  re_Usage :: Usage
  re_Headers :: props
  re_FallbackIndex :: int

record 'w xstate =
  x_world :: 'w
  x_heap :: "props list"
  x_queue :: "event Queue"
  x_trace :: "action list"
  x_result :: Result

type_synonym ('w, 'a) exec = "('w xstate, halt, 'a) prog"

subsection \<open>Primitive steps\<close>

definition call ::
  "('a \<Rightarrow> goerr + 'b \<Rightarrow> action) \<Rightarrow> ('w, 'a, 'b) answering \<Rightarrow> 'a \<Rightarrow> ('w xstate, goerr + 'b) state" where
  "call mk m a = State (\<lambda>s.
     case m a (x_world s) of (r, w) \<Rightarrow> (r, s\<lparr>x_world := w, x_trace := x_trace s @ [mk a r]\<rparr>))"

definition new_uuid :: "'w env \<Rightarrow> ('w xstate, string) state" where
  "new_uuid e = State (\<lambda>s. case en_uuid e (x_world s) of (u, w) \<Rightarrow> (u, s\<lparr>x_world := w\<rparr>))"

definition now :: "'w env \<Rightarrow> ('w xstate, int) state" where
  "now e = State (\<lambda>s. case en_now e (x_world s) of (t, w) \<Rightarrow> (t, s\<lparr>x_world := w\<rparr>))"

definition new_map :: "props \<Rightarrow> ('w xstate, props_ref) state" where
  "new_map m = State (\<lambda>s. (length (x_heap s), s\<lparr>x_heap := x_heap s @ [m]\<rparr>))"

definition read_map :: "props_ref \<Rightarrow> ('w xstate, props) state" where
  "read_map r = reads (\<lambda>s. x_heap s ! r)"

definition write_map :: "props_ref \<Rightarrow> (props \<Rightarrow> props) \<Rightarrow> ('w xstate, unit) state" where
  "write_map r f = modify (\<lambda>s. s\<lparr>x_heap := (x_heap s)[r := f (x_heap s ! r)]\<rparr>)"

definition set_header :: "string \<Rightarrow> string \<Rightarrow> ('w xstate, unit) state" where
  "set_header k v = modify (\<lambda>s. s\<lparr>x_result := (x_result s)\<lparr>re_Headers := fmupd k v (re_Headers (x_result s))\<rparr>\<rparr>)"

definition update_result :: "(Result \<Rightarrow> Result) \<Rightarrow> ('w xstate, unit) state" where
  "update_result f = modify (\<lambda>s. s\<lparr>x_result := f (x_result s)\<rparr>)"

definition enqueue :: "event \<Rightarrow> ('w, unit) exec" where
  "enqueue ev = State (\<lambda>s.
     case Enqueue ev (x_queue s) of
       None \<Rightarrow> (Inl (Panicked ''slice bounds out of range''), s)
     | Some (ok, q) \<Rightarrow> (Inr (), s\<lparr>x_queue := q, x_trace := x_trace s @ [AEvent ev]\<rparr>))"

subsection \<open>Events\<close>

definition emit ::
  "'w env \<Rightarrow> string \<Rightarrow> string \<Rightarrow> string \<Rightarrow> props_ref \<Rightarrow> Usage option \<Rightarrow> ('w, unit) exec" where
  "emit e event requestID tenant ref usage =
     do { eid \<leftarrow> new_uuid e;
          t \<leftarrow> now e;
          enqueue \<lparr>ev_EventID = eid, ev_RequestID = requestID, ev_TenantID = tenant,
            ev_EventType = event, ev_TimestampUnixNano = t, ev_Properties = ref,
            ev_Usage = (case usage of None \<Rightarrow> zero_usage | Some u \<Rightarrow> u), ev_Error = fmempty\<rparr> }"

definition error_map :: "goerr \<Rightarrow> props" where
  "error_map err =
     (let m = fmupd ''message'' (err_text err) fmempty
      in case as_upstream err of
           None \<Rightarrow> m
         | Some up \<Rightarrow>
             fmupd ''rate_limited'' (show_bool (ue_RateLimited up))
               (fmupd ''retryable'' (show_bool (ue_Retryable up))
                 (fmupd ''http_status'' (show_int (ue_HTTPStatus up))
                   (fmupd ''code'' (ue_Code up) m))))"

definition emitError ::
  "'w env \<Rightarrow> string \<Rightarrow> string \<Rightarrow> string \<Rightarrow> props_ref \<Rightarrow> goerr \<Rightarrow> ('w, unit) exec" where
  "emitError e event requestID tenant ref err =
     do { eid \<leftarrow> new_uuid e;
          t \<leftarrow> now e;
          enqueue \<lparr>ev_EventID = eid, ev_RequestID = requestID, ev_TenantID = tenant,
            ev_EventType = event, ev_TimestampUnixNano = t, ev_Properties = ref,
            ev_Usage = zero_usage, ev_Error = error_map err\<rparr> }"

definition gateway_error :: "string \<Rightarrow> string \<Rightarrow> int \<Rightarrow> goerr" where
  "gateway_error code msg status =
     EGateway \<lparr>ge_Type = ''gateway_error'', ge_Code = code, ge_Message = msg, ge_Status = status,
       ge_Details = []\<rparr>"

definition fail :: "goerr \<Rightarrow> ('w, 'a) exec" where
  "fail err = raise (Failed err)"

lemma run_fail [simp]: "run_state (fail err) s = (Inl (Failed err), s)"
  by (simp add: fail_def)

definition nil_dereference :: "('w, 'a) exec" where
  "nil_dereference = raise (Panicked ''invalid memory address or nil pointer dereference'')"

lemma run_nil_dereference [simp]:
  "run_state nil_dereference s = (Inl (Panicked ''invalid memory address or nil pointer dereference''), s)"
  by (simp add: nil_dereference_def)

end
