(* ===== verification/Collect.thy ===== *)
theory Collect
  imports ExecState
begin

text \<open>
  Collecting the chunks of an upstream invocation into one response, and the retry decision
  (\<open>collectResponse\<close>, \<open>retryable\<close> of \<open>internal/pipeline/pipeline.go\<close>). The loop over the channel ends at
  the first error chunk, or when the upstream closes the channel: a channel that carries no error is
  assumed to be closed after the chunks of the list.
\<close>

definition content_text :: "any \<Rightarrow> string" where
  "content_text c = (case c of AString s \<Rightarrow> s | _ \<Rightarrow> [])"

definition choice_text :: "ChatChoice \<Rightarrow> string" where
  "choice_text c = content_text (cm_Content (ch_Delta c)) @ content_text (cm_Content (ch_Message c))"

definition chunk_text :: "ChatCompletionChunk \<Rightarrow> string" where
  "chunk_text c = concat (map choice_text (elems (ck_Choices c)))"

text \<open>The header fields of the response, taken from a chunk while no identifier is known.\<close>

definition start_response ::
  "string \<Rightarrow> ChatCompletionChunk \<Rightarrow> ChatCompletionResponse \<Rightarrow> ChatCompletionResponse" where
  "start_response model c resp =
     (if rp_ID resp = []
      then resp\<lparr>rp_ID := ck_ID c, rp_Object := ''chat.completion'', rp_Created := ck_Created c,
             rp_Model := model\<rparr>
      else resp)"

record collected =
  co_resp :: ChatCompletionResponse
  co_usage :: Usage
  co_content :: string

fun collect_loop :: "string \<Rightarrow> ResponseChunk list \<Rightarrow> collected \<Rightarrow> UpstreamError + collected" where
  "collect_loop model [] acc = Inr acc"
| "collect_loop model (chunk # chunks) acc =
     (case rc_Error chunk of
        Some e \<Rightarrow> Inl e
      | None \<Rightarrow>
          (let acc = (case rc_Usage chunk of None \<Rightarrow> acc | Some u \<Rightarrow> acc\<lparr>co_usage := u\<rparr>);
               acc = (case rc_Chunk chunk of
                        None \<Rightarrow> acc
                      | Some c \<Rightarrow> acc\<lparr>co_resp := start_response model c (co_resp acc),
                                     co_content := co_content acc @ chunk_text c\<rparr>)
           in collect_loop model chunks acc))"

definition empty_collected :: collected where
  "empty_collected = \<lparr>co_resp = zero_response, co_usage = zero_usage, co_content = []\<rparr>"

definition assistant_choice :: "string \<Rightarrow> ChatChoice" where
  "assistant_choice content =
     \<lparr>ch_Index = 0,
      ch_Message = zero_message\<lparr>cm_Role := ''assistant'', cm_Content := AString content\<rparr>,
      ch_Delta = zero_message, ch_FinishReason = ''stop''\<rparr>"

definition usage_map :: "Usage \<Rightarrow> (string, int) fmap" where
  "usage_map u =
     fmupd ''total_tokens'' (us_TotalTokens u)
       (fmupd ''completion_tokens'' (us_OutputTokens u)
         (fmupd ''prompt_tokens'' (us_InputTokens u) fmempty))"

definition finish_response :: "collected \<Rightarrow> ChatCompletionResponse" where
  "finish_response acc =
     (let r = (co_resp acc)\<lparr>rp_Choices := Some [assistant_choice (co_content acc)]\<rparr>
      in if 0 < us_TotalTokens (co_usage acc) then r\<lparr>rp_Usage := usage_map (co_usage acc)\<rparr> else r)"

text \<open>\<open>time.Now().Unix()\<close> is the whole seconds of the clock, rounded down.\<close>

definition collectResponse ::
  "'w env \<Rightarrow> ResponseChunk list \<Rightarrow> string \<Rightarrow>
     ('w xstate, UpstreamError + ChatCompletionResponse \<times> Usage) state" where
  "collectResponse e chunks model =
     (case collect_loop model chunks empty_collected of
        Inl err \<Rightarrow> State_Monad.return (Inl err)
      | Inr acc \<Rightarrow>
          if rp_ID (co_resp acc) = [] then
            do { u \<leftarrow> new_uuid e;
                 t \<leftarrow> now e;
                 let acc = acc\<lparr>co_resp := (co_resp acc)\<lparr>rp_ID := ''chatcmpl_'' @ u,
                   rp_Object := ''chat.completion'', rp_Created := t div 1000000000,
                   rp_Model := model\<rparr>\<rparr>;
                 State_Monad.return (Inr (finish_response acc, co_usage acc)) }
          else State_Monad.return (Inr (finish_response acc, co_usage acc)))"

definition retryable :: "goerr \<Rightarrow> bool" where
  "retryable err =
     (case as_upstream err of
        Some ue \<Rightarrow> ue_Retryable ue \<or> ue_RateLimited ue \<or> 500 \<le> ue_HTTPStatus ue
      | None \<Rightarrow> True)"

subsection \<open>What is collected\<close>

definition first_error :: "ResponseChunk list \<Rightarrow> UpstreamError option" where
  "first_error chunks = (case List.map_filter rc_Error chunks of [] \<Rightarrow> None | x # _ \<Rightarrow> Some x)"

definition all_text :: "ResponseChunk list \<Rightarrow> string" where
  "all_text chunks = concat (map chunk_text (List.map_filter rc_Chunk chunks))"

definition last_usage :: "ResponseChunk list \<Rightarrow> Usage" where
  "last_usage chunks = (case rev (List.map_filter rc_Usage chunks) of [] \<Rightarrow> zero_usage | u # _ \<Rightarrow> u)"

definition last_usage_from :: "Usage \<Rightarrow> ResponseChunk list \<Rightarrow> Usage" where
  "last_usage_from d chunks = (case rev (List.map_filter rc_Usage chunks) of [] \<Rightarrow> d | u # _ \<Rightarrow> u)"

lemma last_usage_from_simps [simp]:
  "last_usage_from d [] = d"
  "last_usage_from d (c # cs) = last_usage_from (case rc_Usage c of None \<Rightarrow> d | Some u \<Rightarrow> u) cs"
  by (auto simp: last_usage_from_def List.map_filter_simps split: option.splits list.splits)

lemma collect_loop_error: "(\<exists>acc'. collect_loop m cs acc = Inr acc') \<longleftrightarrow> first_error cs = None"
  by (induction cs arbitrary: acc)
    (auto simp: first_error_def List.map_filter_simps Let_def split: option.splits)

lemma collect_loop_first_error:
  "collect_loop m cs acc = Inl e \<longleftrightarrow> first_error cs = Some e"
  by (induction cs arbitrary: acc)
    (auto simp: first_error_def List.map_filter_simps Let_def split: option.splits)

lemma collect_loop_result:
  "collect_loop m cs acc = Inr acc' \<Longrightarrow>
     co_content acc' = co_content acc @ all_text cs \<and>
     co_usage acc' = last_usage_from (co_usage acc) cs \<and>
     (rp_ID (co_resp acc) = [] \<longrightarrow> rp_ID (co_resp acc') =
        (case filter (\<lambda>i. i \<noteq> []) (map ck_ID (List.map_filter rc_Chunk cs)) of [] \<Rightarrow> [] | i # _ \<Rightarrow> i)) \<and>
     (rp_ID (co_resp acc) \<noteq> [] \<longrightarrow> co_resp acc' = co_resp acc)"
proof (induction cs arbitrary: acc)
  case Nil
  then show ?case by (auto simp: all_text_def List.map_filter_simps)
next
  case (Cons c cs)
  then show ?case
    by (auto simp: all_text_def List.map_filter_simps Let_def start_response_def split: option.splits if_splits)
qed

end
