(* ===== verification/Execute.thy ===== *)
theory Execute
  imports Collect
begin

text \<open>
  \<open>ExecuteChat\<close> of \<open>internal/pipeline/pipeline.go\<close>, one definition per stage in the order of the
  source: readiness, authentication, \<open>request.started\<close>, authorization, prompt resolution, cache
  lookup, rate limit, candidates, routing, \<open>route.selected\<close>, and the execution of the routes,
  non-streaming or streaming.

  \<open>props\<close> is a reference to the one property map of the request: the summary and the first
  events hold it, and prompt resolution writes to it.
\<close>

subsection \<open>Stages before routing\<close>

definition anonymous_identity :: Identity where
  "anonymous_identity = \<lparr>id_Subject = ''anonymous'', id_TenantID = ''anonymous'', id_Groups = [],
     id_Claims = fmempty, id_AuthMethod = ''anonymous''\<rparr>"

definition zero_time :: int where
  "zero_time = 0"

definition initial_context :: "string \<Rightarrow> CallContext" where
  "initial_context requestID = \<lparr>cc_RequestID = requestID, cc_TenantID = [], cc_Deadline = zero_time,
     cc_TraceContext = fmempty, cc_GatewayVersion = ''dev'', cc_PluginInstance = []\<rparr>"

definition initial_result :: "string \<Rightarrow> Result" where
  "initial_result requestID = \<lparr>re_RequestID = requestID, re_Response = zero_response,
     re_Stream = None, re_Usage = zero_usage,
     re_Headers = fmupd ''X-Gateway-Cache'' ''BYPASS''
       (fmupd ''X-Gateway-Request-Id'' requestID fmempty),
     re_FallbackIndex = 0\<rparr>"

definition authenticate ::
  "'w Pipeline \<Rightarrow> CallContext \<Rightarrow> (string \<times> string) list \<Rightarrow> string
     \<Rightarrow> ('w, Identity \<times> CallContext) exec" where
  "authenticate p callCtx headers sourceIP =
     (if au_Anonymous (cf_Auth (pp_cfg p)) then done_with (anonymous_identity, callCtx)
      else case pp_authn p of
        None \<Rightarrow> nil_dereference
      | Some authn \<Rightarrow>
          do { r \<leftarrow> call ACallAuthn (Authenticate authn)
                 \<lparr>aq_Context = callCtx, aq_Headers = fmap_of_list headers, aq_SourceIP = sourceIP,
                  aq_Method = ''POST'', aq_Path = ''/v1/chat/completions''\<rparr>;
               case r of
                 Inl err \<Rightarrow> fail (gateway_error ''authentication_failed'' (err_text err) 401)
               | Inr auth \<Rightarrow>
                   if \<not> ar_Allow auth
                   then fail (gateway_error ''authentication_failed'' (ar_DenyReason auth) 401)
                   else done_with (ar_Identity auth,
                          callCtx\<lparr>cc_TenantID := id_TenantID (ar_Identity auth)\<rparr>) })"

text \<open>The summary holds the reference; a plugin that is called gets the map it points to now.\<close>

definition summary_value :: "props_ref RequestSummary \<Rightarrow> ('w xstate, props RequestSummary) state" where
  "summary_value s =
     do { m \<leftarrow> read_map (rs_Properties s);
          State_Monad.return \<lparr>rs_Operation = rs_Operation s, rs_RequestedModel = rs_RequestedModel s,
            rs_EstimatedInputTokens = rs_EstimatedInputTokens s, rs_Properties = m\<rparr> }"

definition authorize ::
  "'w Pipeline \<Rightarrow> CallContext \<Rightarrow> Identity \<Rightarrow> props_ref RequestSummary \<Rightarrow> ('w, unit) exec" where
  "authorize p callCtx identity summary =
     (case pp_authz p of
        None \<Rightarrow> done_with ()
      | Some authz \<Rightarrow>
          do { rs \<leftarrow> summary_value summary;
               r \<leftarrow> call ACallAuthz (Authorize authz)
                 \<lparr>zq_Context = callCtx, zq_Identity = identity, zq_Request = rs\<rparr>;
               case r of
                 Inl err \<Rightarrow> fail err
               | Inr az \<Rightarrow>
                   if \<not> zr_Allow az
                   then fail (gateway_error ''authorization_denied'' (zr_DenyReason az) 403)
                   else done_with () })"

definition prompt_ref :: "props \<Rightarrow> ChatCompletionRequest \<Rightarrow> string" where
  "prompt_ref m req =
     (let ref = lookup_or [] m ''context-key'';
          ref = (if ref = [] then lookup_or [] m ''prompt-ref'' else ref)
      in if ref = [] then rq_Model req else ref)"

definition resolve_prompt ::
  "'w Pipeline \<Rightarrow> CallContext \<Rightarrow> Identity \<Rightarrow> props_ref \<Rightarrow> ChatCompletionRequest
     \<Rightarrow> ('w, ChatCompletionRequest) exec" where
  "resolve_prompt p callCtx identity props req =
     (case pp_prompt p of
        None \<Rightarrow> done_with req
      | Some prompt \<Rightarrow>
          do { m \<leftarrow> read_map props;
               r \<leftarrow> call ACallPrompt (ResolvePrompt prompt)
                 \<lparr>pq_Context = callCtx, pq_Identity = identity, pq_PromptRef = prompt_ref m req,
                  pq_Version = [], pq_Variables = promptVariables m req identity\<rparr>;
               case r of
                 Inl err \<Rightarrow> fail err
               | Inr pr \<Rightarrow>
                   if pr_Messages pr = [] then done_with req
                   else do { write_map props (\<lambda>m. m ++\<^sub>f pr_Properties pr);
                             done_with (req\<lparr>rq_Messages := Some (pr_Messages pr)\<rparr>) } })"

definition cache_policy :: CachePolicy where
  "cache_policy = \<lparr>cp_TTLMillis = 60000, cp_Semantic = False, cp_Vary = fmempty\<rparr>"

text \<open>\<open>True\<close> when the lookup hit, so that the request is answered from the cache.\<close>

definition cache_lookup ::
  "'w Pipeline \<Rightarrow> 'w env \<Rightarrow> CallContext \<Rightarrow> Identity \<Rightarrow> props_ref \<Rightarrow> string \<Rightarrow> ChatCompletionRequest
     \<Rightarrow> ('w, bool) exec" where
  "cache_lookup p e callCtx identity props requestID req =
     (case pp_cache p of
        None \<Rightarrow> done_with False
      | Some cache \<Rightarrow>
          if rq_Stream req then done_with False
          else do { m \<leftarrow> read_map props;
               r \<leftarrow> call ACallLookup (Lookup cache)
                 \<lparr>kq_Context = callCtx, kq_Identity = identity,
                  kq_CacheKey = cacheKey (en_sha256_hex e) req identity m, kq_Policy = cache_policy\<rparr>;
               case r of
                 Inl err \<Rightarrow> do { set_header ''X-Gateway-Cache'' ''MISS''; done_with False }
               | Inr lk \<Rightarrow>
                   if kr_Hit lk then
                     do { update_result (\<lambda>res. res\<lparr>re_Response := cr_Response (kr_Response lk),
                            re_Usage := cr_Usage (kr_Response lk)\<rparr>);
                          set_header ''X-Gateway-Cache'' ''HIT'';
                          and_then (emit e ''cache.hit'' requestID (id_TenantID identity) props
                              (Some (cr_Usage (kr_Response lk))))
                            (\<lambda>_. done_with True) }
                   else do { set_header ''X-Gateway-Cache'' ''MISS''; done_with False } })"

definition rate_limit_error :: "RateLimitCheckResponse \<Rightarrow> goerr" where
  "rate_limit_error rl =
     EGateway \<lparr>ge_Type = ''gateway_error'', ge_Code = ''rate_limit_exceeded'',
       ge_Message = lr_DenyReason rl, ge_Status = 429,
       ge_Details = [(''retry_after_ms'', AInt (lr_RetryAfterMS rl))]\<rparr>"

definition rate_limit_headers :: "RateLimitState \<Rightarrow> ('w xstate, unit) state" where
  "rate_limit_headers st =
     (if 0 < ls_RequestLimit st then
        do { set_header ''X-Gateway-RateLimit-Limit'' (show_int (ls_RequestLimit st));
             set_header ''X-Gateway-RateLimit-Remaining'' (show_int (ls_RequestRemaining st));
             set_header ''X-Gateway-RateLimit-Reset'' (show_int (ls_ResetUnixNano st)) }
      else State_Monad.return ())"

definition check_rate_limit ::
  "'w Pipeline \<Rightarrow> CallContext \<Rightarrow> Identity \<Rightarrow> props_ref \<Rightarrow> int \<Rightarrow> ChatCompletionRequest
     \<Rightarrow> ('w, unit) exec" where
  "check_rate_limit p callCtx identity props estimated req =
     (case pp_ratelimit p of
        None \<Rightarrow> done_with ()
      | Some rl \<Rightarrow>
          do { m \<leftarrow> read_map props;
               r \<leftarrow> call ACallCheck (Check rl)
                 \<lparr>lq_Context = callCtx, lq_Identity = identity, lq_Model = rq_Model req,
                  lq_EstimatedInputTokens = estimated,
                  lq_RequestedOutputTokens = (case rq_MaxTokens req of None \<Rightarrow> 0 | Some n \<Rightarrow> n),
                  lq_Properties = m\<rparr>;
               case r of
                 Inl err \<Rightarrow> fail err
               | Inr resp \<Rightarrow>
                   do { rate_limit_headers (lr_State resp);
                        if lr_Decision resp = ''deny'' then fail (rate_limit_error resp)
                        else done_with () } })"

definition choose_routes ::
  "'w Pipeline \<Rightarrow> CallContext \<Rightarrow> Identity \<Rightarrow> props_ref RequestSummary \<Rightarrow> ChatCompletionRequest
     \<Rightarrow> ('w, SelectedRoute list) exec" where
  "choose_routes p callCtx identity summary req =
     (case Candidates (pp_models p) (rq_Model req) of
        Inl err \<Rightarrow> fail (gateway_error ''model_not_found'' (err_text err) 404)
      | Inr candidates \<Rightarrow>
          (case pp_router p of
             None \<Rightarrow> nil_dereference
           | Some router \<Rightarrow>
               do { rs \<leftarrow> summary_value summary;
                    r \<leftarrow> call ACallRoute (Route router)
                      \<lparr>tq_Context = callCtx, tq_Identity = identity, tq_RequestedModel = rq_Model req,
                       tq_Request = rs, tq_Candidates = candidates, tq_Constraints = zero_constraints\<rparr>;
                    case r of
                      Inl err \<Rightarrow> fail err
                    | Inr resp \<Rightarrow>
                        if tr_Routes resp = []
                        then fail (gateway_error ''no_route_available'' ''router returned no routes'' 503)
                        else done_with (tr_Routes resp) }))"

end
