(* ===== verification/ExecuteRoutes.thy ===== *)
theory ExecuteRoutes
  imports Execute
begin

text \<open>
  Execution of the routes the router selected (\<open>executeNonStream\<close>, \<open>executeStream\<close>,
  \<open>afterSuccess\<close> of \<open>internal/pipeline/pipeline.go\<close>) and \<open>ExecuteChat\<close> itself. The loops over
  the routes carry the index and \<open>lastErr\<close>; \<open>Served\<close> is the return from inside the loop,
  \<open>Exhausted\<close> the fall through or the \<open>break\<close>.
\<close>

text \<open>
  Indexing and slicing. \<open>xs[i]\<close> panics unless \<open>i\<close> is an index of the slice. \<open>xs[:n]\<close> panics when
  \<open>n\<close> is negative or beyond the capacity; between the length and the capacity, which the code does
  not know, it shows elements that are not part of the slice. The model panics in both cases.
\<close>

definition element :: "'a list \<Rightarrow> int \<Rightarrow> ('w, 'a) exec" where
  "element xs i =
     (if 0 \<le> i \<and> i < int (length xs) then done_with (xs ! nat i)
      else raise (Panicked ''index out of range''))"

definition slice_to :: "'a list \<Rightarrow> int \<Rightarrow> ('w, 'a list) exec" where
  "slice_to xs n =
     (if 0 \<le> n \<and> n \<le> int (length xs) then done_with (take (nat n) xs)
      else raise (Panicked ''slice bounds out of range''))"

definition max_attempts :: "Config \<Rightarrow> SelectedRoute list \<Rightarrow> int" where
  "max_attempts cfg routes =
     (let m = min (fb_MaxAttempts (cf_Fallbacks cfg)) (int (length routes))
      in if m \<le> 0 then int (length routes) else m)"

definition capture_payloads :: "'w Pipeline \<Rightarrow> bool" where
  "capture_payloads p = ob_CapturePayloads (cf_Observability (pp_cfg p))"

definition route_props ::
  "'w env \<Rightarrow> props_ref \<Rightarrow> SelectedRoute \<Rightarrow> int \<Rightarrow> int \<Rightarrow> ('w xstate, props_ref) state" where
  "route_props e props r i started =
     do { m \<leftarrow> read_map props;
          t \<leftarrow> now e;
          new_map (routeEventProps m r i started t) }"

definition timed_props :: "'w env \<Rightarrow> props_ref \<Rightarrow> int \<Rightarrow> ('w xstate, props_ref) state" where
  "timed_props e props started =
     do { m \<leftarrow> read_map props;
          t \<leftarrow> now e;
          new_map (addTiming m started t) }"

text \<open>\<open>withTranscriptProps\<close> returns its argument, the same map, when payloads are not captured.\<close>

definition transcript_props ::
  "'w Pipeline \<Rightarrow> props_ref \<Rightarrow> ChatCompletionRequest \<Rightarrow> ChatCompletionResponse
     \<Rightarrow> ('w xstate, props_ref) state" where
  "transcript_props p ref req resp =
     (if \<not> capture_payloads p then State_Monad.return ref
      else do { m \<leftarrow> read_map ref;
                new_map (withTranscriptProps (capture_payloads p) m req resp) })"

definition announce_route :: "SelectedRoute \<Rightarrow> int \<Rightarrow> ('w xstate, unit) state" where
  "announce_route r i =
     do { set_header ''X-Gateway-Route-Provider'' (sr_ProviderInstance r);
          set_header ''X-Gateway-Route-Model'' (sr_ProviderModel r);
          set_header ''X-Gateway-Fallback-Index'' (show_int i);
          update_result (\<lambda>res. res\<lparr>re_FallbackIndex := i\<rparr>) }"

definition invoke_request ::
  "CallContext \<Rightarrow> Identity \<Rightarrow> SelectedRoute \<Rightarrow> ChatCompletionRequest \<Rightarrow> props \<Rightarrow> InvokeRequest" where
  "invoke_request callCtx identity r req m =
     \<lparr>iq_Context = callCtx\<lparr>cc_PluginInstance := sr_ProviderInstance r\<rparr>, iq_Identity = identity,
      iq_ProviderModel = sr_ProviderModel r, iq_Request = req, iq_Properties = m\<rparr>"

subsection \<open>After a successful collection\<close>

fun blocking_observers ::
  "'w env \<Rightarrow> 'w Observer list \<Rightarrow> string \<Rightarrow> Identity \<Rightarrow> props_ref \<Rightarrow> Usage \<Rightarrow> ('w, unit) exec" where
  "blocking_observers e [] requestID identity ref usage = done_with ()"
| "blocking_observers e (obs # rest) requestID identity ref usage =
     do { eid \<leftarrow> new_uuid e;
          t \<leftarrow> now e;
          m \<leftarrow> read_map ref;
          r \<leftarrow> call ACallObserve (Emit obs)
            [\<lparr>ev_EventID = eid, ev_RequestID = requestID, ev_TenantID = id_TenantID identity,
              ev_EventType = ''request.completed'', ev_TimestampUnixNano = t, ev_Properties = m,
              ev_Usage = usage, ev_Error = fmempty\<rparr>];
          case r of
            Inl err \<Rightarrow> fail (gateway_error ''observer_failed'' (err_text err) 500)
          | Inr _ \<Rightarrow> blocking_observers e rest requestID identity ref usage }"

definition store_in_cache ::
  "'w Pipeline \<Rightarrow> 'w env \<Rightarrow> CallContext \<Rightarrow> Identity \<Rightarrow> ChatCompletionRequest \<Rightarrow> props_ref
     \<Rightarrow> ChatCompletionResponse \<Rightarrow> Usage \<Rightarrow> ('w xstate, unit) state" where
  "store_in_cache p e callCtx identity req ref resp usage =
     (case pp_cache p of
        None \<Rightarrow> State_Monad.return ()
      | Some cache \<Rightarrow>
          do { m \<leftarrow> read_map ref;
               _ \<leftarrow> call ACallStore (Store cache)
                 \<lparr>sq_Context = callCtx, sq_Identity = identity,
                  sq_CacheKey = cacheKey (en_sha256_hex e) req identity m,
                  sq_Response = \<lparr>cr_Response = resp, cr_Usage = usage\<rparr>, sq_Policy = cache_policy\<rparr>;
               State_Monad.return () })"

definition commit_usage ::
  "'w Pipeline \<Rightarrow> CallContext \<Rightarrow> Identity \<Rightarrow> Usage \<Rightarrow> ('w xstate, unit) state" where
  "commit_usage p callCtx identity usage =
     (case pp_ratelimit p of
        None \<Rightarrow> State_Monad.return ()
      | Some rl \<Rightarrow>
          do { _ \<leftarrow> call ACallCommit (Commit rl)
                 \<lparr>uq_Context = callCtx, uq_Identity = identity, uq_Usage = usage\<rparr>;
               State_Monad.return () })"

definition afterSuccess ::
  "'w Pipeline \<Rightarrow> 'w env \<Rightarrow> CallContext \<Rightarrow> Identity \<Rightarrow> ChatCompletionRequest \<Rightarrow> props_ref
     \<Rightarrow> string \<Rightarrow> ChatCompletionResponse \<Rightarrow> Usage \<Rightarrow> ('w, unit) exec" where
  "afterSuccess p e callCtx identity req routeProps requestID resp usage =
     do { ref \<leftarrow> transcript_props p routeProps req resp;
          store_in_cache p e callCtx identity req ref resp usage;
          commit_usage p callCtx identity usage;
          and_then (emit e ''request.completed'' requestID (id_TenantID identity) ref (Some usage))
            (\<lambda>_. blocking_observers e (pp_blockingObservers p) requestID identity ref usage) }"

subsection \<open>The fallback loops\<close>

datatype loop_end =
    Served
  | Exhausted "goerr option"

text \<open>An upstream that failed: report it, then go on if the error is retryable.\<close>

definition upstream_failed ::
  "'w env \<Rightarrow> string \<Rightarrow> Identity \<Rightarrow> props_ref \<Rightarrow> goerr \<Rightarrow> ('w, loop_end) exec \<Rightarrow> ('w, loop_end) exec" where
  "upstream_failed e requestID identity routeProps err continue =
     and_then (emitError e ''upstream.error'' requestID (id_TenantID identity) routeProps err)
       (\<lambda>_. if retryable err then continue else done_with (Exhausted (Some err)))"

fun nonstream_loop ::
  "'w Pipeline \<Rightarrow> 'w env \<Rightarrow> ChatCompletionRequest \<Rightarrow> CallContext \<Rightarrow> Identity \<Rightarrow> props_ref \<Rightarrow> string
     \<Rightarrow> int \<Rightarrow> SelectedRoute list \<Rightarrow> int \<Rightarrow> goerr option \<Rightarrow> ('w, loop_end) exec" where
  "nonstream_loop p e req callCtx identity props requestID started [] i lastErr =
     done_with (Exhausted lastErr)"
| "nonstream_loop p e req callCtx identity props requestID started (r # rs) i lastErr =
     (case fmlookup (pp_upstreams p) (sr_ProviderInstance r) of
        None \<Rightarrow>
          nonstream_loop p e req callCtx identity props requestID started rs (i + 1)
            (Some (EText (''provider '' @ sr_ProviderInstance r @ '' not configured'')))
      | Some up \<Rightarrow>
          do { announce_route r i;
               routeProps \<leftarrow> route_props e props r i started;
               m \<leftarrow> read_map routeProps;
               answer \<leftarrow> call (ACallInvoke (sr_ProviderInstance r)) (Invoke up)
                 (invoke_request callCtx identity r req m);
               case answer of
                 Inl err \<Rightarrow>
                   upstream_failed e requestID identity routeProps err
                     (nonstream_loop p e req callCtx identity props requestID started rs (i + 1) (Some err))
               | Inr ch \<Rightarrow>
                   do { collected \<leftarrow> collectResponse e ch (rq_Model req);
                        case collected of
                          Inl ue \<Rightarrow>
                            upstream_failed e requestID identity routeProps (EUpstream ue)
                              (nonstream_loop p e req callCtx identity props requestID started rs (i + 1)
                                (Some (EUpstream ue)))
                        | Inr (resp, usage) \<Rightarrow>
                            do { update_result (\<lambda>res. res\<lparr>re_Response := resp, re_Usage := usage\<rparr>);
                                 and_then (afterSuccess p e callCtx identity req routeProps requestID resp usage)
                                   (\<lambda>_. done_with Served) } } })"

fun stream_loop ::
  "'w Pipeline \<Rightarrow> 'w env \<Rightarrow> ChatCompletionRequest \<Rightarrow> CallContext \<Rightarrow> Identity \<Rightarrow> props_ref \<Rightarrow> string
     \<Rightarrow> int \<Rightarrow> SelectedRoute list \<Rightarrow> int \<Rightarrow> goerr option \<Rightarrow> ('w, loop_end) exec" where
  "stream_loop p e req callCtx identity props requestID started [] i lastErr =
     done_with (Exhausted lastErr)"
| "stream_loop p e req callCtx identity props requestID started (r # rs) i lastErr =
     (case fmlookup (pp_upstreams p) (sr_ProviderInstance r) of
        None \<Rightarrow> stream_loop p e req callCtx identity props requestID started rs (i + 1) lastErr
      | Some up \<Rightarrow>
          do { announce_route r i;
               routeProps \<leftarrow> route_props e props r i started;
               m \<leftarrow> read_map routeProps;
               answer \<leftarrow> call (ACallInvoke (sr_ProviderInstance r)) (Invoke up)
                 (invoke_request callCtx identity r req m);
               case answer of
                 Inl err \<Rightarrow>
                   upstream_failed e requestID identity routeProps err
                     (stream_loop p e req callCtx identity props requestID started rs (i + 1) (Some err))
               | Inr ch \<Rightarrow>
                   do { update_result (\<lambda>res. res\<lparr>re_Stream := Some
                          \<lparr>st_chunks = ch, st_request = req, st_callCtx = callCtx,
                           st_identity = identity, st_routeProps = routeProps,
                           st_requestID = requestID, st_started = started\<rparr>\<rparr>);
                        done_with Served } })"

definition last_error_text :: "goerr option \<Rightarrow> string" where
  "last_error_text lastErr = (case lastErr of None \<Rightarrow> ''<nil>'' | Some err \<Rightarrow> err_text err)"

definition upstream_unavailable :: "goerr option \<Rightarrow> goerr" where
  "upstream_unavailable lastErr =
     gateway_error ''upstream_unavailable''
       (''all configured upstream providers failed before response streaming started: ''
          @ last_error_text lastErr) 503"

text \<open>The end both loops share: return, or report the failure of the request.\<close>

definition finish_loop ::
  "'w Pipeline \<Rightarrow> 'w env \<Rightarrow> ChatCompletionRequest \<Rightarrow> Identity \<Rightarrow> props_ref \<Rightarrow> string \<Rightarrow> int
     \<Rightarrow> loop_end \<Rightarrow> ('w, unit) exec" where
  "finish_loop p e req identity props requestID started r =
     (case r of
        Served \<Rightarrow> done_with ()
      | Exhausted lastErr \<Rightarrow>
          do { timed \<leftarrow> timed_props e props started;
               ref \<leftarrow> transcript_props p timed req zero_response;
               and_then (emitError e ''request.failed'' requestID (id_TenantID identity) ref
                   (upstream_unavailable lastErr))
                 (\<lambda>_. fail (upstream_unavailable lastErr)) })"

definition executeNonStream ::
  "'w Pipeline \<Rightarrow> 'w env \<Rightarrow> ChatCompletionRequest \<Rightarrow> CallContext \<Rightarrow> Identity \<Rightarrow> props_ref \<Rightarrow> string
     \<Rightarrow> int \<Rightarrow> SelectedRoute list \<Rightarrow> ('w, unit) exec" where
  "executeNonStream p e req callCtx identity props requestID started routes =
     and_then (slice_to routes (max_attempts (pp_cfg p) routes)) (\<lambda>tried.
     and_then (nonstream_loop p e req callCtx identity props requestID started tried 0 None)
       (finish_loop p e req identity props requestID started))"

definition executeStream ::
  "'w Pipeline \<Rightarrow> 'w env \<Rightarrow> ChatCompletionRequest \<Rightarrow> CallContext \<Rightarrow> Identity \<Rightarrow> props_ref \<Rightarrow> string
     \<Rightarrow> int \<Rightarrow> SelectedRoute list \<Rightarrow> ('w, unit) exec" where
  "executeStream p e req callCtx identity props requestID started routes =
     and_then (slice_to routes (max_attempts (pp_cfg p) routes)) (\<lambda>tried.
     and_then (stream_loop p e req callCtx identity props requestID started tried 0 None)
       (finish_loop p e req identity props requestID started))"

subsection \<open>ExecuteChat\<close>

text \<open>From the routing of the request on.\<close>

definition route_and_execute ::
  "'w Pipeline \<Rightarrow> 'w env \<Rightarrow> ChatCompletionRequest \<Rightarrow> CallContext \<Rightarrow> Identity \<Rightarrow> props_ref
     \<Rightarrow> props_ref RequestSummary \<Rightarrow> string \<Rightarrow> int \<Rightarrow> ('w, unit) exec" where
  "route_and_execute p e req callCtx identity props summary requestID started =
     and_then (choose_routes p callCtx identity summary req) (\<lambda>routes.
     and_then (element routes 0) (\<lambda>first.
       do { ref \<leftarrow> route_props e props first 0 started;
            and_then (emit e ''route.selected'' requestID (id_TenantID identity) ref None) (\<lambda>_.
              if rq_Stream req
              then executeStream p e req callCtx identity props requestID started routes
              else executeNonStream p e req callCtx identity props requestID started routes) }))"

text \<open>The stages between authentication and routing.\<close>

definition admit_and_execute ::
  "'w Pipeline \<Rightarrow> 'w env \<Rightarrow> ChatCompletionRequest \<Rightarrow> CallContext \<Rightarrow> Identity \<Rightarrow> props_ref
     \<Rightarrow> props_ref RequestSummary \<Rightarrow> string \<Rightarrow> int \<Rightarrow> ('w, unit) exec" where
  "admit_and_execute p e req callCtx identity props summary requestID started =
     and_then (emit e ''request.started'' requestID (id_TenantID identity) props None) (\<lambda>_.
     and_then (authorize p callCtx identity summary) (\<lambda>_.
     and_then (resolve_prompt p callCtx identity props req) (\<lambda>req.
     and_then (cache_lookup p e callCtx identity props requestID req) (\<lambda>hit.
       if hit then done_with ()
       else and_then (check_rate_limit p callCtx identity props
                        (rs_EstimatedInputTokens summary) req) (\<lambda>_.
            route_and_execute p e req callCtx identity props summary requestID started)))))"

definition ExecuteChat ::
  "'w Pipeline \<Rightarrow> 'w env \<Rightarrow> ChatCompletionRequest \<Rightarrow> (string \<times> string) list \<Rightarrow> string
     \<Rightarrow> ('w, unit) exec" where
  "ExecuteChat p e req headers sourceIP =
     do { requestID \<leftarrow> new_uuid e;
          update_result (\<lambda>_. initial_result requestID);
          if \<not> pp_ready p then fail (EMissing (pp_missing p))
          else do { started \<leftarrow> now e;
               props \<leftarrow> new_map (fmupd ''requested_model'' (rq_Model req) (extractProperties headers));
               let summary = \<lparr>rs_Operation = ''chat.completions'', rs_RequestedModel = rq_Model req,
                  rs_EstimatedInputTokens = estimateTokens req, rs_Properties = props\<rparr>;
               and_then (authenticate p (initial_context requestID) headers sourceIP)
                 (\<lambda>(identity, callCtx).
                   admit_and_execute p e req callCtx identity props summary requestID started) } }"

subsection \<open>The bounds hold\<close>

text \<open>The minimum with the number of routes keeps the slice within its bounds.\<close>

lemma max_attempts_bounds:
  "0 \<le> max_attempts cfg routes" "max_attempts cfg routes \<le> int (length routes)"
  by (auto simp: max_attempts_def Let_def)

definition tried_routes :: "Config \<Rightarrow> SelectedRoute list \<Rightarrow> SelectedRoute list" where
  "tried_routes cfg routes = take (nat (max_attempts cfg routes)) routes"

lemma slice_to_tried: "slice_to routes (max_attempts cfg routes) = done_with (tried_routes cfg routes)"
  by (simp add: slice_to_def tried_routes_def max_attempts_bounds)

lemma element_first: "routes \<noteq> [] \<Longrightarrow> element routes 0 = done_with (hd routes)"
  by (simp add: element_def hd_conv_nth)

lemma tried_routes_eq:
  "tried_routes cfg routes =
     (if fb_MaxAttempts (cf_Fallbacks cfg) \<le> 0 then routes
      else take (nat (fb_MaxAttempts (cf_Fallbacks cfg))) routes)"
  by (simp add: tried_routes_def max_attempts_def Let_def min_def)

lemma executeNonStream_eq:
  "executeNonStream p e req ctx ident props rid started routes =
     and_then (nonstream_loop p e req ctx ident props rid started (tried_routes (pp_cfg p) routes) 0 None)
       (finish_loop p e req ident props rid started)"
  by (simp add: executeNonStream_def slice_to_tried)

lemma executeStream_eq:
  "executeStream p e req ctx ident props rid started routes =
     and_then (stream_loop p e req ctx ident props rid started (tried_routes (pp_cfg p) routes) 0 None)
       (finish_loop p e req ident props rid started)"
  by (simp add: executeStream_def slice_to_tried)

end
