(* ===== verification/RequestFlow.thy ===== *)
theory RequestFlow
  imports ExecuteRoutes
begin

text \<open>
  The abstract specification of the request path: an automaton over the actions of a request
  (plugin calls with their answers, and events), as the documentation describes the flow. It says
  which action may come next and nothing about how the gateway computes the requests. A refused
  gate closes the request; a retryable failure moves on to the next attempt; after a success only
  the cache, the usage commit, the completion event and the blocking observers remain.

  The machine is a function of the compiled pipeline (which gates exist) and of whether the
  request streams. That \<open>ExecuteChat\<close> refines it is proved in the next theory.
\<close>

datatype gate = GAuthz | GPrompt | GLookup | GCheck | GRoute

datatype finish = TStore | TCommit | TCompleted

datatype phase =
    Arrived
  | Authenticated
  | Gates "gate list"
  | HitFound
  | Selected "SelectedRoute list"
  | Trying "SelectedRoute list"
  | Invoked "SelectedRoute list" goerr
  | GivingUp
  | Finishing "finish list"
  | Observing nat
  | StreamOpen
  | Closed

definition gates :: "'w Pipeline \<Rightarrow> bool \<Rightarrow> gate list" where
  "gates p stream =
     (if pp_authz p \<noteq> None then [GAuthz] else [])
     @ (if pp_prompt p \<noteq> None then [GPrompt] else [])
     @ (if pp_cache p \<noteq> None \<and> \<not> stream then [GLookup] else [])
     @ (if pp_ratelimit p \<noteq> None then [GCheck] else [])
     @ [GRoute]"

definition finishes :: "'w Pipeline \<Rightarrow> finish list" where
  "finishes p =
     (if pp_cache p \<noteq> None then [TStore] else [])
     @ (if pp_ratelimit p \<noteq> None then [TCommit] else [])
     @ [TCompleted]"

text \<open>
  The routes that are tried: as many of the first as the configuration allows, all of them when it
  sets no positive limit, without unknown providers.
\<close>

definition attempts :: "'w Pipeline \<Rightarrow> SelectedRoute list \<Rightarrow> SelectedRoute list" where
  "attempts p routes =
     filter (\<lambda>r. fmlookup (pp_upstreams p) (sr_ProviderInstance r) \<noteq> None)
       (if fb_MaxAttempts (cf_Fallbacks (pp_cfg p)) \<le> 0 then routes
        else take (nat (fb_MaxAttempts (cf_Fallbacks (pp_cfg p)))) routes)"

text \<open>
  How an invocation failed, if it did: by its error, or, when the response is collected, by the
  first error chunk. A streaming invocation counts as a success once it is open.
\<close>

definition invoke_error :: "bool \<Rightarrow> goerr + ResponseChunk list \<Rightarrow> goerr option" where
  "invoke_error stream answer =
     (case answer of
        Inl err \<Rightarrow> Some err
      | Inr chunks \<Rightarrow> if stream then None else map_option EUpstream (first_error chunks))"

definition after :: "bool \<Rightarrow> phase \<Rightarrow> phase option" where
  "after ok ph = Some (if ok then ph else Closed)"

definition on_event :: "string \<Rightarrow> event \<Rightarrow> phase \<Rightarrow> phase option" where
  "on_event name ev ph = (if ev_EventType ev = name then Some ph else None)"

definition advance_gate :: "gate \<Rightarrow> gate list \<Rightarrow> action \<Rightarrow> phase option" where
  "advance_gate g gs a =
     (case (g, a) of
        (GAuthz, ACallAuthz rq ans) \<Rightarrow> after (\<exists>r. ans = Inr r \<and> zr_Allow r) (Gates gs)
      | (GPrompt, ACallPrompt rq ans) \<Rightarrow> after (\<exists>r. ans = Inr r) (Gates gs)
      | (GLookup, ACallLookup rq ans) \<Rightarrow>
          (case ans of Inl e \<Rightarrow> Some (Gates gs)
           | Inr r \<Rightarrow> Some (if kr_Hit r then HitFound else Gates gs))
      | (GCheck, ACallCheck rq ans) \<Rightarrow> after (\<exists>r. ans = Inr r \<and> lr_Decision r \<noteq> ''deny'') (Gates gs)
      | (GRoute, ACallRoute rq ans) \<Rightarrow>
          (case ans of Inl e \<Rightarrow> Some Closed
           | Inr r \<Rightarrow> Some (if tr_Routes r = [] then Closed else Selected (tr_Routes r)))
      | _ \<Rightarrow> None)"

definition advance :: "'w Pipeline \<Rightarrow> bool \<Rightarrow> phase \<Rightarrow> action \<Rightarrow> phase option" where
  "advance p stream ph a =
     (case (ph, a) of
        (Arrived, ACallAuthn rq ans) \<Rightarrow> after (\<exists>r. ans = Inr r \<and> ar_Allow r) Authenticated
      | (Authenticated, AEvent ev) \<Rightarrow> on_event ''request.started'' ev (Gates (gates p stream))
      | (Gates (g # gs), a) \<Rightarrow> advance_gate g gs a
      | (HitFound, AEvent ev) \<Rightarrow> on_event ''cache.hit'' ev Closed
      | (Selected rs, AEvent ev) \<Rightarrow> on_event ''route.selected'' ev (Trying (attempts p rs))
      | (Trying (r # rs), ACallInvoke name rq ans) \<Rightarrow>
          if name = sr_ProviderInstance r \<and> iq_ProviderModel rq = sr_ProviderModel r
          then Some (case invoke_error stream ans of
                       Some err \<Rightarrow> Invoked rs err
                     | None \<Rightarrow> if stream then StreamOpen else Finishing (finishes p))
          else None
      | (Trying [], AEvent ev) \<Rightarrow> on_event ''request.failed'' ev Closed
      | (Invoked rs err, AEvent ev) \<Rightarrow>
          on_event ''upstream.error'' ev (if retryable err then Trying rs else GivingUp)
      | (GivingUp, AEvent ev) \<Rightarrow> on_event ''request.failed'' ev Closed
      | (Finishing (TStore # ts), ACallStore rq ans) \<Rightarrow> Some (Finishing ts)
      | (Finishing (TCommit # ts), ACallCommit rq ans) \<Rightarrow> Some (Finishing ts)
      | (Finishing (TCompleted # ts), AEvent ev) \<Rightarrow>
          on_event ''request.completed'' ev (Observing (length (pp_blockingObservers p)))
      | (Observing (Suc n), ACallObserve evs ans) \<Rightarrow> after (\<exists>u. ans = Inr u) (Observing n)
      | _ \<Rightarrow> None)"

fun follow :: "'w Pipeline \<Rightarrow> bool \<Rightarrow> phase \<Rightarrow> action list \<Rightarrow> phase option" where
  "follow p stream ph [] = Some ph"
| "follow p stream ph (a # as) =
     (case advance p stream ph a of None \<Rightarrow> None | Some ph' \<Rightarrow> follow p stream ph' as)"

definition entry :: "'w Pipeline \<Rightarrow> phase" where
  "entry p = (if au_Anonymous (cf_Auth (pp_cfg p)) then Authenticated else Arrived)"

lemma follow_append:
  "follow p st ph (xs @ ys) = Option.bind (follow p st ph xs) (\<lambda>ph'. follow p st ph' ys)"
  by (induction xs arbitrary: ph) (auto split: option.splits)

lemma follow_snoc:
  "follow p st ph acts = Some ph1 \<Longrightarrow> advance p st ph1 a = Some ph2 \<Longrightarrow>
     follow p st ph (acts @ [a]) = Some ph2"
  by (simp add: follow_append)


subsection \<open>Case analysis of the steps\<close>

lemma after_Some [simp]: "after ok ph = Some ph' \<longleftrightarrow> ph' = (if ok then ph else Closed)"
  by (auto simp: after_def)

lemma on_event_Some [simp]: "on_event name ev ph = Some ph' \<longleftrightarrow> ev_EventType ev = name \<and> ph' = ph"
  by (auto simp: on_event_def)

lemma advance_gate_elim:
  assumes "advance_gate g gs a = Some ph'"
  obtains
    (authz) rq ans where "g = GAuthz" "a = ACallAuthz rq ans"
      "ph' = (if \<exists>r. ans = Inr r \<and> zr_Allow r then Gates gs else Closed)"
  | (prompt) rq ans where "g = GPrompt" "a = ACallPrompt rq ans"
      "ph' = (if \<exists>r. ans = Inr r then Gates gs else Closed)"
  | (lookup) rq ans where "g = GLookup" "a = ACallLookup rq ans"
      "ph' = (if \<exists>r. ans = Inr r \<and> kr_Hit r then HitFound else Gates gs)"
  | (check) rq ans where "g = GCheck" "a = ACallCheck rq ans"
      "ph' = (if \<exists>r. ans = Inr r \<and> lr_Decision r \<noteq> ''deny'' then Gates gs else Closed)"
  | (route) rq ans where "g = GRoute" "a = ACallRoute rq ans"
      "ph' = (case ans of Inl e \<Rightarrow> Closed
              | Inr r \<Rightarrow> if tr_Routes r = [] then Closed else Selected (tr_Routes r))"
proof (cases g)
  case GAuthz
  with assms authz show ?thesis by (cases a) (simp_all add: advance_gate_def)
next
  case GPrompt
  with assms prompt show ?thesis by (cases a) (simp_all add: advance_gate_def)
next
  case GLookup
  with assms show ?thesis
    by (cases a) (auto simp: advance_gate_def intro!: lookup split: sum.splits)
next
  case GCheck
  with assms check show ?thesis by (cases a) (simp_all add: advance_gate_def)
next
  case GRoute
  with assms show ?thesis
    by (cases a) (auto simp: advance_gate_def intro!: route split: sum.splits)
qed

lemma advance_elim:
  assumes "advance p st ph a = Some ph'"
  obtains
    (authn) rq ans where "ph = Arrived" "a = ACallAuthn rq ans"
      "ph' = (if \<exists>r. ans = Inr r \<and> ar_Allow r then Authenticated else Closed)"
  | (started) ev where "ph = Authenticated" "a = AEvent ev" "ev_EventType ev = ''request.started''"
      "ph' = Gates (gates p st)"
  | (gate) g gs where "ph = Gates (g # gs)" "advance_gate g gs a = Some ph'"
  | (hit) ev where "ph = HitFound" "a = AEvent ev" "ev_EventType ev = ''cache.hit''" "ph' = Closed"
  | (selected) rs ev where "ph = Selected rs" "a = AEvent ev" "ev_EventType ev = ''route.selected''"
      "ph' = Trying (attempts p rs)"
  | (invoke) r rs rq ans where "ph = Trying (r # rs)"
      "a = ACallInvoke (sr_ProviderInstance r) rq ans" "iq_ProviderModel rq = sr_ProviderModel r"
      "ph' = (case invoke_error st ans of Some err \<Rightarrow> Invoked rs err
              | None \<Rightarrow> if st then StreamOpen else Finishing (finishes p))"
  | (exhausted) ev where "ph = Trying []" "a = AEvent ev" "ev_EventType ev = ''request.failed''"
      "ph' = Closed"
  | (upstream_error) rs err ev where "ph = Invoked rs err" "a = AEvent ev"
      "ev_EventType ev = ''upstream.error''" "ph' = (if retryable err then Trying rs else GivingUp)"
  | (gave_up) ev where "ph = GivingUp" "a = AEvent ev" "ev_EventType ev = ''request.failed''"
      "ph' = Closed"
  | (store) ts rq ans where "ph = Finishing (TStore # ts)" "a = ACallStore rq ans" "ph' = Finishing ts"
  | (commit) ts rq ans where "ph = Finishing (TCommit # ts)" "a = ACallCommit rq ans" "ph' = Finishing ts"
  | (completed) ts ev where "ph = Finishing (TCompleted # ts)" "a = AEvent ev"
      "ev_EventType ev = ''request.completed''" "ph' = Observing (length (pp_blockingObservers p))"
  | (observe) n evs ans where "ph = Observing (Suc n)" "a = ACallObserve evs ans"
      "ph' = (if \<exists>u. ans = Inr u then Observing n else Closed)"
proof (cases ph)
  case Arrived
  with assms authn show ?thesis by (cases a) (simp_all add: advance_def)
next
  case Authenticated
  with assms started show ?thesis by (cases a) (auto simp: advance_def)
next
  case (Gates gs)
  with assms gate show ?thesis by (cases gs; cases a) (auto simp: advance_def)
next
  case HitFound
  with assms hit show ?thesis by (cases a) (auto simp: advance_def)
next
  case (Selected rs)
  with assms selected show ?thesis by (cases a) (auto simp: advance_def)
next
  case (Trying rs)
  with assms invoke exhausted show ?thesis
    by (cases rs; cases a) (simp_all add: advance_def split: if_splits)
next
  case (Invoked rs err)
  with assms upstream_error show ?thesis by (cases a) (auto simp: advance_def)
next
  case GivingUp
  with assms gave_up show ?thesis by (cases a) (auto simp: advance_def)
next
  case (Finishing ts)
  show ?thesis
  proof (cases ts)
    case Nil
    with Finishing assms show ?thesis by (simp add: advance_def)
  next
    case (Cons u us)
    with Finishing assms store commit completed show ?thesis
      by (cases u; cases a) (auto simp: advance_def)
  qed
next
  case (Observing n)
  with assms observe show ?thesis by (cases n; cases a) (simp_all add: advance_def)
qed (use assms in \<open>simp_all add: advance_def\<close>)

text \<open>
  Induction over what has happened so far: a predicate of the history and the phase that holds at
  the start and is kept by every step.
\<close>

lemma follow_invariant:
  assumes "follow p st ph0 acts = Some ph" and "I [] ph0"
    and step: "\<And>hist ph a ph'. I hist ph \<Longrightarrow> advance p st ph a = Some ph' \<Longrightarrow> I (hist @ [a]) ph'"
  shows "I acts ph"
  using assms(1)
proof (induction acts arbitrary: ph rule: rev_induct)
  case Nil
  with assms(2) show ?case by simp
next
  case (snoc a acts)
  then obtain ph1 where "follow p st ph0 acts = Some ph1" "advance p st ph1 a = Some ph"
    by (auto simp: follow_append split: Option.bind_splits option.splits)
  then show ?case using snoc.IH step by blast
qed

text \<open>The phase before an action of the history.\<close>

lemma follow_before:
  assumes "follow p st ph0 (pre @ a # post) = Some ph"
  obtains ph1 ph2 where "follow p st ph0 pre = Some ph1" "advance p st ph1 a = Some ph2"
    "follow p st ph2 post = Some ph"
  using assms by (auto simp: follow_append split: Option.bind_splits option.splits)

end
