(* ===== verification/ExecuteRefines.thy ===== *)
theory ExecuteRefines
  imports RequestFlow
begin

text \<open>
  \<open>ExecuteChat\<close> refines the request-flow automaton: every run performs actions the automaton
  accepts, stage by stage. \<open>sim\<close> relates a state of the run to a phase; each stage has one lemma
  that takes the phase before it to the phase after it, or stops the request.
\<close>

subsection \<open>Steps outside the trace\<close>

definition same_history :: "'w xstate \<Rightarrow> 'w xstate \<Rightarrow> bool" where
  "same_history s t \<longleftrightarrow> x_trace t = x_trace s \<and> x_queue t = x_queue s"

interpretation quiet: step_relation same_history
  by unfold_locales (simp_all add: same_history_def)

lemma quiet_new_uuid: "state_io_rel same_history (new_uuid e)"
  by (auto simp: state_io_rel_def new_uuid_def same_history_def split: prod.splits)

lemma quiet_now: "state_io_rel same_history (now e)"
  by (auto simp: state_io_rel_def now_def same_history_def split: prod.splits)

lemma quiet_new_map: "state_io_rel same_history (new_map m)"
  by (auto simp: state_io_rel_def new_map_def same_history_def)

lemma quiet_read_map: "state_io_rel same_history (read_map r)"
  unfolding read_map_def by (rule quiet.keeps_reads)

lemma quiet_write_map: "state_io_rel same_history (write_map r f)"
  unfolding write_map_def by (rule quiet.keeps_modify) (simp add: same_history_def)

lemma quiet_set_header: "state_io_rel same_history (set_header k v)"
  unfolding set_header_def by (rule quiet.keeps_modify) (simp add: same_history_def)

lemma quiet_update_result: "state_io_rel same_history (update_result f)"
  unfolding update_result_def by (rule quiet.keeps_modify) (simp add: same_history_def)

lemmas quiet_prims = quiet_new_uuid quiet_now quiet_new_map quiet_read_map quiet_write_map
  quiet_set_header quiet_update_result quiet.keeps_return quiet.keeps_bind

lemma quiet_summary_value: "state_io_rel same_history (summary_value s)"
  unfolding summary_value_def by (intro quiet_prims)

lemma quiet_rate_limit_headers: "state_io_rel same_history (rate_limit_headers st)"
  unfolding rate_limit_headers_def by (intro quiet.keeps_if quiet_prims)

lemma quiet_route_props: "state_io_rel same_history (route_props e ref r i started)"
  unfolding route_props_def by (intro quiet_prims)

lemma quiet_timed_props: "state_io_rel same_history (timed_props e ref started)"
  unfolding timed_props_def by (intro quiet_prims)

lemma quiet_transcript_props: "state_io_rel same_history (transcript_props p ref req resp)"
  unfolding transcript_props_def by (intro quiet.keeps_if quiet_prims)

lemma quiet_announce_route: "state_io_rel same_history (announce_route r i)"
  unfolding announce_route_def by (intro quiet_prims)

lemma quiet_collectResponse: "state_io_rel same_history (collectResponse e chunks model)"
  unfolding collectResponse_def Let_def by (intro quiet.keeps_sum quiet.keeps_if quiet_prims)

lemmas quiet_steps = quiet_new_uuid quiet_now quiet_new_map quiet_read_map quiet_write_map
  quiet_set_header quiet_update_result quiet_summary_value quiet_rate_limit_headers
  quiet_route_props quiet_timed_props quiet_transcript_props quiet_announce_route
  quiet_collectResponse

subsection \<open>The simulation relation\<close>

definition sim :: "'w Pipeline \<Rightarrow> bool \<Rightarrow> action list \<Rightarrow> phase \<Rightarrow> 'w xstate \<Rightarrow> bool" where
  "sim p st tr ph s \<longleftrightarrow> queue_inv (x_queue s) \<and>
     (\<exists>acts. x_trace s = tr @ acts \<and> follow p st (entry p) acts = Some ph)"

definition stops :: "'w Pipeline \<Rightarrow> bool \<Rightarrow> action list \<Rightarrow> halt \<Rightarrow> 'w xstate \<Rightarrow> bool" where
  "stops p st tr h t \<longleftrightarrow> (\<exists>err. h = Failed err) \<and> (sim p st tr Closed t \<or> sim p st tr (Gates [GRoute]) t)"

definition leads ::
  "'w Pipeline \<Rightarrow> bool \<Rightarrow> action list \<Rightarrow> ('a \<Rightarrow> phase) \<Rightarrow> halt + 'a \<Rightarrow> 'w xstate \<Rightarrow> bool" where
  "leads p st tr f r t = (case r of Inl h \<Rightarrow> stops p st tr h t | Inr a \<Rightarrow> sim p st tr (f a) t)"

lemma leads_simps [simp]:
  "leads p st tr f (Inl h) t = stops p st tr h t"
  "leads p st tr f (Inr a) t = sim p st tr (f a) t"
  by (simp_all add: leads_def)

lemma stops_Closed [intro]: "sim p st tr Closed t \<Longrightarrow> stops p st tr (Failed err) t"
  by (auto simp: stops_def)

lemma sim_quiet: "same_history s t \<Longrightarrow> sim p st tr ph s \<Longrightarrow> sim p st tr ph t"
  by (simp add: sim_def same_history_def)

lemma wp_quiet:
  assumes "state_io_rel same_history m" and "sim p st tr ph s"
    and "\<And>a t. sim p st tr ph t \<Longrightarrow> Q a t"
  shows "wp m Q s"
proof (rule wpI)
  fix a t
  assume "run_state m s = (a, t)"
  then have "same_history s t" by (rule quiet.keeps_run [OF assms(1)])
  then show "Q a t" using assms(2) by (intro assms(3)) (rule sim_quiet)
qed

lemma sim_action:
  assumes "sim p st tr ph s" and "advance p st ph a = Some ph'"
    and "x_trace t = x_trace s @ [a]" and "queue_inv (x_queue t)"
  shows "sim p st tr ph' t"
  using assms follow_snoc [of p st "entry p" _ ph a ph'] by (auto simp: sim_def)

lemma wp_call:
  assumes "sim p st tr ph s" and "\<And>ans. advance p st ph (mk a ans) = Some (f ans)"
    and "\<And>ans t. sim p st tr (f ans) t \<Longrightarrow> Q ans t"
  shows "wp (call mk m a) Q s"
proof (rule wpI)
  fix ans t
  assume "run_state (call mk m a) s = (ans, t)"
  then have tr: "x_trace t = x_trace s @ [mk a ans]" and q: "x_queue t = x_queue s"
    by (auto simp: call_def split: prod.splits)
  have "queue_inv (x_queue t)" using assms(1) q by (simp add: sim_def)
  with tr have "sim p st tr (f ans) t" by (rule sim_action [OF assms(1,2)])
  then show "Q ans t" by (rule assms(3))
qed

lemma wp_enqueue:
  assumes "sim p st tr ph s" and "advance p st ph (AEvent ev) = Some ph'"
    and "\<And>t. sim p st tr ph' t \<Longrightarrow> Q (Inr ()) t"
  shows "wp (enqueue ev) Q s"
proof -
  have inv: "queue_inv (x_queue s)" using assms(1) by (simp add: sim_def)
  obtain ok q where enq: "Enqueue ev (x_queue s) = Some (ok, q)"
    using event_queue.enq_total [OF inv] by fastforce
  have "queue_inv q" using inv enq by (rule Enqueue_inv)
  then have "sim p st tr ph' (s\<lparr>x_queue := q, x_trace := x_trace s @ [AEvent ev]\<rparr>)"
    by (intro sim_action [OF assms(1,2), of "s\<lparr>x_queue := q, x_trace := x_trace s @ [AEvent ev]\<rparr>"])
      simp_all
  then show ?thesis
    by (auto simp: wp_def enqueue_def enq intro: assms(3))
qed

lemma wp_emit:
  assumes "sim p st tr ph s"
    and "\<And>ev. ev_EventType ev = name \<Longrightarrow> advance p st ph (AEvent ev) = Some ph'"
    and "\<And>t. sim p st tr ph' t \<Longrightarrow> Q (Inr ()) t"
  shows "wp (emit e name rid ten ref usage) Q s"
  unfolding emit_def
  by (rule wp_bind, rule wp_quiet [OF quiet_new_uuid assms(1)], rule wp_bind,
      erule wp_quiet [OF quiet_now], erule wp_enqueue) (auto intro: assms(2,3))

lemma wp_emitError:
  assumes "sim p st tr ph s"
    and "\<And>ev. ev_EventType ev = name \<Longrightarrow> advance p st ph (AEvent ev) = Some ph'"
    and "\<And>t. sim p st tr ph' t \<Longrightarrow> Q (Inr ()) t"
  shows "wp (emitError e name rid ten ref err) Q s"
  unfolding emitError_def
  by (rule wp_bind, rule wp_quiet [OF quiet_new_uuid assms(1)], rule wp_bind,
      erule wp_quiet [OF quiet_now], erule wp_enqueue) (auto intro: assms(2,3))

lemma wp_fail: "Q (Inl (Failed err)) s \<Longrightarrow> wp (fail err) Q s"
  by (simp add: fail_def wp_raise)

text \<open>One stage after another: the first ends in a phase, or the request stops.\<close>

lemma wp_then_stage:
  assumes "wp m (leads p st tr f) s" and "\<And>a t. sim p st tr (f a) t \<Longrightarrow> wp (k a) (leads p st tr g) t"
  shows "wp (and_then m k) (leads p st tr g) s"
  by (rule wp_and_then, rule wp_mono [OF assms(1)]) (auto simp: assms(2) split: sum.splits)

subsection \<open>The stages before the routes\<close>

lemmas advance_simps = advance_def advance_gate_def after_def on_event_def

lemma sim_authenticate:
  assumes "sim p st tr (entry p) s" and "au_Anonymous (cf_Auth (pp_cfg p)) \<or> pp_authn p \<noteq> None"
  shows "wp (authenticate p ctx headers ip) (leads p st tr (\<lambda>_. Authenticated)) s"
proof (cases "au_Anonymous (cf_Auth (pp_cfg p))")
  case True
  with assms(1) show ?thesis
    by (simp add: authenticate_def entry_def wp_done_with)
next
  case False
  with assms(2) obtain authn where "pp_authn p = Some authn" by auto
  moreover have arrived: "sim p st tr Arrived s" using assms(1) False by (simp add: entry_def)
  let ?f = "\<lambda>ans. if \<exists>r. ans = Inr r \<and> ar_Allow r then Authenticated else Closed"
  have "advance p st Arrived (ACallAuthn rq ans) = Some (?f ans)" for rq ans
    by (simp add: advance_simps)
  ultimately show ?thesis
    unfolding authenticate_def using False
    by (simp, intro wp_bind wp_call [OF arrived, where f = ?f])
      (auto intro!: wp_sum wp_fail wp_if wp_done_with)
qed

lemma sim_authorize:
  assumes "sim p st tr (Gates ((if pp_authz p \<noteq> None then [GAuthz] else []) @ gs)) s"
  shows "wp (authorize p ctx ident summary) (leads p st tr (\<lambda>_. Gates gs)) s"
proof (cases "pp_authz p")
  case None
  with assms show ?thesis by (simp add: authorize_def wp_done_with)
next
  case (Some authz)
  let ?f = "\<lambda>ans. if \<exists>r. ans = Inr r \<and> zr_Allow r then Gates gs else Closed"
  have adv: "advance p st (Gates (GAuthz # gs)) (ACallAuthz rq ans) = Some (?f ans)" for rq ans
    by (simp add: advance_simps)
  from assms Some have s: "sim p st tr (Gates (GAuthz # gs)) s" by simp
  show ?thesis
    unfolding authorize_def Some option.case
    by (rule wp_bind, rule wp_quiet [OF quiet_summary_value s], rule wp_bind,
        erule wp_call [where f = ?f], rule adv)
      (auto intro!: wp_sum wp_fail wp_if wp_done_with)
qed

lemma sim_resolve_prompt:
  assumes "sim p st tr (Gates ((if pp_prompt p \<noteq> None then [GPrompt] else []) @ gs)) s"
  shows "wp (resolve_prompt p ctx ident ref req)
     (\<lambda>r t. leads p st tr (\<lambda>_. Gates gs) r t \<and> (\<forall>req'. r = Inr req' \<longrightarrow> rq_Stream req' = rq_Stream req)) s"
proof (cases "pp_prompt p")
  case None
  with assms show ?thesis by (simp add: resolve_prompt_def wp_done_with)
next
  case (Some prompt)
  let ?f = "\<lambda>ans. if \<exists>r. ans = Inr r then Gates gs else Closed"
  have adv: "advance p st (Gates (GPrompt # gs)) (ACallPrompt rq ans) = Some (?f ans)" for rq ans
    by (simp add: advance_simps)
  from assms Some have s: "sim p st tr (Gates (GPrompt # gs)) s" by simp
  show ?thesis
    unfolding resolve_prompt_def Some option.case
    by (rule wp_bind, rule wp_quiet [OF quiet_read_map s], rule wp_bind,
        erule wp_call [where f = ?f], rule adv)
      (auto intro!: wp_sum wp_fail wp_if wp_done_with wp_bind elim!: wp_quiet [OF quiet_write_map])
qed

lemma sim_cache_lookup:
  assumes "sim p st tr (Gates ((if pp_cache p \<noteq> None \<and> \<not> st then [GLookup] else []) @ gs)) s"
    and "rq_Stream req = st"
  shows "wp (cache_lookup p e ctx ident ref rid req)
     (leads p st tr (\<lambda>hit. if hit then Closed else Gates gs)) s"
proof (cases "pp_cache p = None \<or> st")
  case True
  with assms show ?thesis
    by (auto simp: cache_lookup_def intro!: wp_done_with split: option.splits)
next
  case False
  then obtain cache where Some: "pp_cache p = Some cache" and st: "\<not> st" by auto
  let ?f = "\<lambda>ans. case ans of Inl err \<Rightarrow> Gates gs | Inr r \<Rightarrow> if kr_Hit r then HitFound else Gates gs"
  have adv: "advance p st (Gates (GLookup # gs)) (ACallLookup rq ans) = Some (?f ans)" for rq ans
    by (simp add: advance_simps split: sum.splits)
  have hit: "ev_EventType ev = ''cache.hit'' \<Longrightarrow> advance p st HitFound (AEvent ev) = Some Closed" for ev
    by (simp add: advance_simps)
  from assms False Some have s: "sim p st tr (Gates (GLookup # gs)) s" by simp
  show ?thesis
    unfolding cache_lookup_def Some option.case
    using st assms(2)
    apply (simp only: if_False)
    apply (rule wp_bind, rule wp_quiet [OF quiet_read_map s], rule wp_bind,
        erule wp_call [where f = ?f], rule adv)
    subgoal for m t ans u
    proof (cases "\<exists>r. ans = Inr r \<and> kr_Hit r")
      case True
      then obtain r where r: "ans = Inr r" "kr_Hit r" by blast
      assume "sim p st tr (?f ans) u"
      with r have "sim p st tr HitFound u" by simp
      then show ?thesis unfolding r sum.case if_P [OF r(2)]
        by (intro wp_bind, elim wp_quiet [OF quiet_update_result], intro wp_bind,
            elim wp_quiet [OF quiet_set_header], intro wp_and_then, elim wp_emit [where ph' = Closed])
          (use st in \<open>simp_all add: advance_simps wp_done_with\<close>)
    next
      case False
      assume "sim p st tr (?f ans) u"
      with False have u: "sim p st tr (Gates gs) u" by (auto split: sum.splits)
      have miss: "wp (State_Monad.bind (set_header k v) (\<lambda>_. done_with False))
          (leads p st tr (\<lambda>hit. if hit then Closed else Gates gs)) u" for k v
        by (rule wp_bind, rule wp_quiet [OF quiet_set_header u]) (simp add: wp_done_with)
      from False show ?thesis using miss st by (auto split: sum.splits)
    qed
    done
qed

text \<open>A streaming request is never answered from the cache.\<close>

lemma lookup_hit:
  "wp (cache_lookup p e ctx ident ref rid req) (\<lambda>r t. r = Inr True \<longrightarrow> \<not> rq_Stream req) s"
  by (simp add: cache_lookup_def wp_def split: option.splits prod.splits)

lemma sim_check_rate_limit:
  assumes "sim p st tr (Gates ((if pp_ratelimit p \<noteq> None then [GCheck] else []) @ gs)) s"
  shows "wp (check_rate_limit p ctx ident ref est req) (leads p st tr (\<lambda>_. Gates gs)) s"
proof (cases "pp_ratelimit p")
  case None
  with assms show ?thesis by (simp add: check_rate_limit_def wp_done_with)
next
  case (Some rl)
  let ?f = "\<lambda>ans. if \<exists>r. ans = Inr r \<and> lr_Decision r \<noteq> ''deny'' then Gates gs else Closed"
  have adv: "advance p st (Gates (GCheck # gs)) (ACallCheck rq ans) = Some (?f ans)" for rq ans
    by (simp add: advance_simps)
  from assms Some have s: "sim p st tr (Gates (GCheck # gs)) s" by simp
  show ?thesis
    unfolding check_rate_limit_def Some option.case
    by (rule wp_bind, rule wp_quiet [OF quiet_read_map s], rule wp_bind,
        erule wp_call [where f = ?f], rule adv)
      (auto intro!: wp_sum wp_fail wp_if wp_done_with wp_bind elim!: wp_quiet [OF quiet_rate_limit_headers])
qed

lemma sim_choose_routes:
  assumes "sim p st tr (Gates [GRoute]) s" and "pp_router p \<noteq> None"
  shows "wp (choose_routes p ctx ident summary req)
     (\<lambda>r t. leads p st tr Selected r t \<and> (\<forall>rs. r = Inr rs \<longrightarrow> rs \<noteq> [])) s"
proof (cases "Candidates (pp_models p) (rq_Model req)")
  case (Inl err)
  with assms(1) show ?thesis by (simp add: choose_routes_def wp_fail stops_def)
next
  case (Inr cands)
  from assms(2) obtain router where Some: "pp_router p = Some router" by auto
  let ?f = "\<lambda>ans. case ans of Inl err \<Rightarrow> Closed
    | Inr r \<Rightarrow> if tr_Routes r = [] then Closed else Selected (tr_Routes r)"
  have adv: "advance p st (Gates [GRoute]) (ACallRoute rq ans) = Some (?f ans)" for rq ans
    by (simp add: advance_simps split: sum.splits)
  show ?thesis
    unfolding choose_routes_def Some Inr option.case sum.case
    by (rule wp_bind, rule wp_quiet [OF quiet_summary_value assms(1)], rule wp_bind,
        erule wp_call [where f = ?f], rule adv)
      (auto intro!: wp_sum wp_fail wp_if wp_done_with)
qed

subsection \<open>The routes\<close>

lemma sim_blocking_observers:
  "sim p st tr (Observing (length obs)) s \<Longrightarrow>
     wp (blocking_observers e obs rid ident ref usage) (leads p st tr (\<lambda>_. Observing 0)) s"
proof (induction obs arbitrary: s)
  case Nil
  then show ?case by (simp add: wp_done_with)
next
  case (Cons ob obs)
  let ?f = "\<lambda>ans. if \<exists>u. ans = Inr u then Observing (length obs) else Closed"
  have adv: "advance p st (Observing (length (ob # obs))) (ACallObserve rq ans) = Some (?f ans)" for rq ans
    by (simp add: advance_simps)
  show ?case
    unfolding blocking_observers.simps
    by (rule wp_bind, rule wp_quiet [OF quiet_new_uuid Cons.prems], rule wp_bind,
        erule wp_quiet [OF quiet_now], rule wp_bind, erule wp_quiet [OF quiet_read_map], rule wp_bind,
        erule wp_call [where f = ?f], rule adv)
      (auto intro!: wp_sum wp_fail Cons.IH)
qed

lemma sim_store_in_cache:
  assumes "sim p st tr (Finishing ((if pp_cache p \<noteq> None then [TStore] else []) @ ts)) s"
    and "\<And>t. sim p st tr (Finishing ts) t \<Longrightarrow> Q () t"
  shows "wp (store_in_cache p e ctx ident req ref resp usage) Q s"
proof (cases "pp_cache p")
  case None
  with assms show ?thesis by (simp add: store_in_cache_def wp_return)
next
  case (Some cache)
  have adv: "advance p st (Finishing (TStore # ts)) (ACallStore rq ans) = Some (Finishing ts)" for rq ans
    by (simp add: advance_simps)
  from assms(1) Some have s: "sim p st tr (Finishing (TStore # ts)) s" by simp
  show ?thesis
    unfolding store_in_cache_def Some option.case
    by (rule wp_bind, rule wp_quiet [OF quiet_read_map s], rule wp_bind,
        erule wp_call [where f = "\<lambda>_. Finishing ts"], rule adv) (auto intro!: wp_return assms(2))
qed

lemma sim_commit_usage:
  assumes "sim p st tr (Finishing ((if pp_ratelimit p \<noteq> None then [TCommit] else []) @ ts)) s"
    and "\<And>t. sim p st tr (Finishing ts) t \<Longrightarrow> Q () t"
  shows "wp (commit_usage p ctx ident usage) Q s"
proof (cases "pp_ratelimit p")
  case None
  with assms show ?thesis by (simp add: commit_usage_def wp_return)
next
  case (Some rl)
  have adv: "advance p st (Finishing (TCommit # ts)) (ACallCommit rq ans) = Some (Finishing ts)" for rq ans
    by (simp add: advance_simps)
  from assms(1) Some have s: "sim p st tr (Finishing (TCommit # ts)) s" by simp
  show ?thesis
    unfolding commit_usage_def Some option.case
    by (rule wp_bind, rule wp_call [OF s, where f = "\<lambda>_. Finishing ts"], rule adv)
      (auto intro!: wp_return assms(2))
qed

lemma sim_afterSuccess:
  assumes "sim p st tr (Finishing (finishes p)) s"
  shows "wp (afterSuccess p e ctx ident req ref rid resp usage) (leads p st tr (\<lambda>_. Observing 0)) s"
proof -
  have completed: "ev_EventType ev = ''request.completed'' \<Longrightarrow>
      advance p st (Finishing [TCompleted]) (AEvent ev) =
        Some (Observing (length (pp_blockingObservers p)))" for ev
    by (simp add: advance_simps)
  have fin: "sim p st tr (Finishing ((if pp_cache p \<noteq> None then [TStore] else []) @
      (if pp_ratelimit p \<noteq> None then [TCommit] else []) @ [TCompleted])) t"
    if "sim p st tr (Finishing (finishes p)) t" for t
    using that by (simp only: finishes_def)
  show ?thesis
    unfolding afterSuccess_def
    by (rule wp_bind, rule wp_quiet [OF quiet_transcript_props assms], rule wp_bind,
        erule sim_store_in_cache [OF fin], rule wp_bind,
        erule sim_commit_usage, rule wp_and_then, erule wp_emit, erule completed)
      (simp add: sim_blocking_observers)
qed

text \<open>The phase a loop ends in.\<close>

definition loop_phase :: "bool \<Rightarrow> loop_end \<Rightarrow> phase \<Rightarrow> bool" where
  "loop_phase st r ph \<longleftrightarrow>
     (case r of Served \<Rightarrow> ph = (if st then StreamOpen else Observing 0)
      | Exhausted err \<Rightarrow> ph = Trying [] \<or> ph = GivingUp)"

definition loop_post ::
  "'w Pipeline \<Rightarrow> bool \<Rightarrow> action list \<Rightarrow> halt + loop_end \<Rightarrow> 'w xstate \<Rightarrow> bool" where
  "loop_post p st tr r t =
     (case r of Inl h \<Rightarrow> stops p st tr h t | Inr x \<Rightarrow> (\<exists>ph. sim p st tr ph t \<and> loop_phase st x ph))"

lemma sim_upstream_failed:
  assumes "sim p st tr (Invoked rs err) s"
    and "\<And>t. sim p st tr (Trying rs) t \<Longrightarrow> wp next_try (loop_post p st tr) t"
  shows "wp (upstream_failed e rid ident ref err next_try) (loop_post p st tr) s"
proof -
  have ev: "ev_EventType ev = ''upstream.error'' \<Longrightarrow>
      advance p st (Invoked rs err) (AEvent ev) = Some (if retryable err then Trying rs else GivingUp)"
    for ev by (simp add: advance_simps)
  show ?thesis
    unfolding upstream_failed_def
    by (rule wp_and_then, rule wp_emitError [OF assms(1)], erule ev)
      (auto intro!: wp_if assms(2) wp_done_with simp: loop_post_def loop_phase_def)
qed

definition configured :: "'w Pipeline \<Rightarrow> SelectedRoute list \<Rightarrow> SelectedRoute list" where
  "configured p = filter (\<lambda>r. fmlookup (pp_upstreams p) (sr_ProviderInstance r) \<noteq> None)"

lemma advance_invoke:
  "sr_ProviderInstance r = name \<Longrightarrow> iq_ProviderModel rq = sr_ProviderModel r \<Longrightarrow>
     advance p st (Trying (r # rs)) (ACallInvoke name rq ans) =
       Some (case invoke_error st ans of Some err \<Rightarrow> Invoked rs err
             | None \<Rightarrow> if st then StreamOpen else Finishing (finishes p))"
  by (simp add: advance_simps)

lemma sim_nonstream_loop:
  "sim p False tr (Trying (configured p rs)) s \<Longrightarrow>
     wp (nonstream_loop p e req ctx ident ref rid started rs i lastErr) (loop_post p False tr) s"
proof (induction rs arbitrary: s i lastErr)
  case Nil
  then show ?case
    by (auto intro!: wp_done_with simp: configured_def loop_post_def loop_phase_def)
next
  case (Cons r rs)
  show ?case
  proof (cases "fmlookup (pp_upstreams p) (sr_ProviderInstance r)")
    case None
    with Cons show ?thesis by (simp add: configured_def)
  next
    case (Some up)
    let ?f = "\<lambda>ans. case invoke_error False ans of Some err \<Rightarrow> Invoked (configured p rs) err
      | None \<Rightarrow> Finishing (finishes p)"
    from Cons.prems Some have s: "sim p False tr (Trying (r # configured p rs)) s"
      by (simp add: configured_def)
    have adv: "advance p False (Trying (r # configured p rs))
        (ACallInvoke (sr_ProviderInstance r) (invoke_request ctx ident r req m) ans) = Some (?f ans)" for m ans
      by (simp add: advance_invoke invoke_request_def)
    show ?thesis
      unfolding nonstream_loop.simps Some option.case
      apply (rule wp_bind, rule wp_quiet [OF quiet_announce_route s], rule wp_bind,
          erule wp_quiet [OF quiet_route_props], rule wp_bind, erule wp_quiet [OF quiet_read_map],
          rule wp_bind, erule wp_call [where f = ?f], rule adv)
      subgoal for _ _ ref' _ m _ ans u
      proof (cases ans)
        case (Inl err)
        assume "sim p False tr (?f ans) u"
        with Inl have "sim p False tr (Invoked (configured p rs) err) u" by (simp add: invoke_error_def)
        then show ?thesis unfolding Inl sum.case
          by (rule sim_upstream_failed) (rule Cons.IH)
      next
        case (Inr ch)
        assume u: "sim p False tr (?f ans) u"
        show ?thesis
        proof (cases "first_error ch")
          case None
          with u Inr have u': "sim p False tr (Finishing (finishes p)) u" by (simp add: invoke_error_def)
          obtain acc where acc: "collect_loop (rq_Model req) ch empty_collected = Inr acc"
            using None collect_loop_error by blast
          have ok: "wp (collectResponse e ch (rq_Model req))
              (\<lambda>a t. (\<exists>x. a = Inr x) \<and> sim p False tr (Finishing (finishes p)) t) u"
            unfolding collectResponse_def acc sum.case Let_def
            by (intro wp_if wp_bind wp_return wp_quiet [OF quiet_new_uuid u'])
              (auto intro!: wp_return u' elim!: wp_quiet [OF quiet_now] wp_bind)
          have serve: "wp (and_then (afterSuccess p e ctx ident req ref' rid resp usage) (\<lambda>_. done_with Served))
              (loop_post p False tr) t" if "sim p False tr (Finishing (finishes p)) t" for t resp usage
            by (rule wp_and_then, rule wp_mono [OF sim_afterSuccess [OF that]])
              (auto intro!: wp_done_with simp: loop_post_def loop_phase_def split: sum.splits)
          show ?thesis unfolding Inr sum.case
            by (rule wp_bind, rule wp_mono [OF ok])
              (auto intro!: wp_bind elim!: wp_quiet [OF quiet_update_result] intro: serve)
        next
          case (Some ue)
          with u Inr have u': "sim p False tr (Invoked (configured p rs) (EUpstream ue)) u"
            by (simp add: invoke_error_def)
          have "collect_loop (rq_Model req) ch empty_collected = Inl ue"
            using Some collect_loop_first_error by blast
          then have "wp (collectResponse e ch (rq_Model req))
              (\<lambda>a t. a = Inl ue \<and> sim p False tr (Invoked (configured p rs) (EUpstream ue)) t) u"
            unfolding collectResponse_def by (simp add: wp_return u')
          then show ?thesis unfolding Inr sum.case
            by (rule wp_bind [OF wp_mono]) (auto intro!: sim_upstream_failed Cons.IH)
        qed
      qed
      done
  qed
qed


lemma sim_stream_loop:
  "sim p True tr (Trying (configured p rs)) s \<Longrightarrow>
     wp (stream_loop p e req ctx ident ref rid started rs i lastErr) (loop_post p True tr) s"
proof (induction rs arbitrary: s i lastErr)
  case Nil
  then show ?case
    by (auto intro!: wp_done_with simp: configured_def loop_post_def loop_phase_def)
next
  case (Cons r rs)
  show ?case
  proof (cases "fmlookup (pp_upstreams p) (sr_ProviderInstance r)")
    case None
    with Cons show ?thesis by (simp add: configured_def)
  next
    case (Some up)
    let ?f = "\<lambda>ans. case invoke_error True ans of Some err \<Rightarrow> Invoked (configured p rs) err
      | None \<Rightarrow> StreamOpen"
    from Cons.prems Some have s: "sim p True tr (Trying (r # configured p rs)) s"
      by (simp add: configured_def)
    have adv: "advance p True (Trying (r # configured p rs))
        (ACallInvoke (sr_ProviderInstance r) (invoke_request ctx ident r req m) ans) = Some (?f ans)" for m ans
      by (simp add: advance_invoke invoke_request_def)
    show ?thesis
      unfolding stream_loop.simps Some option.case
      apply (rule wp_bind, rule wp_quiet [OF quiet_announce_route s], rule wp_bind,
          erule wp_quiet [OF quiet_route_props], rule wp_bind, erule wp_quiet [OF quiet_read_map],
          rule wp_bind, erule wp_call [where f = ?f], rule adv)
      subgoal for _ _ ref' _ m _ ans u
      proof (cases ans)
        case (Inl err)
        assume "sim p True tr (?f ans) u"
        with Inl have "sim p True tr (Invoked (configured p rs) err) u" by (simp add: invoke_error_def)
        then show ?thesis unfolding Inl sum.case
          by (rule sim_upstream_failed) (rule Cons.IH)
      next
        case (Inr ch)
        assume "sim p True tr (?f ans) u"
        with Inr have u: "sim p True tr StreamOpen u" by (simp add: invoke_error_def)
        show ?thesis unfolding Inr sum.case
          by (rule wp_bind, rule wp_quiet [OF quiet_update_result u], rule wp_done_with)
            (simp add: loop_post_def loop_phase_def)
      qed
      done
  qed
qed

text \<open>The phase a request that returned no error is left in.\<close>

definition served_phase :: "bool \<Rightarrow> phase" where
  "served_phase st = (if st then StreamOpen else Observing 0)"

lemma sim_finish_loop:
  assumes "sim p st tr ph s" and "loop_phase st r ph"
  shows "wp (finish_loop p e req ident ref rid started r) (leads p st tr (\<lambda>_. served_phase st)) s"
proof (cases r)
  case Served
  with assms show ?thesis
    by (auto simp: finish_loop_def loop_phase_def served_phase_def intro!: wp_done_with)
next
  case (Exhausted err)
  with assms(2) have ph: "ph = Trying [] \<or> ph = GivingUp" by (simp add: loop_phase_def)
  have adv: "ev_EventType ev = ''request.failed'' \<Longrightarrow> advance p st ph (AEvent ev) = Some Closed" for ev
    using ph by (auto simp: advance_simps)
  show ?thesis
    unfolding finish_loop_def Exhausted loop_end.case
    by (rule wp_bind, rule wp_quiet [OF quiet_timed_props assms(1)], rule wp_bind,
        erule wp_quiet [OF quiet_transcript_props], rule wp_and_then, erule wp_emitError,
        erule adv) (auto intro!: wp_fail)
qed

lemma configured_attempts: "configured p (tried_routes (pp_cfg p) rs) = attempts p rs"
  by (simp add: configured_def attempts_def tried_routes_eq)

lemma wp_loop_finish:
  assumes "wp loop (loop_post p st tr) s"
  shows "wp (and_then loop (finish_loop p e req ident ref rid started))
     (leads p st tr (\<lambda>_. served_phase st)) s"
  by (rule wp_and_then, rule wp_mono [OF assms])
    (auto simp: loop_post_def split: sum.splits intro: sim_finish_loop)

lemma sim_executeNonStream:
  "sim p False tr (Trying (attempts p routes)) s \<Longrightarrow>
     wp (executeNonStream p e req ctx ident ref rid started routes)
       (leads p False tr (\<lambda>_. served_phase False)) s"
  unfolding executeNonStream_eq
  by (intro wp_loop_finish sim_nonstream_loop) (simp add: configured_attempts)

lemma sim_executeStream:
  "sim p True tr (Trying (attempts p routes)) s \<Longrightarrow>
     wp (executeStream p e req ctx ident ref rid started routes)
       (leads p True tr (\<lambda>_. served_phase True)) s"
  unfolding executeStream_eq
  by (intro wp_loop_finish sim_stream_loop) (simp add: configured_attempts)

subsection \<open>The whole request\<close>

definition rest_phase :: "bool \<Rightarrow> phase \<Rightarrow> bool" where
  "rest_phase st ph \<longleftrightarrow> ph = served_phase st \<or> (ph = Closed \<and> \<not> st)"

definition ends :: "'w Pipeline \<Rightarrow> bool \<Rightarrow> action list \<Rightarrow> halt + unit \<Rightarrow> 'w xstate \<Rightarrow> bool" where
  "ends p st tr r t =
     (case r of Inl h \<Rightarrow> stops p st tr h t | Inr u \<Rightarrow> (\<exists>ph. sim p st tr ph t \<and> rest_phase st ph))"

lemma leads_served_ends: "leads p st tr (\<lambda>_. served_phase st) r t \<Longrightarrow> ends p st tr r t"
  by (auto simp: ends_def rest_phase_def split: sum.splits)

lemma sim_route_and_execute:
  assumes "sim p (rq_Stream req) tr (Gates [GRoute]) s" and "pp_router p \<noteq> None"
  shows "wp (route_and_execute p e req ctx ident ref summary rid started) (ends p (rq_Stream req) tr) s"
proof -
  have sel: "ev_EventType ev = ''route.selected'' \<Longrightarrow>
      advance p st (Selected rs) (AEvent ev) = Some (Trying (attempts p rs))" for ev st rs
    by (simp add: advance_simps)
  have run: "wp (if rq_Stream req then executeStream p e req ctx ident ref rid started rs
        else executeNonStream p e req ctx ident ref rid started rs) (ends p (rq_Stream req) tr) t"
    if "sim p (rq_Stream req) tr (Trying (attempts p rs)) t" for rs t
    using that
    by (auto intro!: wp_if wp_mono [OF sim_executeStream] wp_mono [OF sim_executeNonStream]
        intro: leads_served_ends)
  have routed: "wp (and_then (element rs 0) (\<lambda>first. State_Monad.bind (route_props e ref first 0 started) (\<lambda>ref'.
        and_then (emit e ''route.selected'' rid (id_TenantID ident) ref' None) (\<lambda>_.
          if rq_Stream req then executeStream p e req ctx ident ref rid started rs
          else executeNonStream p e req ctx ident ref rid started rs)))) (ends p (rq_Stream req) tr) t"
    if "sim p (rq_Stream req) tr (Selected rs) t" and "rs \<noteq> []" for rs t
    unfolding element_first [OF that(2)] and_then_done_with
    by (rule wp_bind, rule wp_quiet [OF quiet_route_props that(1)], rule wp_and_then,
        erule wp_emit, erule sel) (simp add: run)
  show ?thesis
    unfolding route_and_execute_def
  proof (rule wp_and_then, rule wp_mono [OF sim_choose_routes [OF assms]], goal_cases)
    case (1 r t)
    then show ?case by (cases r) (simp_all only: sum.case leads_simps routed ends_def simp_thms sum.inject)
  qed
qed

lemma wp_sum_stage:
  assumes "leads p st tr f r t" and "\<And>a. r = Inr a \<Longrightarrow> sim p st tr (f a) t \<Longrightarrow> wp (k a) (ends p st tr) t"
  shows "case r of Inl h \<Rightarrow> ends p st tr (Inl h) t | Inr a \<Rightarrow> wp (k a) (ends p st tr) t"
  using assms by (cases r) (simp_all add: ends_def)

lemma sim_after_lookup:
  assumes "sim p (rq_Stream req) tr (Gates ((if pp_ratelimit p \<noteq> None then [GCheck] else []) @ [GRoute])) s"
    and "pp_router p \<noteq> None"
  shows "wp (and_then (check_rate_limit p ctx ident ref est req)
      (\<lambda>_. route_and_execute p e req ctx ident ref summary rid started)) (ends p (rq_Stream req) tr) s"
  by (rule wp_and_then, rule wp_mono [OF sim_check_rate_limit [OF assms(1)]], rule wp_sum_stage,
      assumption) (simp add: sim_route_and_execute assms(2))

lemma sim_after_prompt:
  assumes "sim p (rq_Stream req) tr (Gates ((if pp_cache p \<noteq> None \<and> \<not> rq_Stream req then [GLookup] else [])
      @ (if pp_ratelimit p \<noteq> None then [GCheck] else []) @ [GRoute])) s"
    and "pp_router p \<noteq> None"
  shows "wp (and_then (cache_lookup p e ctx ident ref rid req) (\<lambda>hit.
       if hit then done_with ()
       else and_then (check_rate_limit p ctx ident ref est req) (\<lambda>_.
            route_and_execute p e req ctx ident ref summary rid started))) (ends p (rq_Stream req) tr) s"
proof (rule wp_and_then, rule wp_mono [OF wp_conj [OF sim_cache_lookup [OF assms(1) refl] lookup_hit]],
    goal_cases)
  case (1 r t)
  then have r: "leads p (rq_Stream req) tr (\<lambda>hit. if hit then Closed
      else Gates ((if pp_ratelimit p \<noteq> None then [GCheck] else []) @ [GRoute])) r t"
    and hit: "r = Inr True \<longrightarrow> \<not> rq_Stream req" by simp_all
  show ?case
    by (rule wp_sum_stage [OF r], rule wp_if)
      (use hit in \<open>auto simp: ends_def rest_phase_def sim_after_lookup assms(2) intro!: wp_done_with
         simp del: if_split\<close>)
qed

lemma sim_admit_and_execute:
  assumes "sim p (rq_Stream req) tr Authenticated s" and "pp_router p \<noteq> None"
  shows "wp (admit_and_execute p e req ctx ident ref summary rid started) (ends p (rq_Stream req) tr) s"
proof -
  have started: "ev_EventType ev = ''request.started'' \<Longrightarrow>
      advance p st Authenticated (AEvent ev) = Some (Gates (gates p st))" for ev st
    by (simp add: advance_simps)
  have prompt: "wp (and_then (resolve_prompt p ctx ident ref req) (\<lambda>req.
      and_then (cache_lookup p e ctx ident ref rid req) (\<lambda>hit.
       if hit then done_with ()
       else and_then (check_rate_limit p ctx ident ref (rs_EstimatedInputTokens summary) req) (\<lambda>_.
            route_and_execute p e req ctx ident ref summary rid started)))) (ends p (rq_Stream req) tr) t"
    if "sim p (rq_Stream req) tr (Gates ((if pp_prompt p \<noteq> None then [GPrompt] else []) @
      (if pp_cache p \<noteq> None \<and> \<not> rq_Stream req then [GLookup] else [])
      @ (if pp_ratelimit p \<noteq> None then [GCheck] else []) @ [GRoute])) t" for t
  proof (rule wp_and_then, rule wp_mono [OF sim_resolve_prompt [OF that]], goal_cases)
    case (1 r u)
    then have r: "leads p (rq_Stream req) tr (\<lambda>_. Gates
        ((if pp_cache p \<noteq> None \<and> \<not> rq_Stream req then [GLookup] else [])
         @ (if pp_ratelimit p \<noteq> None then [GCheck] else []) @ [GRoute])) r u"
      and eq: "\<And>req'. r = Inr req' \<Longrightarrow> rq_Stream req' = rq_Stream req" by blast+
    show ?case
    proof (rule wp_sum_stage [OF r])
      fix req'
      assume "r = Inr req'"
        and u: "sim p (rq_Stream req) tr (Gates
          ((if pp_cache p \<noteq> None \<and> \<not> rq_Stream req then [GLookup] else [])
           @ (if pp_ratelimit p \<noteq> None then [GCheck] else []) @ [GRoute])) u"
      from this(1) have "rq_Stream req' = rq_Stream req" by (rule eq)
      with sim_after_prompt [of p req'] u assms(2)
      show "wp (and_then (cache_lookup p e ctx ident ref rid req') (\<lambda>hit.
         if hit then done_with ()
         else and_then (check_rate_limit p ctx ident ref (rs_EstimatedInputTokens summary) req') (\<lambda>_.
              route_and_execute p e req' ctx ident ref summary rid started))) (ends p (rq_Stream req) tr) u"
        by (simp del: if_split)
    qed
  qed
  have authz: "wp (and_then (authorize p ctx ident summary) (\<lambda>_.
      and_then (resolve_prompt p ctx ident ref req) (\<lambda>req.
      and_then (cache_lookup p e ctx ident ref rid req) (\<lambda>hit.
       if hit then done_with ()
       else and_then (check_rate_limit p ctx ident ref (rs_EstimatedInputTokens summary) req) (\<lambda>_.
            route_and_execute p e req ctx ident ref summary rid started)))))
      (ends p (rq_Stream req) tr) t"
    if "sim p (rq_Stream req) tr (Gates (gates p (rq_Stream req))) t" for t
    by (rule wp_and_then, rule wp_mono [OF sim_authorize [OF that [unfolded gates_def]]],
        rule wp_sum_stage, assumption, rule prompt)
  show ?thesis
    unfolding admit_and_execute_def
    by (rule wp_and_then, rule wp_emit [OF assms(1)], erule started) (simp add: authz)
qed

text \<open>
  What \<open>ExecuteChat\<close> needs of the pipeline: the router is there, and so is the authenticator
  unless the gateway is anonymous. A ready compiled pipeline provides both.
\<close>

definition serviceable :: "'w Pipeline \<Rightarrow> bool" where
  "serviceable p \<longleftrightarrow> (au_Anonymous (cf_Auth (pp_cfg p)) \<or> pp_authn p \<noteq> None) \<and> pp_router p \<noteq> None"

lemma sim_ExecuteChat:
  assumes "pp_ready p" and "serviceable p" and "queue_inv (x_queue s)"
  shows "wp (ExecuteChat p e req headers ip) (ends p (rq_Stream req) (x_trace s)) s"
proof -
  have s: "sim p (rq_Stream req) (x_trace s) (entry p) s"
    using assms(3) by (simp add: sim_def)
  have auth: "wp (and_then (authenticate p ctx headers ip) (\<lambda>(ident, ctx).
      admit_and_execute p e req ctx ident ref summary rid started))
      (ends p (rq_Stream req) (x_trace s)) t"
    if "sim p (rq_Stream req) (x_trace s) (entry p) t" for ctx ref summary rid started t
    using assms(2)
    by (intro wp_and_then, intro wp_mono [OF sim_authenticate [OF that]], simp add: serviceable_def)
      (erule wp_sum_stage, auto simp: serviceable_def intro: sim_admit_and_execute)
  show ?thesis
    unfolding ExecuteChat_def Let_def using assms(1)
    by (intro wp_bind wp_quiet [OF quiet_new_uuid s], elim wp_quiet [OF quiet_update_result])
      (auto intro!: wp_bind elim!: wp_quiet [OF quiet_now] wp_quiet [OF quiet_new_map] intro: auth)
qed

end
