(* ===== verification/ExecuteOwn.thy ===== *)
theory ExecuteOwn
  imports ExecuteRefines
begin

text \<open>
  What every single action of a request satisfies, whatever its place: the identity and the call
  context it carries, the request and tenant of every event, and that the event queue changes by
  the recorded events only. \<open>records P\<close> is a preorder on states, and every part of
  \<open>ExecuteChat\<close> stays in it for the \<open>P\<close> that names the caller.
\<close>

subsection \<open>States that differ by recorded actions\<close>

definition events_of :: "action list \<Rightarrow> event list" where
  "events_of acts = List.map_filter (\<lambda>a. case a of AEvent ev \<Rightarrow> Some ev | _ \<Rightarrow> None) acts"

lemma events_of_simps [simp]:
  "events_of [] = []"
  "events_of (xs @ ys) = events_of xs @ events_of ys"
  "events_of [AEvent ev] = [ev]"
  by (simp_all add: events_of_def List.map_filter_def)

definition records :: "(action \<Rightarrow> bool) \<Rightarrow> 'w xstate \<Rightarrow> 'w xstate \<Rightarrow> bool" where
  "records P s t \<longleftrightarrow> re_RequestID (x_result t) = re_RequestID (x_result s) \<and>
     (\<exists>acts. x_trace t = x_trace s @ acts \<and> list_all P acts \<and>
        enqueue_all (events_of acts) (x_queue s) = Some (x_queue t))"

lemma enqueue_all_append:
  "enqueue_all (xs @ ys) q = Option.bind (enqueue_all xs q) (enqueue_all ys)"
  by (induction xs arbitrary: q) (auto split: option.splits)

interpretation own: step_relation "records P" for P
proof unfold_locales
  show "records P s s" for s :: "'a xstate"
    by (simp add: records_def)
  show "records P s t \<Longrightarrow> records P t u \<Longrightarrow> records P s u" for s t u :: "'a xstate"
    by (fastforce simp: records_def enqueue_all_append)
qed

named_theorems recorded \<open>the parts of a request, as steps that record actions\<close>

lemmas [recorded] = own.keeps

lemma recorded_quiet [recorded]:
  "state_io_rel (records P) (new_uuid e)" "state_io_rel (records P) (now e)"
  "state_io_rel (records P) (new_map m)" "state_io_rel (records P) (read_map r)"
  "state_io_rel (records P) (write_map r f)" "state_io_rel (records P) (set_header k v)"
  by (auto simp: state_io_rel_def records_def new_uuid_def now_def new_map_def read_map_def
      write_map_def set_header_def split: prod.splits)

lemma recorded_update_result:
  "(\<And>r. re_RequestID (f r) = re_RequestID r) \<Longrightarrow> state_io_rel (records P) (update_result f)"
  unfolding update_result_def by (rule own.keeps_modify) (simp add: records_def)

lemma recorded_call:
  assumes "\<And>ans. P (mk a ans)" and "\<And>ans. events_of [mk a ans] = []"
  shows "state_io_rel (records P) (call mk m a)"
  using assms by (auto simp: state_io_rel_def records_def call_def split: prod.splits)

lemma recorded_enqueue: "P (AEvent ev) \<Longrightarrow> state_io_rel (records P) (enqueue ev)"
  by (auto simp: state_io_rel_def records_def enqueue_def split: option.splits prod.splits)


subsection \<open>The actions of one caller\<close>

text \<open>
  \<open>own_action rid ctx ident a\<close>: the action \<open>a\<close> belongs to the request \<open>rid\<close> of the caller
  \<open>ident\<close>. A call carries the context and the identity, an invocation also the name of the
  upstream it goes to; an event carries the request and the tenant. The constraints of a route
  request are the zero value, whatever the authorizer answered.
\<close>

definition own_event :: "string \<Rightarrow> Identity \<Rightarrow> 'p GatewayEvent \<Rightarrow> bool" where
  "own_event rid ident ev \<longleftrightarrow> ev_RequestID ev = rid \<and> ev_TenantID ev = id_TenantID ident"

definition own_action :: "string \<Rightarrow> CallContext \<Rightarrow> Identity \<Rightarrow> action \<Rightarrow> bool" where
  "own_action rid ctx ident a =
     (case a of
        ACallAuthn rq ans \<Rightarrow> False
      | ACallAuthz rq ans \<Rightarrow> zq_Context rq = ctx \<and> zq_Identity rq = ident
      | ACallPrompt rq ans \<Rightarrow> pq_Context rq = ctx \<and> pq_Identity rq = ident
      | ACallLookup rq ans \<Rightarrow> kq_Context rq = ctx \<and> kq_Identity rq = ident
      | ACallCheck rq ans \<Rightarrow> lq_Context rq = ctx \<and> lq_Identity rq = ident
      | ACallRoute rq ans \<Rightarrow> tq_Context rq = ctx \<and> tq_Identity rq = ident \<and>
          tq_Constraints rq = zero_constraints
      | ACallInvoke name rq ans \<Rightarrow> iq_Context rq = ctx\<lparr>cc_PluginInstance := name\<rparr> \<and> iq_Identity rq = ident
      | ACallStore rq ans \<Rightarrow> sq_Context rq = ctx \<and> sq_Identity rq = ident
      | ACallCommit rq ans \<Rightarrow> uq_Context rq = ctx \<and> uq_Identity rq = ident
      | ACallObserve evs ans \<Rightarrow> list_all (own_event rid ident) evs
      | AEvent ev \<Rightarrow> own_event rid ident ev)"

abbreviation owned :: "string \<Rightarrow> CallContext \<Rightarrow> Identity \<Rightarrow> 'w xstate \<Rightarrow> 'w xstate \<Rightarrow> bool" where
  "owned rid ctx ident \<equiv> records (own_action rid ctx ident)"

lemma recorded_calls [recorded]:
  "zq_Context q1 = ctx \<and> zq_Identity q1 = ident \<Longrightarrow>
     state_io_rel (owned rid ctx ident) (call ACallAuthz m1 q1)"
  "pq_Context q2 = ctx \<and> pq_Identity q2 = ident \<Longrightarrow>
     state_io_rel (owned rid ctx ident) (call ACallPrompt m2 q2)"
  "kq_Context q3 = ctx \<and> kq_Identity q3 = ident \<Longrightarrow>
     state_io_rel (owned rid ctx ident) (call ACallLookup m3 q3)"
  "lq_Context q4 = ctx \<and> lq_Identity q4 = ident \<Longrightarrow>
     state_io_rel (owned rid ctx ident) (call ACallCheck m4 q4)"
  "tq_Context q5 = ctx \<and> tq_Identity q5 = ident \<and> tq_Constraints q5 = zero_constraints \<Longrightarrow>
     state_io_rel (owned rid ctx ident) (call ACallRoute m5 q5)"
  "sq_Context q6 = ctx \<and> sq_Identity q6 = ident \<Longrightarrow>
     state_io_rel (owned rid ctx ident) (call ACallStore m6 q6)"
  "uq_Context q7 = ctx \<and> uq_Identity q7 = ident \<Longrightarrow>
     state_io_rel (owned rid ctx ident) (call ACallCommit m7 q7)"
  "list_all (own_event rid ident) evs \<Longrightarrow>
     state_io_rel (owned rid ctx ident) (call ACallObserve m8 evs)"
  by (rule recorded_call; simp add: own_action_def events_of_def List.map_filter_def)+

lemma recorded_invoke [recorded]:
  "state_io_rel (owned rid ctx ident) (call (ACallInvoke (sr_ProviderInstance r)) m (invoke_request ctx ident r req ps))"
  by (rule recorded_call; simp add: own_action_def invoke_request_def events_of_def List.map_filter_def)

lemma recorded_emit [recorded]:
  "state_io_rel (owned rid ctx ident) (emit e name rid (id_TenantID ident) ref usage)"
  "state_io_rel (owned rid ctx ident) (emitError e name rid (id_TenantID ident) ref err)"
  unfolding emit_def emitError_def
  by (intro recorded recorded_enqueue; simp add: own_action_def own_event_def)+

lemma recorded_helpers [recorded]:
  "state_io_rel (records P) (fail err)"
  "state_io_rel (records P) nil_dereference"
  "state_io_rel (records P) (summary_value s)"
  "state_io_rel (records P) (rate_limit_headers st)"
  "state_io_rel (records P) (route_props e ref r i started)"
  "state_io_rel (records P) (timed_props e ref started)"
  "state_io_rel (records P) (transcript_props p ref req resp)"
  "state_io_rel (records P) (collectResponse e chunks model)"
  "state_io_rel (records P) (announce_route r i)"
  "state_io_rel (records P) (element xs n)"
  unfolding element_def fail_def nil_dereference_def summary_value_def rate_limit_headers_def route_props_def
    timed_props_def transcript_props_def collectResponse_def announce_route_def Let_def
  by (intro recorded recorded_update_result; simp)+

subsection \<open>The stages\<close>

lemma owned_stages [recorded]:
  "state_io_rel (owned rid ctx ident) (authorize p ctx ident summary)"
  "state_io_rel (owned rid ctx ident) (resolve_prompt p ctx ident ref req)"
  "state_io_rel (owned rid ctx ident) (cache_lookup p e ctx ident ref rid req)"
  "state_io_rel (owned rid ctx ident) (check_rate_limit p ctx ident ref est req)"
  "state_io_rel (owned rid ctx ident) (choose_routes p ctx ident summary req)"
  "state_io_rel (owned rid ctx ident) (store_in_cache p e ctx ident req ref resp usage)"
  "state_io_rel (owned rid ctx ident) (commit_usage p ctx ident usage)"
  unfolding authorize_def resolve_prompt_def cache_lookup_def check_rate_limit_def choose_routes_def
    store_in_cache_def commit_usage_def
  by (intro recorded recorded_update_result; simp)+

lemma owned_observers [recorded]:
  "state_io_rel (owned rid ctx ident) (blocking_observers e obs rid ident ref usage)"
  by (induction obs) (unfold blocking_observers.simps, (intro recorded; simp add: own_event_def)+)

lemma owned_afterSuccess [recorded]:
  "state_io_rel (owned rid ctx ident) (afterSuccess p e ctx ident req ref rid resp usage)"
  unfolding afterSuccess_def by (intro recorded)

lemma owned_upstream_failed [recorded]:
  "state_io_rel (owned rid ctx ident) next_try \<Longrightarrow>
     state_io_rel (owned rid ctx ident) (upstream_failed e rid ident ref err next_try)"
  unfolding upstream_failed_def by (intro recorded)

lemma owned_nonstream_loop [recorded]:
  "state_io_rel (owned rid ctx ident) (nonstream_loop p e req ctx ident ref rid started rs i lastErr)"
proof (induction rs arbitrary: i lastErr)
  case (Cons r rs)
  show ?case unfolding nonstream_loop.simps by (intro recorded recorded_update_result Cons.IH; simp)
qed (simp add: recorded)

lemma owned_stream_loop [recorded]:
  "state_io_rel (owned rid ctx ident) (stream_loop p e req ctx ident ref rid started rs i lastErr)"
proof (induction rs arbitrary: i lastErr)
  case (Cons r rs)
  show ?case unfolding stream_loop.simps by (intro recorded recorded_update_result Cons.IH; simp)
qed (simp add: recorded)

lemma owned_finish_loop [recorded]:
  "state_io_rel (owned rid ctx ident) (finish_loop p e req ident ref rid started r)"
  by (cases r) (simp_all add: finish_loop_def recorded)

lemma owned_admit [recorded]:
  "state_io_rel (owned rid ctx ident) (admit_and_execute p e req ctx ident ref summary rid started)"
  unfolding admit_and_execute_def route_and_execute_def executeStream_eq executeNonStream_eq
  by (intro recorded)

end
