(* ===== verification/FlowProps.thy ===== *)
theory FlowProps
  imports RequestFlow
begin

text \<open>
  What follows from being accepted by the request-flow automaton: the facts about histories that
  the properties of \<open>ExecuteChat\<close> instantiate. Each is one invariant of history and phase.
\<close>

subsection \<open>Gates\<close>

text \<open>The history shows that a gate let the request through.\<close>

definition passed :: "gate \<Rightarrow> action list \<Rightarrow> bool" where
  "passed g hist \<longleftrightarrow>
     (case g of
        GAuthz \<Rightarrow> \<exists>rq r. ACallAuthz rq (Inr r) \<in> set hist \<and> zr_Allow r
      | GPrompt \<Rightarrow> \<exists>rq r. ACallPrompt rq (Inr r) \<in> set hist
      | GLookup \<Rightarrow> \<exists>rq ans. ACallLookup rq ans \<in> set hist \<and> \<not> (\<exists>r. ans = Inr r \<and> kr_Hit r)
      | GCheck \<Rightarrow> \<exists>rq r. ACallCheck rq (Inr r) \<in> set hist \<and> lr_Decision r \<noteq> ''deny''
      | GRoute \<Rightarrow> \<exists>rq r. ACallRoute rq (Inr r) \<in> set hist \<and> tr_Routes r \<noteq> [])"

definition authenticated :: "'w Pipeline \<Rightarrow> action list \<Rightarrow> bool" where
  "authenticated p hist \<longleftrightarrow>
     au_Anonymous (cf_Auth (pp_cfg p)) \<or> (\<exists>rq r. ACallAuthn rq (Inr r) \<in> set hist \<and> ar_Allow r)"

lemma passed_append: "passed g hist \<Longrightarrow> passed g (hist @ later)"
  by (cases g) (auto simp: passed_def)

lemma authenticated_append: "authenticated p hist \<Longrightarrow> authenticated p (hist @ later)"
  by (auto simp: authenticated_def)

lemma advance_gate_passes:
  "advance_gate g gs a = Some ph \<Longrightarrow> ph = Closed \<or> ph = HitFound \<or> passed g (hist @ [a])"
  by (erule advance_gate_elim) (auto simp: passed_def split: sum.splits)

definition admitted :: "'w Pipeline \<Rightarrow> bool \<Rightarrow> action list \<Rightarrow> phase \<Rightarrow> bool" where
  "admitted p st hist ph \<longleftrightarrow>
     (case ph of
        Arrived \<Rightarrow> True
      | Closed \<Rightarrow> True
      | HitFound \<Rightarrow> True
      | Authenticated \<Rightarrow> authenticated p hist
      | Gates gs \<Rightarrow> authenticated p hist \<and> (\<exists>over. gates p st = over @ gs \<and> (\<forall>g \<in> set over. passed g hist))
      | _ \<Rightarrow> authenticated p hist \<and> (\<forall>g \<in> set (gates p st). passed g hist))"

text \<open>Routing is the last gate.\<close>

lemma gates_route_last: "gates p st = over @ GRoute # gs \<Longrightarrow> gs = []"
proof (cases gs rule: rev_cases)
  case (snoc zs z)
  assume "gates p st = over @ GRoute # gs"
  with snoc have "GRoute \<in> set (butlast (gates p st))" by (simp add: butlast_append)
  then show ?thesis by (auto simp: gates_def butlast_append split: if_splits)
qed simp

lemma admitted_step:
  assumes "admitted p st hist ph" and "advance p st ph a = Some ph'"
  shows "admitted p st (hist @ [a]) ph'"
  using assms(2)
proof (cases rule: advance_elim)
  case (authn rq ans)
  then show ?thesis by (auto simp: admitted_def authenticated_def)
next
  case (gate g gs)
  with assms(1) obtain over where auth: "authenticated p (hist @ [a])"
    and over: "gates p st = over @ g # gs" "\<forall>h \<in> set over. passed h (hist @ [a])"
    by (auto simp: admitted_def passed_append authenticated_append)
  from gate(2) show ?thesis
  proof (cases rule: advance_gate_elim)
    case (route rq ans)
    then have "gs = []" using over(1) gates_route_last by blast
    with over(2) auth route show ?thesis
      by (auto simp: admitted_def over(1) passed_def split: sum.splits)
  qed (use auth over in \<open>auto simp: admitted_def passed_def intro!: exI [of _ "over @ [g]"]\<close>)
qed (use assms(1) in \<open>auto simp: admitted_def passed_append authenticated_append split: option.splits\<close>)

lemma follow_admitted:
  assumes "follow p st (entry p) acts = Some ph"
  shows "admitted p st acts ph"
  by (rule follow_invariant [OF assms, where I = "admitted p st"], simp add: entry_def admitted_def
      authenticated_def, rule admitted_step)

text \<open>An upstream is only invoked with every gate passed.\<close>

lemma invoke_admitted:
  assumes "follow p st (entry p) acts = Some ph" and "acts = pre @ ACallInvoke name rq ans # post"
  shows "authenticated p pre \<and> (\<forall>g \<in> set (gates p st). passed g pre)"
proof -
  from assms obtain ph1 ph2 where "follow p st (entry p) pre = Some ph1"
    and "advance p st ph1 (ACallInvoke name rq ans) = Some ph2"
    by (auto elim: follow_before)
  from this(2) have "\<exists>rs. ph1 = Trying rs"
    by (cases rule: advance_elim) (auto elim: advance_gate_elim)
  with follow_admitted [OF \<open>follow p st (entry p) pre = Some ph1\<close>] show ?thesis
    by (auto simp: admitted_def)
qed


subsection \<open>Refusals\<close>

definition refuses :: "action \<Rightarrow> bool" where
  "refuses a =
     (case a of
        ACallAuthn rq ans \<Rightarrow> (case ans of Inl e \<Rightarrow> True | Inr r \<Rightarrow> \<not> ar_Allow r)
      | ACallAuthz rq ans \<Rightarrow> (case ans of Inl e \<Rightarrow> True | Inr r \<Rightarrow> \<not> zr_Allow r)
      | ACallPrompt rq ans \<Rightarrow> (case ans of Inl e \<Rightarrow> True | Inr r \<Rightarrow> False)
      | ACallCheck rq ans \<Rightarrow> (case ans of Inl e \<Rightarrow> True | Inr r \<Rightarrow> lr_Decision r = ''deny'')
      | ACallRoute rq ans \<Rightarrow> (case ans of Inl e \<Rightarrow> True | Inr r \<Rightarrow> tr_Routes r = [])
      | ACallObserve evs ans \<Rightarrow> (case ans of Inl e \<Rightarrow> True | Inr u \<Rightarrow> False)
      | _ \<Rightarrow> False)"

lemma refuses_closes: "refuses a \<Longrightarrow> advance p st ph a = Some ph' \<Longrightarrow> ph' = Closed"
  by (erule advance_elim) (auto simp: refuses_def split: sum.splits elim!: advance_gate_elim)

lemma follow_Closed: "follow p st Closed acts = Some ph \<Longrightarrow> acts = []"
  by (cases acts) (simp_all add: advance_def)

lemma refusal_last:
  assumes "follow p st ph0 (pre @ a # post) = Some ph" and "refuses a"
  shows "post = []"
  using assms by (auto elim!: follow_before dest: refuses_closes follow_Closed)

text \<open>The events of a request that is still going on.\<close>

lemma open_events:
  assumes "follow p st (entry p) acts = Some ph" and "ph \<noteq> Closed" and "AEvent ev \<in> set acts"
  shows "ev_EventType ev \<in> {''request.started'', ''route.selected'', ''upstream.error'', ''request.completed''}"
proof -
  let ?I = "\<lambda>hist ph. ph \<noteq> Closed \<longrightarrow> (\<forall>ev. AEvent ev \<in> set hist \<longrightarrow>
    ev_EventType ev \<in> {''request.started'', ''route.selected'', ''upstream.error'', ''request.completed''})"
  have "?I acts ph"
  proof (rule follow_invariant [OF assms(1), where I = ?I], goal_cases)
    case (2 hist ph a ph')
    from 2(2) have "ph \<noteq> Closed" by (auto simp: advance_def)
    with 2(1) have "\<forall>ev. AEvent ev \<in> set hist \<longrightarrow>
      ev_EventType ev \<in> {''request.started'', ''route.selected'', ''upstream.error'', ''request.completed''}" by simp
    with 2(2) show ?case
      by (cases rule: advance_elim) (auto elim!: advance_gate_elim)
  qed simp
  with assms(2,3) show ?thesis by blast
qed

lemma refusal_open:
  assumes "follow p st (entry p) (pre @ a # post) = Some ph" and "AEvent ev \<in> set pre"
  shows "ev_EventType ev \<in> {''request.started'', ''route.selected'', ''upstream.error'', ''request.completed''}"
  using assms by (auto elim!: follow_before dest!: open_events simp: advance_def)

subsection \<open>Invocations\<close>

definition invocation :: "action \<Rightarrow> ((string \<times> string) \<times> (goerr + ResponseChunk list)) option" where
  "invocation a =
     (case a of ACallInvoke name rq ans \<Rightarrow> Some ((name, iq_ProviderModel rq), ans) | _ \<Rightarrow> None)"

definition invocations :: "action list \<Rightarrow> ((string \<times> string) \<times> (goerr + ResponseChunk list)) list" where
  "invocations acts = List.map_filter invocation acts"

definition route_target :: "SelectedRoute \<Rightarrow> string \<times> string" where
  "route_target r = (sr_ProviderInstance r, sr_ProviderModel r)"

text \<open>An answer after which the next route is tried.\<close>

definition retried :: "bool \<Rightarrow> goerr + ResponseChunk list \<Rightarrow> bool" where
  "retried st ans = (case invoke_error st ans of None \<Rightarrow> False | Some err \<Rightarrow> retryable err)"

lemma map_filter_snoc [simp]:
  "List.map_filter f (xs @ [x]) = List.map_filter f xs @ (case f x of None \<Rightarrow> [] | Some y \<Rightarrow> [y])"
  by (simp add: List.map_filter_def split: option.splits)

lemma invocations_nil [simp]: "invocations [] = []"
  by (simp add: invocations_def List.map_filter_simps)

lemma invocations_snoc [simp]:
  "invocations (acts @ [a]) = invocations acts @ (case invocation a of None \<Rightarrow> [] | Some y \<Rightarrow> [y])"
  by (simp add: invocations_def)

lemma invocation_simps [simp]:
  "invocation (ACallAuthn q1 a1) = None" "invocation (ACallAuthz q2 a2) = None"
  "invocation (ACallPrompt q3 a3) = None" "invocation (ACallLookup q4 a4) = None"
  "invocation (ACallCheck q5 a5) = None" "invocation (ACallRoute q6 a6) = None"
  "invocation (ACallInvoke n q7 a7) = Some ((n, iq_ProviderModel q7), a7)"
  "invocation (ACallStore q8 a8) = None" "invocation (ACallCommit q9 a9) = None"
  "invocation (ACallObserve q10 a10) = None" "invocation (AEvent ev) = None"
  by (simp_all add: invocation_def)

definition selected :: "action list \<Rightarrow> SelectedRoute list \<Rightarrow> bool" where
  "selected hist rs \<longleftrightarrow> (\<exists>rq r. ACallRoute rq (Inr r) \<in> set hist \<and> tr_Routes r = rs)"

lemma selected_snoc: "selected hist rs \<Longrightarrow> selected (hist @ [a]) rs"
  by (auto simp: selected_def)

definition tried :: "'w Pipeline \<Rightarrow> bool \<Rightarrow> action list \<Rightarrow> SelectedRoute list \<Rightarrow> bool" where
  "tried p st hist rest \<longleftrightarrow>
     (\<exists>rs over. selected hist rs \<and> attempts p rs = over @ rest \<and>
        map fst (invocations hist) = map route_target over \<and>
        (\<forall>x \<in> set (butlast (invocations hist)). retried st (snd x)))"

definition all_retried :: "bool \<Rightarrow> action list \<Rightarrow> bool" where
  "all_retried st hist \<longleftrightarrow> (\<forall>x \<in> set (invocations hist). retried st (snd x))"

definition last_answer :: "action list \<Rightarrow> (goerr + ResponseChunk list) option" where
  "last_answer hist = (case rev (invocations hist) of [] \<Rightarrow> None | x # _ \<Rightarrow> Some (snd x))"

definition failed_with :: "bool \<Rightarrow> action list \<Rightarrow> goerr \<Rightarrow> bool" where
  "failed_with st hist err \<longleftrightarrow> (\<exists>ans. last_answer hist = Some ans \<and> invoke_error st ans = Some err)"

definition served :: "bool \<Rightarrow> action list \<Rightarrow> bool" where
  "served st hist \<longleftrightarrow> (\<exists>ch. last_answer hist = Some (Inr ch) \<and> invoke_error st (Inr ch) = None)"

definition routing :: "'w Pipeline \<Rightarrow> bool \<Rightarrow> action list \<Rightarrow> phase \<Rightarrow> bool" where
  "routing p st hist ph \<longleftrightarrow>
     (case ph of
        Selected rs \<Rightarrow> invocations hist = [] \<and> selected hist rs
      | Trying rs \<Rightarrow> tried p st hist rs \<and> all_retried st hist
      | Invoked rs err \<Rightarrow> tried p st hist rs \<and> failed_with st hist err
      | GivingUp \<Rightarrow> (\<exists>rs err. tried p st hist rs \<and> failed_with st hist err \<and> \<not> retryable err)
      | Finishing ts \<Rightarrow> (\<exists>rs. tried p st hist rs) \<and> served st hist
      | Observing n \<Rightarrow> (\<exists>rs. tried p st hist rs) \<and> served st hist
      | StreamOpen \<Rightarrow> (\<exists>rs. tried p st hist rs) \<and> served st hist
      | Closed \<Rightarrow> invocations hist = [] \<or> (\<exists>rs. tried p st hist rs)
      | _ \<Rightarrow> invocations hist = [])"

lemma tried_quiet [simp]:
  "tried p st (hist @ [AEvent ev]) rs = tried p st hist rs"
  "tried p st (hist @ [ACallStore q1 a1]) rs = tried p st hist rs"
  "tried p st (hist @ [ACallCommit q2 a2]) rs = tried p st hist rs"
  "tried p st (hist @ [ACallObserve q3 a3]) rs = tried p st hist rs"
  by (simp_all add: tried_def selected_def)

lemma last_answer_snoc [simp]:
  "last_answer (hist @ [a]) = (case invocation a of None \<Rightarrow> last_answer hist | Some x \<Rightarrow> Some (snd x))"
  by (auto simp: last_answer_def split: option.splits)

lemma tried_invoke:
  assumes "tried p st hist (r # rs)" and "all_retried st hist" and "iq_ProviderModel rq = sr_ProviderModel r"
  shows "tried p st (hist @ [ACallInvoke (sr_ProviderInstance r) rq ans]) rs"
proof -
  from assms(1) obtain sel over where s: "selected hist sel" "attempts p sel = over @ r # rs"
    "map fst (invocations hist) = map route_target over" by (auto simp: tried_def)
  then show ?thesis
    unfolding tried_def
    by (intro exI [of _ sel] exI [of _ "over @ [r]"])
      (use assms(2,3) in \<open>auto simp: route_target_def all_retried_def butlast_append dest: selected_snoc\<close>)
qed

lemma routing_step:
  assumes "routing p st hist ph" and "advance p st ph a = Some ph'"
  shows "routing p st (hist @ [a]) ph'"
  using assms(2)
proof (cases rule: advance_elim)
  case (gate g gs)
  from gate(2) show ?thesis using assms(1) gate(1)
    by (cases rule: advance_gate_elim)
      (auto simp: routing_def selected_def split: sum.splits)
next
  case (selected rs ev)
  with assms(1) show ?thesis
    by (auto simp: routing_def tried_def all_retried_def dest: selected_snoc)
next
  case (invoke r rs rq ans)
  with assms(1) have "tried p st (hist @ [a]) rs"
    using tried_invoke [of p st hist r rs rq ans] by (simp add: routing_def)
  with invoke show ?thesis
    by (auto simp: routing_def failed_with_def served_def invoke_error_def split: option.splits sum.splits)
next
  case (upstream_error rs err ev)
  with assms(1) have tr: "tried p st hist rs" and "failed_with st hist err"
    by (simp_all add: routing_def)
  moreover from this have "all_retried st hist" if "retryable err"
    using that
    by (cases "invocations hist" rule: rev_cases)
      (auto simp: tried_def all_retried_def failed_with_def last_answer_def retried_def)
  ultimately show ?thesis using upstream_error
    by (auto simp: routing_def all_retried_def failed_with_def intro: tr)
qed (use assms(1) in \<open>auto simp: routing_def served_def split: option.splits\<close>)

lemma follow_routing:
  assumes "follow p st (entry p) acts = Some ph"
  shows "routing p st acts ph"
  by (rule follow_invariant [OF assms, where I = "routing p st"], simp add: entry_def routing_def,
      rule routing_step)


text \<open>
  The upstreams are tried in the order the router gave, each at most once, starting with the
  first; every failure before the last try was retryable.
\<close>

definition in_router_order :: "'w Pipeline \<Rightarrow> bool \<Rightarrow> action list \<Rightarrow> bool" where
  "in_router_order p st acts \<longleftrightarrow> invocations acts = [] \<or>
     (\<exists>rs. selected acts rs \<and>
        prefix (map fst (invocations acts)) (map route_target (attempts p rs)) \<and>
        (\<forall>x \<in> set (butlast (invocations acts)). retried st (snd x)))"

lemma tried_in_order: "tried p st acts rs \<Longrightarrow> in_router_order p st acts"
  by (auto simp: tried_def in_router_order_def)

lemma follow_in_router_order:
  assumes "follow p st (entry p) acts = Some ph"
  shows "in_router_order p st acts"
proof -
  have "invocations acts = [] \<or> (\<exists>rs. tried p st acts rs)"
    using follow_routing [OF assms] by (auto simp: routing_def split: phase.splits)
  then show ?thesis by (auto intro: tried_in_order) (simp add: in_router_order_def)
qed

lemma in_router_order_bound:
  assumes "in_router_order p st acts" and "0 < fb_MaxAttempts (cf_Fallbacks (pp_cfg p))"
  shows "int (length (invocations acts)) \<le> fb_MaxAttempts (cf_Fallbacks (pp_cfg p))"
proof (cases "invocations acts = []")
  case False
  with assms(1) obtain rs where
    "prefix (map fst (invocations acts)) (map route_target (attempts p rs))"
    by (auto simp: in_router_order_def)
  then have "length (invocations acts) \<le> length (attempts p rs)"
    by (auto dest: prefix_length_le)
  also have "\<dots> \<le> length (take (nat (fb_MaxAttempts (cf_Fallbacks (pp_cfg p)))) rs)"
    using assms(2) by (simp add: attempts_def del: length_take)
  finally show ?thesis using assms(2) by auto
qed (use assms(2) in simp)

subsection \<open>Outcomes\<close>

definition is_event :: "string \<Rightarrow> action \<Rightarrow> bool" where
  "is_event name a = (case a of AEvent ev \<Rightarrow> ev_EventType ev = name | _ \<Rightarrow> False)"

definition is_store :: "action \<Rightarrow> bool" where
  "is_store a = (case a of ACallStore rq ans \<Rightarrow> True | _ \<Rightarrow> False)"

definition is_commit :: "action \<Rightarrow> bool" where
  "is_commit a = (case a of ACallCommit rq ans \<Rightarrow> True | _ \<Rightarrow> False)"

definition count_of :: "(action \<Rightarrow> bool) \<Rightarrow> action list \<Rightarrow> nat" where
  "count_of P acts = length (filter P acts)"

lemma count_of_nil [simp]: "count_of P [] = 0"
  by (simp add: count_of_def)

lemma count_of_snoc [simp]: "count_of P (acts @ [a]) = count_of P acts + (if P a then 1 else 0)"
  by (simp add: count_of_def)

abbreviation "events name acts \<equiv> count_of (is_event name) acts"

definition nothing_yet :: "action list \<Rightarrow> bool" where
  "nothing_yet hist \<longleftrightarrow> events ''request.completed'' hist = 0 \<and> events ''request.failed'' hist = 0 \<and>
     events ''cache.hit'' hist = 0 \<and> count_of is_store hist = 0 \<and> count_of is_commit hist = 0"

text \<open>The accounting that goes with a completed request: once, and nothing but it.\<close>

definition accounted_for :: "'w Pipeline \<Rightarrow> action list \<Rightarrow> bool" where
  "accounted_for p hist \<longleftrightarrow> events ''request.completed'' hist = 1 \<and>
     events ''request.failed'' hist = 0 \<and> events ''cache.hit'' hist = 0 \<and>
     count_of is_store hist = (if pp_cache p = None then 0 else 1) \<and>
     count_of is_commit hist = (if pp_ratelimit p = None then 0 else 1)"

definition given_up :: "action list \<Rightarrow> bool" where
  "given_up hist \<longleftrightarrow> events ''request.completed'' hist = 0 \<and> events ''request.failed'' hist = 1 \<and>
     events ''cache.hit'' hist = 0 \<and> count_of is_store hist = 0 \<and> count_of is_commit hist = 0"

definition from_cache :: "action list \<Rightarrow> bool" where
  "from_cache hist \<longleftrightarrow> events ''request.completed'' hist = 0 \<and> events ''request.failed'' hist = 0 \<and>
     events ''cache.hit'' hist = 1 \<and> count_of is_store hist = 0 \<and> count_of is_commit hist = 0"

lemmas outcome_defs = nothing_yet_def accounted_for_def given_up_def from_cache_def

definition outcome :: "'w Pipeline \<Rightarrow> action list \<Rightarrow> phase \<Rightarrow> bool" where
  "outcome p hist ph \<longleftrightarrow>
     (let sel = events ''route.selected'' hist
      in case ph of
        Trying rs \<Rightarrow> sel = 1 \<and> nothing_yet hist
      | Invoked rs err \<Rightarrow> sel = 1 \<and> nothing_yet hist
      | GivingUp \<Rightarrow> sel = 1 \<and> nothing_yet hist
      | StreamOpen \<Rightarrow> sel = 1 \<and> nothing_yet hist
      | Finishing ts \<Rightarrow> sel = 1 \<and> events ''request.completed'' hist = 0 \<and>
          events ''request.failed'' hist = 0 \<and> events ''cache.hit'' hist = 0 \<and>
          (\<exists>over. finishes p = over @ ts \<and>
             count_of is_store hist = count_list over TStore \<and>
             count_of is_commit hist = count_list over TCommit)
      | Observing n \<Rightarrow> sel = 1 \<and> accounted_for p hist
      | Closed \<Rightarrow> (sel = 0 \<and> (nothing_yet hist \<or> from_cache hist)) \<or>
          (sel = 1 \<and> (accounted_for p hist \<or> given_up hist))
      | _ \<Rightarrow> sel = 0 \<and> nothing_yet hist)"

lemma outcome_preds [simp]:
  "is_event n (AEvent ev) = (ev_EventType ev = n)"
  "is_event n (ACallAuthn q1 a1) = False" "is_event n (ACallAuthz q2 a2) = False"
  "is_event n (ACallPrompt q3 a3) = False" "is_event n (ACallLookup q4 a4) = False"
  "is_event n (ACallCheck q5 a5) = False" "is_event n (ACallRoute q6 a6) = False"
  "is_event n (ACallInvoke nm q7 a7) = False" "is_event n (ACallStore q8 a8) = False"
  "is_event n (ACallCommit q9 a9) = False" "is_event n (ACallObserve q10 a10) = False"
  by (simp_all add: is_event_def)

lemma outcome_calls [simp]:
  "is_store (AEvent ev) = False" "is_commit (AEvent ev) = False"
  "is_store (ACallInvoke nm q7 a7) = False" "is_commit (ACallInvoke nm q7 a7) = False"
  "is_store (ACallStore q8 a8) = True" "is_commit (ACallStore q8 a8) = False"
  "is_store (ACallCommit q9 a9) = False" "is_commit (ACallCommit q9 a9) = True"
  "is_store (ACallObserve q10 a10) = False" "is_commit (ACallObserve q10 a10) = False"
  by (simp_all add: is_store_def is_commit_def)

lemma gate_counts:
  assumes "advance_gate g gs a = Some ph"
  shows "\<not> is_event n a" and "\<not> is_store a" and "\<not> is_commit a"
  using assms by (cases rule: advance_gate_elim; simp add: is_store_def is_commit_def)+

lemma outcome_step:
  assumes "outcome p hist ph" and "advance p st ph a = Some ph'"
  shows "outcome p (hist @ [a]) ph'"
  using assms(2)
proof (cases rule: advance_elim)
  case (authn rq ans)
  with assms(1) show ?thesis
    by (simp add: outcome_def Let_def outcome_defs is_store_def is_commit_def)
next
  case (gate g gs)
  have "ph' = Closed \<or> ph' = HitFound \<or> (\<exists>gs. ph' = Gates gs) \<or> (\<exists>rs. ph' = Selected rs)"
    using gate(2) by (cases rule: advance_gate_elim) (auto split: sum.splits)
  then show ?thesis using gate_counts [OF gate(2)] assms(1) gate(1)
    by (auto simp: outcome_def Let_def outcome_defs)
next
  case (invoke r rs rq ans)
  with assms(1) show ?thesis
    by (auto simp: outcome_def Let_def outcome_defs split: option.splits)
next
  case (store ts rq ans)
  with assms(1) obtain over where "finishes p = over @ TStore # ts"
    "count_of is_store hist = count_list over TStore" "count_of is_commit hist = count_list over TCommit"
    by (auto simp: outcome_def Let_def)
  with assms(1) store show ?thesis
    by (auto simp: outcome_def Let_def intro!: exI [of _ "over @ [TStore]"])
next
  case (commit ts rq ans)
  with assms(1) obtain over where "finishes p = over @ TCommit # ts"
    "count_of is_store hist = count_list over TStore" "count_of is_commit hist = count_list over TCommit"
    by (auto simp: outcome_def Let_def)
  with assms(1) commit show ?thesis
    by (auto simp: outcome_def Let_def intro!: exI [of _ "over @ [TCommit]"])
next
  case (completed ts ev)
  with assms(1) obtain over where over: "finishes p = over @ TCompleted # ts"
    "count_of is_store hist = count_list over TStore" "count_of is_commit hist = count_list over TCommit"
    by (auto simp: outcome_def Let_def)
  then have "over = butlast (finishes p)"
    by (auto simp: finishes_def append_eq_Cons_conv Cons_eq_append_conv split: if_splits)
  then have "count_list over TStore = (if pp_cache p = None then 0 else 1)"
    "count_list over TCommit = (if pp_ratelimit p = None then 0 else 1)"
    by (auto simp: finishes_def)
  with assms(1) completed over show ?thesis by (auto simp: outcome_def Let_def outcome_defs)
next
  case (observe n evs ans)
  with assms(1) show ?thesis by (auto simp: outcome_def Let_def outcome_defs)
qed (use assms(1) in \<open>auto simp: outcome_def Let_def outcome_defs\<close>)

lemma follow_outcome:
  assumes "follow p st (entry p) acts = Some ph"
  shows "outcome p acts ph"
  by (rule follow_invariant [OF assms, where I = "outcome p"],
      simp add: entry_def outcome_def nothing_yet_def, rule outcome_step)

end
