(* ===== verification/ExecuteResult.thy ===== *)
theory ExecuteResult
  imports ExecuteOwn FlowProps
begin

text \<open>
  What a request that succeeds is answered with: the cached response after a hit, the collected
  chunks of the last invocation otherwise, the open channel of the last invocation when
  streaming; and the headers that name the route.
\<close>

subsection \<open>Triples for returning without an error\<close>

definition returns ::
  "('w xstate \<Rightarrow> bool) \<Rightarrow> ('w, 'a) exec \<Rightarrow> ('a \<Rightarrow> 'w xstate \<Rightarrow> bool) \<Rightarrow> bool" where
  "returns P m Q \<longleftrightarrow> (\<forall>s. P s \<longrightarrow> wp m (\<lambda>r t. \<forall>x. r = Inr x \<longrightarrow> Q x t) s)"

named_theorems ret \<open>rules for returning without an error\<close>

lemma returnsD: "returns P m Q \<Longrightarrow> P s \<Longrightarrow> run_state m s = (Inr x, t) \<Longrightarrow> Q x t"
  by (auto simp: returns_def dest: wpD)

lemma returns_pre: "returns (\<lambda>_. True) m Q \<Longrightarrow> returns P m Q"
  by (simp add: returns_def)

lemma returns_fail [ret]: "returns P (fail err) Q" "returns P nil_dereference Q"
  by (simp_all add: returns_def wp_def)

lemma returns_done_with [ret]: "(\<And>s. P s \<Longrightarrow> Q x s) \<Longrightarrow> returns P (done_with x) Q"
  by (simp add: returns_def wp_done_with)

lemma returns_and_then:
  assumes "returns P m R" and "\<And>a. returns (R a) (k a) Q"
  shows "returns P (and_then m k) Q"
  using assms by (fastforce simp: returns_def intro: wp_and_then elim: wp_mono split: sum.splits)

text \<open>With a fact about the result that does not mention the state.\<close>

lemma returns_and_then_pure:
  assumes "returns P m (\<lambda>a t. B a)" and "\<And>a. B a \<Longrightarrow> returns (\<lambda>_. True) (k a) Q"
  shows "returns P (and_then m k) Q"
  by (rule returns_and_then [OF assms(1)]) (use assms(2) in \<open>auto simp: returns_def\<close>)

lemma returns_any: "returns P m (\<lambda>_ _. True)"
  by (simp add: returns_def wp_def split: prod.splits)

text \<open>When the result does not depend on what came before.\<close>

lemma returns_later [ret]: "(\<And>a. returns (\<lambda>_. True) (k a) Q) \<Longrightarrow> returns P (and_then m k) Q"
  by (rule returns_and_then [OF returns_any])

lemma returns_bind_later [ret]: "(\<And>a. returns (\<lambda>_. True) (k a) Q) \<Longrightarrow> returns P (State_Monad.bind m k) Q"
  by (auto simp: returns_def wp_def case_prod_beta)

lemma returns_if [ret]: "returns P m Q \<Longrightarrow> returns P n Q \<Longrightarrow> returns P (if b then m else n) Q"
  by simp

lemma returns_bind:
  assumes "\<And>s. P s \<Longrightarrow> wp m R s" and "\<And>a. returns (R a) (k a) Q"
  shows "returns P (State_Monad.bind m k) Q"
  using assms by (fastforce simp: returns_def intro: wp_bind elim: wp_mono)

subsection \<open>The last invocation and its answer\<close>

definition last_invocation :: "action list \<Rightarrow> ((string \<times> string) \<times> (goerr + ResponseChunk list)) option" where
  "last_invocation hist = (case rev (invocations hist) of [] \<Rightarrow> None | x # _ \<Rightarrow> Some x)"

lemma last_invocation_snoc [simp]:
  "last_invocation (hist @ [a]) = (case invocation a of None \<Rightarrow> last_invocation hist | Some x \<Rightarrow> Some x)"
  by (auto simp: last_invocation_def split: option.splits)

text \<open>The headers name the last upstream invoked.\<close>

definition route_headers :: "Result \<Rightarrow> string \<Rightarrow> string \<Rightarrow> bool" where
  "route_headers res name model \<longleftrightarrow>
     fmlookup (re_Headers res) ''X-Gateway-Route-Provider'' = Some name \<and>
     fmlookup (re_Headers res) ''X-Gateway-Route-Model'' = Some model \<and>
     fmlookup (re_Headers res) ''X-Gateway-Fallback-Index'' = Some (show_int (re_FallbackIndex res))"

definition collected_answer :: "ChatCompletionRequest \<Rightarrow> 'w xstate \<Rightarrow> bool" where
  "collected_answer req t \<longleftrightarrow>
     (\<exists>name model ch. last_invocation (x_trace t) = Some ((name, model), Inr ch) \<and>
        first_error ch = None \<and> route_headers (x_result t) name model \<and>
        re_Usage (x_result t) = last_usage ch \<and>
        rp_Choices (re_Response (x_result t)) = Some [assistant_choice (all_text ch)] \<and>
        rp_Model (re_Response (x_result t)) = rq_Model req)"

definition stream_answer :: "'w xstate \<Rightarrow> bool" where
  "stream_answer t \<longleftrightarrow>
     (\<exists>name model ch task. last_invocation (x_trace t) = Some ((name, model), Inr ch) \<and>
        route_headers (x_result t) name model \<and>
        re_Stream (x_result t) = Some task \<and> st_chunks task = ch)"

definition cached_answer :: "'w xstate \<Rightarrow> bool" where
  "cached_answer t \<longleftrightarrow>
     (\<exists>rq lk. ACallLookup rq (Inr lk) \<in> set (x_trace t) \<and> kr_Hit lk \<and>
        re_Response (x_result t) = cr_Response (kr_Response lk) \<and>
        re_Usage (x_result t) = cr_Usage (kr_Response lk) \<and>
        fmlookup (re_Headers (x_result t)) ''X-Gateway-Cache'' = Some ''HIT'')"

subsection \<open>Collecting\<close>

lemma collect_loop_model:
  "collect_loop m cs acc = Inr acc' \<Longrightarrow> (rp_ID (co_resp acc) \<noteq> [] \<longrightarrow> rp_Model (co_resp acc) = m) \<Longrightarrow>
     rp_ID (co_resp acc') \<noteq> [] \<longrightarrow> rp_Model (co_resp acc') = m"
proof (induction cs arbitrary: acc)
  case (Cons c cs)
  from Cons.prems(1) show ?case
    by (cases "rc_Error c")
      (simp_all add: Let_def,
        erule Cons.IH, use Cons.prems(2) in \<open>auto simp: start_response_def split: option.splits\<close>)
qed simp

lemma last_usage_from_zero: "last_usage_from zero_usage cs = last_usage cs"
  by (simp add: last_usage_from_def last_usage_def)

lemma finish_response_choices [simp]:
  "rp_Choices (finish_response acc) = Some [assistant_choice (co_content acc)]"
  "rp_Model (finish_response acc) = rp_Model (co_resp acc)"
  by (simp_all add: finish_response_def Let_def)

lemma collectResponse_result:
  assumes "run_state (collectResponse e cs model) s = (Inr (resp, usage), t)"
  shows "first_error cs = None \<and> usage = last_usage cs \<and> rp_Model resp = model \<and>
     rp_Choices resp = Some [assistant_choice (all_text cs)]"
proof -
  from assms obtain acc where acc: "collect_loop model cs empty_collected = Inr acc"
    by (auto simp: collectResponse_def split: sum.splits)
  have ok: "first_error cs = None" using acc collect_loop_error by blast
  from collect_loop_result [OF acc]
  have vals: "co_content acc = all_text cs" "co_usage acc = last_usage cs"
    by (simp_all add: empty_collected_def last_usage_from_zero)
  have "rp_ID (co_resp acc) \<noteq> [] \<longrightarrow> rp_Model (co_resp acc) = model"
    by (rule collect_loop_model [OF acc]) (simp add: empty_collected_def zero_response_def)
  then show ?thesis
    using assms ok vals
    by (cases "rp_ID (co_resp acc) = []") (auto simp: collectResponse_def acc Let_def split: prod.splits)
qed

lemma collectResponse_error:
  "run_state (collectResponse e cs model) s = (Inl err, t) \<Longrightarrow> first_error cs = Some err"
  using collect_loop_first_error [of model cs empty_collected]
  by (auto simp: collectResponse_def Let_def split: sum.splits if_splits prod.splits)


subsection \<open>Steps that keep the result and the last invocation\<close>

definition same_answer :: "'w xstate \<Rightarrow> 'w xstate \<Rightarrow> bool" where
  "same_answer s t \<longleftrightarrow> x_result t = x_result s \<and>
     last_invocation (x_trace t) = last_invocation (x_trace s)"

interpretation kept: step_relation same_answer
  by unfold_locales (simp_all add: same_answer_def)

lemma kept_prims:
  "state_io_rel same_answer (new_uuid e)" "state_io_rel same_answer (now e)"
  "state_io_rel same_answer (new_map m)" "state_io_rel same_answer (read_map r)"
  "state_io_rel same_answer (enqueue ev)" "state_io_rel same_answer (fail err)"
  by (auto simp: state_io_rel_def same_answer_def new_uuid_def now_def new_map_def read_map_def
      enqueue_def split: prod.splits option.splits)

lemma kept_calls:
  "state_io_rel same_answer (call ACallStore m1 q1)" "state_io_rel same_answer (call ACallCommit m2 q2)"
  "state_io_rel same_answer (call ACallObserve m3 q3)"
  by (auto simp: state_io_rel_def same_answer_def call_def split: prod.splits)

lemmas kept_steps = kept_prims kept_calls kept.keeps

lemma kept_observers: "state_io_rel same_answer (blocking_observers e obs rid ident ref usage)"
  by (induction obs) (unfold blocking_observers.simps, (intro kept_steps; assumption)+)

lemma kept_afterSuccess: "state_io_rel same_answer (afterSuccess p e ctx ident req ref rid resp usage)"
  unfolding afterSuccess_def transcript_props_def store_in_cache_def commit_usage_def emit_def
  by (intro kept_steps kept_observers)

lemma kept_route_props: "state_io_rel same_answer (route_props e ref r i started)"
  unfolding route_props_def by (intro kept_steps)

lemma kept_collectResponse: "state_io_rel same_answer (collectResponse e cs model)"
  unfolding collectResponse_def Let_def by (intro kept_steps)

lemma wp_kept:
  "state_io_rel same_answer m \<Longrightarrow> (\<And>a t. same_answer s t \<Longrightarrow> Q a t) \<Longrightarrow> wp m Q s"
  by (blast intro: wpI dest: kept.keeps_run)

subsection \<open>The loops\<close>

definition announced :: "SelectedRoute \<Rightarrow> 'w xstate \<Rightarrow> bool" where
  "announced r s \<longleftrightarrow> route_headers (x_result s) (sr_ProviderInstance r) (sr_ProviderModel r)"

lemma wp_announce_route: "wp (announce_route r i) (\<lambda>_ t. announced r t) s"
  by (simp add: wp_def announce_route_def announced_def route_headers_def set_header_def update_result_def)

lemma announced_kept: "announced r s \<Longrightarrow> same_answer s t \<Longrightarrow> announced r t"
  by (simp add: announced_def same_answer_def)

text \<open>After the call: the upstream answered \<open>ans\<close>, and the headers name it.\<close>

definition answered :: "SelectedRoute \<Rightarrow> goerr + ResponseChunk list \<Rightarrow> 'w xstate \<Rightarrow> bool" where
  "answered r ans t \<longleftrightarrow> announced r t \<and>
     last_invocation (x_trace t) = Some ((sr_ProviderInstance r, sr_ProviderModel r), ans)"

lemma answered_kept: "answered r ans s \<Longrightarrow> same_answer s t \<Longrightarrow> answered r ans t"
  by (auto simp: answered_def same_answer_def announced_def)

lemma wp_invoke:
  "announced r s \<Longrightarrow>
     wp (call (ACallInvoke (sr_ProviderInstance r)) m (invoke_request ctx ident r req ps)) (answered r) s"
  by (simp add: wp_def call_def answered_def announced_def invoke_request_def split: prod.splits)

lemma returns_upstream_failed:
  "returns (\<lambda>_. True) next_try (\<lambda>x t. x = Served \<longrightarrow> Q t) \<Longrightarrow>
     returns P (upstream_failed e rid ident ref err next_try) (\<lambda>x t. x = Served \<longrightarrow> Q t)"
  unfolding upstream_failed_def by (intro ret) simp_all

lemma returns_store_answer:
  "returns (answered r (Inr ch))
     (do { collected \<leftarrow> collectResponse e ch (rq_Model req);
           case collected of
             Inl ue \<Rightarrow> upstream_failed e rid ident ref (EUpstream ue) (next_try ue)
           | Inr (resp, usage) \<Rightarrow>
               do { update_result (\<lambda>res. res\<lparr>re_Response := resp, re_Usage := usage\<rparr>);
                    and_then (afterSuccess p e ctx ident req ref rid resp usage)
                      (\<lambda>_. done_with Served) } })
     (\<lambda>x t. x = Served \<longrightarrow> collected_answer req t)"
  if "\<And>ue. returns (\<lambda>_. True) (next_try ue) (\<lambda>x t. x = Served \<longrightarrow> collected_answer req t)"
proof (rule returns_bind [where R = "\<lambda>c t. answered r (Inr ch) t \<and> (\<forall>resp usage. c = Inr (resp, usage) \<longrightarrow>
    first_error ch = None \<and> usage = last_usage ch \<and> rp_Model resp = rq_Model req \<and>
    rp_Choices resp = Some [assistant_choice (all_text ch)])"], goal_cases)
  case (1 s)
  then show ?case
    by (intro wpI) (auto dest: collectResponse_result
        kept.keeps_run [OF kept_collectResponse] intro: answered_kept)
next
  case (2 c)
  show ?case
  proof (cases c)
    case (Inl ue)
    with that show ?thesis by (simp add: returns_upstream_failed)
  next
    case (Inr v)
    then obtain resp usage where c: "c = Inr (resp, usage)" by (cases v) simp
    have "wp (and_then (afterSuccess p e ctx ident req ref rid resp usage) (\<lambda>_. done_with Served))
        (\<lambda>r t. \<forall>x. r = Inr x \<longrightarrow> x = Served \<longrightarrow> collected_answer req t) t"
      if "collected_answer req t" for t
      using that
      by (intro wp_and_then wp_kept [OF kept_afterSuccess])
        (auto simp: same_answer_def collected_answer_def intro!: wp_done_with split: sum.splits)
    then show ?thesis
      unfolding c sum.case prod.case
      by (intro returns_bind [where R = "\<lambda>_. collected_answer req"])
        (auto simp: wp_def update_result_def collected_answer_def answered_def announced_def
          route_headers_def returns_def)
  qed
qed

lemma returns_bind_kept:
  assumes "state_io_rel same_answer m" and "\<And>s t. P s \<Longrightarrow> same_answer s t \<Longrightarrow> P t"
    and "\<And>a. returns P (k a) Q"
  shows "returns P (State_Monad.bind m k) Q"
  by (rule returns_bind [where R = "\<lambda>_. P", OF wp_kept [OF assms(1)] assms(3)]) (rule assms(2))

text \<open>Up to the answer of an upstream the two loops are the same.\<close>

lemma returns_try:
  assumes "\<And>ref' ans. returns (answered r ans) (k ref' ans) Q"
  shows "returns P
     (do { announce_route r i;
           ref' \<leftarrow> route_props e ref r i started;
           ps \<leftarrow> read_map ref';
           ans \<leftarrow> call (ACallInvoke (sr_ProviderInstance r)) m (invoke_request ctx ident r req ps);
           k ref' ans }) Q"
  by (rule returns_bind [where R = "\<lambda>_. announced r", OF wp_announce_route],
      rule returns_bind_kept [OF kept_route_props announced_kept], assumption, assumption,
      rule returns_bind_kept [OF kept_prims(4) announced_kept], assumption, assumption,
      rule returns_bind [OF wp_invoke], assumption, rule assms)

lemma returns_nonstream_loop:
  "returns (\<lambda>_. True) (nonstream_loop p e req ctx ident ref rid started rs i lastErr)
     (\<lambda>x t. x = Served \<longrightarrow> collected_answer req t)"
proof (induction rs arbitrary: i lastErr)
  case Nil
  then show ?case by (simp add: returns_done_with)
next
  case (Cons r rs)
  have "returns (\<lambda>_. True) (nonstream_loop p e req ctx ident ref rid started (r # rs) i lastErr)
      (\<lambda>x t. x = Served \<longrightarrow> collected_answer req t)"
    if some: "fmlookup (pp_upstreams p) (sr_ProviderInstance r) = Some up" for up
    unfolding nonstream_loop.simps some option.case
  proof (rule returns_try, goal_cases)
    case (1 ref' ans)
    show ?case
      by (cases ans; simp only: sum.case)
        (rule returns_upstream_failed returns_store_answer; rule Cons.IH)+
  qed
  with Cons.IH show ?case
    by (cases "fmlookup (pp_upstreams p) (sr_ProviderInstance r)") simp_all
qed

lemma returns_stream_loop:
  "returns (\<lambda>_. True) (stream_loop p e req ctx ident ref rid started rs i lastErr)
     (\<lambda>x t. x = Served \<longrightarrow> stream_answer t)"
proof (induction rs arbitrary: i lastErr)
  case Nil
  then show ?case by (simp add: returns_done_with)
next
  case (Cons r rs)
  have "returns (\<lambda>_. True) (stream_loop p e req ctx ident ref rid started (r # rs) i lastErr)
      (\<lambda>x t. x = Served \<longrightarrow> stream_answer t)"
    if some: "fmlookup (pp_upstreams p) (sr_ProviderInstance r) = Some up" for up
    unfolding stream_loop.simps some option.case
  proof (rule returns_try, goal_cases)
    case (1 ref' ans)
    show ?case
    proof (cases ans)
      case (Inl err)
      then show ?thesis by (simp only: sum.case) (rule returns_upstream_failed, rule Cons.IH)
    next
      case (Inr ch)
      then show ?thesis
        by (auto simp: returns_def wp_def update_result_def answered_def announced_def
            stream_answer_def route_headers_def)
    qed
  qed
  with Cons.IH show ?case
    by (cases "fmlookup (pp_upstreams p) (sr_ProviderInstance r)") simp_all
qed

subsection \<open>The whole request\<close>

definition ok_answer :: "ChatCompletionRequest \<Rightarrow> 'w xstate \<Rightarrow> bool" where
  "ok_answer req t \<longleftrightarrow> (if rq_Stream req then stream_answer t else collected_answer req t \<or> cached_answer t)"

lemma returns_finish_loop:
  "returns (\<lambda>t. x = Served \<longrightarrow> Q t) (finish_loop p e req ident ref rid started x) (\<lambda>_. Q)"
  by (cases x) (auto simp: finish_loop_def intro!: ret)

lemma returns_route_and_execute:
  "returns P (route_and_execute p e req ctx ident ref summary rid started) (\<lambda>_. ok_answer req)"
proof -
  have stream: "returns P (executeStream p e req ctx ident ref rid started routes) (\<lambda>_. stream_answer)"
    for P routes
    unfolding executeStream_eq
    by (rule returns_and_then [OF returns_pre [OF returns_stream_loop] returns_finish_loop])
  have nonstream: "returns P (executeNonStream p e req ctx ident ref rid started routes)
      (\<lambda>_. collected_answer req)" for P routes
    unfolding executeNonStream_eq
    by (rule returns_and_then [OF returns_pre [OF returns_nonstream_loop] returns_finish_loop])
  have run: "returns P (if rq_Stream req then executeStream p e req ctx ident ref rid started routes
      else executeNonStream p e req ctx ident ref rid started routes) (\<lambda>_. ok_answer req)" for P routes
    using stream [of P routes] nonstream [of P routes]
    by (auto simp: ok_answer_def returns_def elim!: wp_mono)
  show ?thesis
    unfolding route_and_execute_def
    by (rule returns_later, rule returns_later, rule returns_bind_later, rule returns_later, rule run)
qed

lemma returns_cache_lookup:
  "returns P (cache_lookup p e ctx ident ref rid req)
     (\<lambda>hit t. hit \<longrightarrow> \<not> rq_Stream req \<and> cached_answer t)"
proof (cases "pp_cache p = None \<or> rq_Stream req")
  case True
  then show ?thesis
    by (auto simp: cache_lookup_def intro!: returns_done_with split: option.splits)
next
  case False
  then obtain cache where Some: "pp_cache p = Some cache" and st: "\<not> rq_Stream req" by auto
  have "cached_answer t"
    if "run_state (cache_lookup p e ctx ident ref rid req) s = (Inr True, t)" for s t
    using that st
    by (auto simp: cache_lookup_def Some call_def read_map_def update_result_def set_header_def emit_def
        new_uuid_def now_def enqueue_def cached_answer_def split: prod.splits sum.splits option.splits if_splits)
      blast
  then show ?thesis using st by (auto simp: returns_def intro!: wpI)
qed

lemma returns_resolve_prompt:
  "returns P (resolve_prompt p ctx ident ref req)
     (\<lambda>req' t. rq_Stream req' = rq_Stream req \<and> rq_Model req' = rq_Model req)"
  by (auto simp: returns_def wp_def resolve_prompt_def call_def read_map_def write_map_def
      split: prod.splits sum.splits option.splits if_splits)

lemma ok_answer_cong:
  "rq_Stream req' = rq_Stream req \<Longrightarrow> rq_Model req' = rq_Model req \<Longrightarrow> ok_answer req' t = ok_answer req t"
  by (simp add: ok_answer_def collected_answer_def)

lemma returns_admit:
  "returns P (admit_and_execute p e req ctx ident ref summary rid started) (\<lambda>_. ok_answer req)"
  unfolding admit_and_execute_def
proof (rule returns_later, rule returns_later, rule returns_and_then_pure [OF returns_resolve_prompt],
    rule returns_and_then [OF returns_cache_lookup], goal_cases)
  case (1 _ _ req' hit)
  then have eq: "ok_answer req' = ok_answer req"
    by (intro ext ok_answer_cong) simp_all
  show ?case
  proof (cases hit)
    case True
    then show ?thesis unfolding eq [symmetric]
      by (auto simp: ok_answer_def intro!: returns_done_with)
  next
    case False
    then show ?thesis unfolding eq [symmetric]
      by (simp add: returns_later returns_route_and_execute)
  qed
qed

lemma returns_ExecuteChat: "returns P (ExecuteChat p e req headers ip) (\<lambda>_. ok_answer req)"
  unfolding ExecuteChat_def Let_def
  by (rule returns_bind_later, rule returns_bind_later)
    (auto intro!: returns_if returns_fail returns_bind_later returns_later returns_admit split: prod.splits)

end
