(* ===== verification/Examples.thy ===== *)
theory Examples
  imports ExecuteResult
begin

text \<open>
  One concrete gateway the properties are instantiated at: an authenticator, a rate limiter, a
  cache that misses, a router and two upstreams of which the first fails with a retryable error.
  The world is a counter that the clock and the identifiers read.
\<close>

definition zero_config :: Config where
  "zero_config = \<lparr>
     cf_Server = \<lparr>sv_Listen = [], sv_RequestTimeout = 0, sv_StreamIdleTimeout = 0\<rparr>,
     cf_Auth = \<lparr>au_Anonymous = False\<rparr>,
     cf_Secrets = \<lparr>sc_Env = \<lparr>es_Enabled = False\<rparr>\<rparr>,
     cf_Plugins = [],
     cf_Pipeline = \<lparr>pl_Authenticator = [], pl_Authorizer = [], pl_RateLimiter = [],
       pl_CacheProvider = [], pl_PromptProvider = [], pl_Router = [], pl_CostProvider = [],
       pl_ModelRegistryProvider = [], pl_UpstreamProviders = [], pl_Observers = [],
       pl_BlockingObservers = []\<rparr>,
     cf_Models = \<lparr>mo_Aliases = fmempty\<rparr>,
     cf_Fallbacks = \<lparr>fb_MaxAttempts = 0, fb_RetryOn = [], fb_DoNotRetryOn = []\<rparr>,
     cf_Observability = \<lparr>ob_QueueSize = 0, ob_BatchSize = 0, ob_FlushInterval = 0,
       ob_OnOverflow = [], ob_CapturePayloads = False\<rparr>,
     cf_Restart = \<lparr>rt_MaxAttempts = 0, rt_InitialBackoff = 0, rt_MaxBackoff = 0\<rparr>,
     cf_AllowZeroPlugins = False\<rparr>"

definition example_plugin :: "string \<Rightarrow> PluginConfig" where
  "example_plugin name = \<lparr>pc_Name = name,
     pc_Source = \<lparr>ps_Type = ''filesystem'', ps_Path = ''/opt/plugin'', ps_Repository = [], ps_Release = [],
       ps_Asset = [], ps_Binary = [], ps_Checksum = []\<rparr>,
     pc_Capabilities = [''router''], pc_FailMode = [], pc_Config = [], pc_Checksum = [], pc_Trust = [],
     pc_Sandbox = \<lparr>sb_Enabled = False, sb_MemoryMB = 0, sb_CPUQuota = zero_float, sb_AllowNetwork = [],
       sb_ReadOnlyFilesystem = False, sb_AllowChildProcesses = False\<rparr>\<rparr>"

definition example_alias :: ModelAlias where
  "example_alias = \<lparr>ma_Candidates =
     [\<lparr>mc_Provider = ''a'', mc_Model = ''m1'', mc_Weight = 0, mc_Region = [], mc_Properties = fmempty\<rparr>,
      \<lparr>mc_Provider = ''b'', mc_Model = ''m2'', mc_Weight = 7, mc_Region = [], mc_Properties = fmempty\<rparr>]\<rparr>"

definition example_config :: Config where
  "example_config = ApplyDefaults (zero_config\<lparr>
     cf_Pipeline := (cf_Pipeline zero_config)\<lparr>pl_Authenticator := ''auth'', pl_RateLimiter := ''limits'',
       pl_CacheProvider := ''cache'', pl_Router := ''router'', pl_UpstreamProviders := [''a'', ''b'']\<rparr>,
     cf_Models := \<lparr>mo_Aliases = fmap_of_list [(''gpt'', example_alias)]\<rparr>\<rparr>)"

subsection \<open>Plugins\<close>

definition example_identity :: Identity where
  "example_identity = \<lparr>id_Subject = ''ann'', id_TenantID = ''acme'', id_Groups = [],
     id_Claims = fmempty, id_AuthMethod = ''key''\<rparr>"

definition example_chunk :: ResponseChunk where
  "example_chunk = \<lparr>
     rc_Chunk = Some \<lparr>ck_ID = ''c1'', ck_Object = [], ck_Created = 1, ck_Model = ''m2'',
       ck_Choices = Some [\<lparr>ch_Index = 0, ch_Message = zero_message,
         ch_Delta = zero_message\<lparr>cm_Content := AString ''hi''\<rparr>, ch_FinishReason = []\<rparr>]\<rparr>,
     rc_Usage = Some (zero_usage\<lparr>us_TotalTokens := 5\<rparr>), rc_Error = None\<rparr>"

definition example_error :: UpstreamError where
  "example_error = \<lparr>ue_Code = ''busy'', ue_Message = ''busy'', ue_HTTPStatus = 503,
     ue_Retryable = True, ue_RateLimited = False\<rparr>"

definition example_upstream :: "(goerr + ResponseChunk list) \<Rightarrow> nat UpstreamProvider" where
  "example_upstream ans = \<lparr>Invoke = (\<lambda>rq w. (ans, w + 1)), ListModels = (\<lambda>_ w. (Inr [], w))\<rparr>"

definition example_routes :: "SelectedRoute list" where
  "example_routes = [
     \<lparr>sr_ProviderInstance = ''a'', sr_ProviderModel = ''m1'', sr_Priority = 0, sr_Properties = fmempty\<rparr>,
     \<lparr>sr_ProviderInstance = ''b'', sr_ProviderModel = ''m2'', sr_Priority = 1, sr_Properties = fmempty\<rparr>]"

definition example_state_of_limits :: RateLimitState where
  "example_state_of_limits = \<lparr>ls_RequestLimit = 0, ls_RequestRemaining = 0, ls_TokenLimit = 0,
     ls_TokenRemaining = 0, ls_BudgetLimitUSD = zero_float, ls_BudgetRemainingUSD = zero_float,
     ls_ResetUnixNano = 0\<rparr>"

definition example_registry :: "nat Registry" where
  "example_registry =
     AddAuthenticator ''auth'' \<lparr>Authenticate = (\<lambda>rq w. (Inr \<lparr>ar_Allow = True,
       ar_Identity = example_identity, ar_DenyReason = [], ar_Diagnostics = []\<rparr>, w + 1))\<rparr>
     (AddRateLimiter ''limits'' \<lparr>Check = (\<lambda>rq w. (Inr \<lparr>lr_Decision = ''allow'', lr_DenyReason = [],
         lr_RetryAfterMS = 0, lr_State = example_state_of_limits\<rparr>, w)), Commit = (\<lambda>rq w. (Inr (), w))\<rparr>
     (AddCacheProvider ''cache'' \<lparr>Lookup = (\<lambda>rq w. (Inl (EText ''miss''), w)), Store = (\<lambda>rq w. (Inr (), w))\<rparr>
     (AddRouter ''router'' \<lparr>Route = (\<lambda>rq w. (Inr \<lparr>tr_Routes = example_routes, tr_Reason = [],
         tr_Diagnostics = []\<rparr>, w))\<rparr>
     (AddUpstreamProvider ''a'' (example_upstream (Inl (EUpstream example_error)))
     (AddUpstreamProvider ''b'' (example_upstream (Inr [example_chunk])) NewRegistry)))))"

definition example_models :: ModelRegistry where
  "example_models = NewModelRegistry [(''gpt'', example_alias)]"

definition example_pipeline :: "nat Pipeline" where
  "example_pipeline = compiled example_config example_registry example_models"

definition example_env :: "nat env" where
  "example_env = \<lparr>en_uuid = (\<lambda>w. (show_nat w, w + 1)), en_now = (\<lambda>w. (int w * 1000000, w + 1)),
     en_sha256_hex = (\<lambda>s. s)\<rparr>"

definition example_request :: ChatCompletionRequest where
  "example_request = \<lparr>rq_Model = ''gpt'', rq_Messages = Some [zero_message\<lparr>cm_Role := ''user''\<rparr>],
     rq_Stream = False, rq_Temperature = None, rq_MaxTokens = None, rq_Tools = ANil,
     rq_ToolChoice = ANil, rq_Metadata = ANil, rq_Extra = []\<rparr>"

definition example_start :: "nat xstate" where
  "example_start = \<lparr>x_world = 0, x_heap = [], x_queue = pp_events example_pipeline, x_trace = [],
     x_result = initial_result []\<rparr>"

abbreviation example_run :: "(halt + unit) \<times> nat xstate" where
  "example_run \<equiv> run_state (ExecuteChat example_pipeline example_env example_request [] ''10.0.0.1'') example_start"

lemma example_compiles: "compile example_config example_registry example_models = Inr example_pipeline"
proof -
  have "compilable example_config example_registry" by code_simp
  then show ?thesis by (simp add: example_pipeline_def compile_Inr_iff)
qed

lemma example_ready: "Ready example_pipeline"
  by code_simp

lemma example_parts [simp]:
  "pp_ready example_pipeline" "\<not> au_Anonymous (cf_Auth (pp_cfg example_pipeline))"
  "pp_authz example_pipeline = None" "pp_prompt example_pipeline = None"
  "pp_blockingObservers example_pipeline = []"
  "\<not> ob_CapturePayloads (cf_Observability (pp_cfg example_pipeline))"
  "fb_MaxAttempts (cf_Fallbacks (pp_cfg example_pipeline)) = 3"
  by code_simp+

lemma example_plugins [simp]:
  "pp_authn example_pipeline = Some \<lparr>Authenticate = (\<lambda>rq w. (Inr \<lparr>ar_Allow = True,
       ar_Identity = example_identity, ar_DenyReason = [], ar_Diagnostics = []\<rparr>, w + 1))\<rparr>"
  "pp_ratelimit example_pipeline = Some \<lparr>Check = (\<lambda>rq w. (Inr \<lparr>lr_Decision = ''allow'', lr_DenyReason = [],
         lr_RetryAfterMS = 0, lr_State = example_state_of_limits\<rparr>, w)), Commit = (\<lambda>rq w. (Inr (), w))\<rparr>"
  "pp_cache example_pipeline =
     Some \<lparr>Lookup = (\<lambda>rq w. (Inl (EText ''miss''), w)), Store = (\<lambda>rq w. (Inr (), w))\<rparr>"
  "pp_router example_pipeline = Some \<lparr>Route = (\<lambda>rq w. (Inr \<lparr>tr_Routes = example_routes, tr_Reason = [],
         tr_Diagnostics = []\<rparr>, w))\<rparr>"
  "fmlookup (pp_upstreams example_pipeline) ''a'' = Some (example_upstream (Inl (EUpstream example_error)))"
  "fmlookup (pp_upstreams example_pipeline) ''b'' = Some (example_upstream (Inr [example_chunk]))"
  by (simp_all add: example_pipeline_def compiled_def example_config_def example_registry_def zero_config_def
      ApplyDefaults_def found_def getAuthenticator_def getRateLimiter_def getCacheProvider_def getRouter_def
      getUpstreamProvider_def get_or_error_def AddAuthenticator_def AddRateLimiter_def AddCacheProvider_def
      AddRouter_def AddUpstreamProvider_def NewRegistry_def Let_def)

lemma example_candidates: "\<exists>cs. Candidates (pp_models example_pipeline) ''gpt'' = Inr cs"
  by (simp add: example_pipeline_def compiled_def Let_def example_models_def Candidates_def
      NewModelRegistry_def example_alias_def)

lemma example_queue: "queue_inv (x_queue example_start)"
  by (simp add: example_start_def example_pipeline_def compiled_def Let_def config_queue_def queue_inv_New)


text \<open>A smaller one: anonymous, without cache and rate limiter.\<close>

definition small_config :: Config where
  "small_config = ApplyDefaults (zero_config\<lparr>
     cf_Auth := \<lparr>au_Anonymous = True\<rparr>,
     cf_Pipeline := (cf_Pipeline zero_config)\<lparr>pl_Router := ''router'', pl_UpstreamProviders := [''b'']\<rparr>,
     cf_Models := \<lparr>mo_Aliases = fmap_of_list [(''gpt'', example_alias)]\<rparr>\<rparr>)"

definition small_pipeline :: "nat Pipeline" where
  "small_pipeline = compiled small_config example_registry example_models"

definition small_start :: "nat xstate" where
  "small_start = \<lparr>x_world = 0, x_heap = [], x_queue = NewQueue 3 1 0 [], x_trace = [],
     x_result = initial_result []\<rparr>"

lemma small_parts [simp]:
  "pp_ready small_pipeline" "au_Anonymous (cf_Auth (pp_cfg small_pipeline))"
  "pp_authz small_pipeline = None" "pp_prompt small_pipeline = None"
  "pp_blockingObservers small_pipeline = []"
  "\<not> ob_CapturePayloads (cf_Observability (pp_cfg small_pipeline))"
  "fb_MaxAttempts (cf_Fallbacks (pp_cfg small_pipeline)) = 3"
  by code_simp+

lemma small_plugins [simp]:
  "pp_ratelimit small_pipeline = None" "pp_cache small_pipeline = None"
  "pp_router small_pipeline = Some \<lparr>Route = (\<lambda>rq w. (Inr \<lparr>tr_Routes = example_routes, tr_Reason = [],
         tr_Diagnostics = []\<rparr>, w))\<rparr>"
  "fmlookup (pp_upstreams small_pipeline) ''a'' = None"
  "fmlookup (pp_upstreams small_pipeline) ''b'' = Some (example_upstream (Inr [example_chunk]))"
  by (simp_all add: small_pipeline_def compiled_def small_config_def example_registry_def zero_config_def
      ApplyDefaults_def found_def getRouter_def getUpstreamProvider_def get_or_error_def
      AddAuthenticator_def AddRateLimiter_def AddCacheProvider_def
      AddRouter_def AddUpstreamProvider_def NewRegistry_def Let_def)

lemma small_candidates: "\<exists>cs. Candidates (pp_models small_pipeline) ''gpt'' = Inr cs"
  by (simp add: small_pipeline_def compiled_def Let_def example_models_def Candidates_def
      NewModelRegistry_def example_alias_def)

lemma small_compiles: "compile small_config example_registry example_models = Inr small_pipeline"
proof -
  have "compilable small_config example_registry" by code_simp
  then show ?thesis by (simp add: small_pipeline_def compile_Inr_iff)
qed

subsection \<open>The small run succeeds\<close>

text \<open>
  The plugins answer the same whatever they are asked, so only the queue has to be followed.
\<close>

definition calm :: "'w xstate \<Rightarrow> bool" where
  "calm s \<longleftrightarrow> queue_inv (x_queue s)"

lemma calm_quiet:
  assumes "state_io_rel same_history m" and "calm s" and "\<And>a t. calm t \<Longrightarrow> Q a t"
  shows "wp m Q s"
proof (rule wpI)
  fix a t
  assume "run_state m s = (a, t)"
  then have "same_history s t" by (rule quiet.keeps_run [OF assms(1)])
  then show "Q a t" using assms(2,3) by (simp add: calm_def same_history_def)
qed

lemma calm_bind:
  assumes "state_io_rel same_history m" and "calm s" and "\<And>a t. calm t \<Longrightarrow> wp (k a) Q t"
  shows "wp (State_Monad.bind m k) Q s"
  by (rule wp_bind, rule calm_quiet [OF assms])

lemma calm_bind_call:
  "(\<And>w. m a w = (ans, g w)) \<Longrightarrow> calm s \<Longrightarrow> (\<And>t. calm t \<Longrightarrow> wp (k ans) Q t) \<Longrightarrow>
     wp (State_Monad.bind (call mk m a) k) Q s"
  by (rule wp_bind) (simp add: wp_def call_def calm_def)

lemma calm_enqueue:
  assumes "calm s" and "\<And>t. calm t \<Longrightarrow> Q (Inr ()) t"
  shows "wp (enqueue ev) Q s"
proof -
  have inv: "queue_inv (x_queue s)" using assms(1) by (simp add: calm_def)
  obtain ok q where enq: "Enqueue ev (x_queue s) = Some (ok, q)"
    using event_queue.enq_total [OF inv] by fastforce
  moreover have "queue_inv q" using inv enq by (rule Enqueue_inv)
  ultimately show ?thesis by (simp add: wp_def enqueue_def assms(2) calm_def)
qed

lemma calm_emit:
  assumes "calm s" and "\<And>t. calm t \<Longrightarrow> wp (k ()) Q t"
  shows "wp (and_then (emit e name rid ten ref usage) k) Q s"
  unfolding emit_def
  by (rule wp_and_then, rule wp_bind, rule calm_quiet [OF quiet_new_uuid assms(1)], rule wp_bind,
      erule calm_quiet [OF quiet_now], erule calm_enqueue, simp add: assms(2))

lemmas calm_steps = calm_emit calm_bind [OF quiet_new_uuid] calm_bind [OF quiet_now]
  calm_bind [OF quiet_new_map] calm_bind [OF quiet_read_map] calm_bind [OF quiet_set_header]
  calm_bind [OF quiet_update_result] calm_bind [OF quiet_summary_value]
  calm_bind [OF quiet_route_props] calm_bind [OF quiet_transcript_props]
  calm_bind [OF quiet_announce_route]

definition small_request :: ChatCompletionRequest where
  "small_request = example_request\<lparr>rq_Messages := None\<rparr>"

abbreviation small_run :: "(halt + unit) \<times> nat xstate" where
  "small_run \<equiv> run_state (ExecuteChat small_pipeline example_env small_request [] ''10.0.0.1'') small_start"

text \<open>A stage that succeeds with a known value, and the next.\<close>

definition calmly :: "('w, 'a) exec \<Rightarrow> 'a \<Rightarrow> bool" where
  "calmly m x \<longleftrightarrow> (\<forall>s. calm s \<longrightarrow> wp m (\<lambda>r t. r = Inr x \<and> calm t) s)"

lemma calmly_then:
  "calmly m x \<Longrightarrow> calm s \<Longrightarrow> (\<And>t. calm t \<Longrightarrow> wp (k x) Q t) \<Longrightarrow> wp (and_then m k) Q s"
  unfolding calmly_def by (rule wp_and_then) (auto elim!: wp_mono)

lemma small_route: "calmly (choose_routes small_pipeline ctx ident summary small_request) example_routes"
proof -
  obtain cs where cs: "Candidates (pp_models small_pipeline) ''gpt'' = Inr cs"
    using small_candidates by blast
  show ?thesis
    unfolding calmly_def choose_routes_def
    by (simp add: small_request_def example_request_def cs, intro allI impI,
        rule calm_bind [OF quiet_summary_value], assumption,
        rule calm_bind_call [where ans = "Inr \<lparr>tr_Routes = example_routes, tr_Reason = [],
           tr_Diagnostics = []\<rparr>" and g = "\<lambda>w. w"], simp, assumption)
      (simp add: example_routes_def wp_done_with)
qed

lemma small_after:
  "calmly (afterSuccess small_pipeline e ctx ident small_request ref rid resp usage) ()"
  unfolding calmly_def afterSuccess_def store_in_cache_def commit_usage_def
  by (simp, intro allI impI, (rule calm_steps, assumption)+) (simp add: wp_done_with)

lemma small_collect: "calm s \<Longrightarrow> (\<And>r u t. calm t \<Longrightarrow> wp (k (Inr (r, u))) Q t) \<Longrightarrow>
    wp (State_Monad.bind (collectResponse e [example_chunk] model) k) Q s"
  by (rule wp_bind) (simp add: collectResponse_def example_chunk_def empty_collected_def start_response_def
      zero_response_def Let_def wp_return)

lemma small_loop:
  "calmly (nonstream_loop small_pipeline e small_request ctx ident ref rid started example_routes 0 None) Served"
  unfolding calmly_def example_routes_def
  by (simp, intro allI impI, (rule calm_steps, assumption)+,
      rule calm_bind_call [where ans = "Inr [example_chunk]" and g = "\<lambda>w. w + 1"],
      simp add: example_upstream_def, assumption, simp, rule small_collect, assumption, simp,
      rule calm_steps, assumption, rule calmly_then [OF small_after], assumption)
    (simp add: wp_done_with)

lemma small_values [simp]:
  "\<not> rq_Stream small_request" "tried_routes (pp_cfg small_pipeline) example_routes = example_routes"
  "element example_routes 0 = done_with (hd example_routes)"
  by (simp_all add: small_request_def example_request_def tried_routes_eq example_routes_def element_first)

lemma small_ok: "fst small_run = Inr ()"
proof -
  have "calm small_start" by (simp add: calm_def small_start_def queue_inv_New)
  then have "wp (ExecuteChat small_pipeline example_env small_request [] ''10.0.0.1'')
      (\<lambda>r t. r = Inr ()) small_start"
    unfolding ExecuteChat_def Let_def authenticate_def admit_and_execute_def authorize_def
      resolve_prompt_def cache_lookup_def check_rate_limit_def route_and_execute_def
    apply -
    apply simp
    apply (rule calm_steps, assumption)+
    apply (rule calmly_then [OF small_route], assumption)
    apply (simp only: small_values and_then_done_with)
    apply (rule calm_steps, assumption)+
    apply (simp add: executeNonStream_eq)
    apply (rule calmly_then [OF small_loop], assumption)
    apply (simp add: finish_loop_def wp_done_with)
    done
  then show ?thesis by (simp add: wp_def split: prod.splits)
qed

end
