(* ===== verification/ExecuteProps.thy ===== *)
theory ExecuteProps
  imports Examples
begin

text \<open>
  The properties of \<open>ExecuteChat\<close>, for every pipeline that \<open>compile\<close> produces and whatever the
  plugins answer. They rest on the refinement of the request-flow automaton, on the actions every
  part of the request records, and on the answer of a request that succeeds.
\<close>

subsection \<open>From compilation to the automaton\<close>

lemma compiled_serviceable:
  assumes "compile cfg reg mr = Inr p" and "Ready p"
  shows "serviceable p" and "pp_ready p"
  using assms compiled_ok [of cfg reg mr]
  by (auto simp: compile_Inr_iff pipeline_ok_def serviceable_def Ready_def)

lemma run_ends:
  assumes "compile cfg reg mr = Inr p" and "Ready p" and "queue_inv (x_queue s)"
    and "run_state (ExecuteChat p e req headers ip) s = (r, t)"
  shows "ends p (rq_Stream req) (x_trace s) r t"
  using wpD [OF sim_ExecuteChat [OF compiled_serviceable(2,1) [OF assms(1,2)] assms(3)] assms(4)]
    compiled_serviceable [OF assms(1,2)] by simp

lemma run_accepted:
  assumes "compile cfg reg mr = Inr p" and "Ready p" and "queue_inv (x_queue s)"
    and "run_state (ExecuteChat p e req headers ip) s = (r, t)"
  obtains acts ph where "x_trace t = x_trace s @ acts" "queue_inv (x_queue t)"
    "follow p (rq_Stream req) (entry p) acts = Some ph"
    "case r of Inl h \<Rightarrow> (\<exists>err. h = Failed err) \<and> (ph = Closed \<or> ph = Gates [GRoute])
     | Inr u \<Rightarrow> rest_phase (rq_Stream req) ph"
  using run_ends [OF assms]
  by (cases r) (auto simp: ends_def stops_def sim_def)

lemma run_follows:
  assumes "compile cfg reg mr = Inr p" and "Ready p" and "queue_inv (x_queue s)"
    and "run_state (ExecuteChat p e req headers ip) s = (r, t)"
    and "x_trace t = x_trace s @ acts"
  obtains ph where "follow p (rq_Stream req) (entry p) acts = Some ph"
  using run_accepted [OF assms(1-4)] assms(5) by (metis same_append_eq)

lemma run_not_ready:
  assumes "\<not> pp_ready p"
  shows "wp (ExecuteChat p e req headers ip)
     (\<lambda>r t. r = Inl (Failed (EMissing (pp_missing p))) \<and> x_trace t = x_trace s \<and> x_queue t = x_queue s) s"
  using assms
  by (simp add: ExecuteChat_def wp_def new_uuid_def update_result_def split: prod.splits)

text \<open>The first steps of a request, executed.\<close>

lemma wp_prims:
  "(\<And>u w. Q1 u (s\<lparr>x_world := w\<rparr>)) \<Longrightarrow> wp (new_uuid e) Q1 s"
  "(\<And>i w. Q2 i (s\<lparr>x_world := w\<rparr>)) \<Longrightarrow> wp (now e) Q2 s"
  "Q3 (length (x_heap s)) (s\<lparr>x_heap := x_heap s @ [m]\<rparr>) \<Longrightarrow> wp (new_map m) Q3 s"
  "Q4 () (s\<lparr>x_result := f (x_result s)\<rparr>) \<Longrightarrow> wp (update_result f) Q4 s"
  by (simp_all add: wp_def new_uuid_def now_def new_map_def update_result_def split: prod.splits)

subsection \<open>Properties\<close>

text \<open>
  C1: Every request to a ready pipeline follows the documented flow: its plugin calls and events
  are accepted by the request-flow automaton in their order, and it ends where the flow may end.
  An error leaves the flow closed or, when the model is unknown, before routing; a success leaves
  it completed, streaming, or answered from the cache.
\<close>

theorem request_refines_flow:
  assumes "compile cfg reg mr = Inr p" and "Ready p" and "queue_inv (x_queue s)"
    and "run_state (ExecuteChat p e req headers ip) s = (r, t)"
  shows "\<exists>acts ph. x_trace t = x_trace s @ acts \<and>
     follow p (rq_Stream req) (entry p) acts = Some ph \<and>
     (case r of Inl h \<Rightarrow> ph = Closed \<or> ph = Gates [GRoute]
      | Inr u \<Rightarrow> if rq_Stream req then ph = StreamOpen else ph = Observing 0 \<or> ph = Closed)"
  by (rule run_accepted [OF assms])
    (auto simp: rest_phase_def served_phase_def split: sum.splits)

text \<open>
  C5: A request never panics, whether the pipeline is ready or not and whatever the plugins
  answer: no nil plugin is called, the first route is taken of a slice that has one, the slice of
  the routes to try ends within the routes the router returned, and the event queue does not leave
  the bounds of its buffer. The queue stays within its invariant, so the next request does not panic
  either.
\<close>

theorem request_never_panics:
  assumes "compile cfg reg mr = Inr p" and "queue_inv (x_queue s)"
    and "run_state (ExecuteChat p e req headers ip) s = (r, t)"
  shows "r \<noteq> Inl (Panicked msg) \<and> queue_inv (x_queue t)"
proof (cases "Ready p")
  case True
  show ?thesis
    by (rule run_accepted [OF assms(1) True assms(2,3)]) (auto split: sum.splits)
next
  case False
  then show ?thesis
    using wpD [OF run_not_ready assms(3)] assms(2) by (auto simp: Ready_def)
qed

text \<open>
  A pipeline with missing capabilities answers every request with the error that names them,
  calls no plugin, and emits no event.
\<close>

theorem not_ready_refuses:
  assumes "compile cfg reg mr = Inr p" and "\<not> Ready p"
    and "run_state (ExecuteChat p e req headers ip) s = (r, t)"
  shows "r = Inl (Failed (EMissing (missing_caps cfg reg))) \<and> missing_caps cfg reg \<noteq> [] \<and>
     x_trace t = x_trace s \<and> x_queue t = x_queue s"
  using wpD [OF run_not_ready assms(3)] assms(1,2)
  by (auto simp: Ready_def compile_Inr_iff compiled_def Let_def)

text \<open>
  C2: No upstream is invoked for a request that has not been admitted. Before every invocation
  the caller was authenticated (unless the gateway is anonymous) and every configured gate let
  the request through: the authorizer allowed it, the prompt was resolved, the cache lookup of a
  non-streaming request did not hit, the rate limiter did not deny, and the router gave routes.
\<close>

theorem invoke_only_admitted:
  assumes "compile cfg reg mr = Inr p" and "Ready p" and "queue_inv (x_queue s)"
    and "run_state (ExecuteChat p e req headers ip) s = (r, t)"
    and "x_trace t = x_trace s @ before @ ACallInvoke name rq ans # later"
  shows "authenticated p before \<and> (\<forall>g \<in> set (gates p (rq_Stream req)). passed g before)"
  by (rule run_follows [OF assms]) (erule invoke_admitted, rule refl)

text \<open>
  C14: A refusal is final: after an authenticator, authorizer, prompt provider, rate limiter,
  router or blocking observer refuses or fails, the request makes no further call and emits no
  further event. So observers are not told of a refusal: the only events of the request are those
  emitted before it, of four types. The design (\<open>spec.md\<close>, section 8.7) also lists \<open>auth.denied\<close>,
  \<open>rate_limit.denied\<close> and \<open>request.failed\<close> as events; the code emits none of them on a refusal.
\<close>

theorem refusal_is_final:
  assumes "compile cfg reg mr = Inr p" and "Ready p" and "queue_inv (x_queue s)"
    and "run_state (ExecuteChat p e req headers ip) s = (r, t)"
    and "x_trace t = x_trace s @ before @ a # later" and "refuses a"
  shows "later = [] \<and> (\<forall>ev. AEvent ev \<in> set before \<longrightarrow> ev_EventType ev \<in>
     {''request.started'', ''route.selected'', ''upstream.error'', ''request.completed''})"
  by (rule run_follows [OF assms(1-5)]) (intro conjI allI impI, erule refusal_last [OF _ assms(6)], erule refusal_open)

text \<open>
  C13: Upstreams are invoked in the order of the routes the router returned, each attempt at most
  once, skipping only unknown providers and never more than \<open>max_attempts\<close> routes; the next one
  is tried only after a retryable failure of the one before.
\<close>

theorem fallback_in_order:
  assumes "compile cfg reg mr = Inr p" and "Ready p" and "queue_inv (x_queue s)"
    and "run_state (ExecuteChat p e req headers ip) s = (r, t)"
    and "x_trace t = x_trace s @ acts" and "0 < fb_MaxAttempts (cf_Fallbacks (pp_cfg p))"
  shows "in_router_order p (rq_Stream req) acts \<and>
     int (length (invocations acts)) \<le> fb_MaxAttempts (cf_Fallbacks (pp_cfg p))"
  by (rule run_follows [OF assms(1-5)], rule conjI, erule follow_in_router_order,
      erule in_router_order_bound [OF follow_in_router_order assms(6)])

text \<open>
  C4: Every non-streaming request that was routed ends in exactly one of \<open>request.completed\<close> and
  \<open>request.failed\<close>; one that was not routed in neither. Its response is stored and its usage
  committed exactly once when it completed, and never otherwise.
\<close>

theorem one_outcome:
  assumes "compile cfg reg mr = Inr p" and "Ready p" and "queue_inv (x_queue s)"
    and "run_state (ExecuteChat p e req headers ip) s = (r, t)"
    and "x_trace t = x_trace s @ acts" and "\<not> rq_Stream req"
  shows "events ''request.completed'' acts + events ''request.failed'' acts = events ''route.selected'' acts \<and>
     events ''route.selected'' acts \<le> 1 \<and>
     count_of is_store acts = (if pp_cache p = None then 0 else events ''request.completed'' acts) \<and>
     count_of is_commit acts = (if pp_ratelimit p = None then 0 else events ''request.completed'' acts)"
proof (rule run_accepted [OF assms(1-4)])
  fix acts' ph
  assume "x_trace t = x_trace s @ acts'" and fl: "follow p (rq_Stream req) (entry p) acts' = Some ph"
    and r: "case r of Inl h \<Rightarrow> (\<exists>err. h = Failed err) \<and> (ph = Closed \<or> ph = Gates [GRoute])
       | Inr u \<Rightarrow> rest_phase (rq_Stream req) ph"
  then have [simp]: "acts' = acts" using assms(5) by simp
  have "ph = Closed \<or> ph = Gates [GRoute] \<or> ph = Observing 0"
    using r assms(6) by (auto simp: rest_phase_def served_phase_def split: sum.splits)
  with follow_outcome [OF fl] show ?thesis
    by (auto simp: outcome_def outcome_defs Let_def)
qed

text \<open>
  C22: A non-streaming request that succeeds is answered by the upstream invoked last, with all the
  text of its chunks in order, its last usage report and the requested model name, the headers and
  the fallback index naming that upstream; or it is answered with the cached response of a lookup
  that hit. A streaming request that succeeds returns the channel of the upstream invoked last.
\<close>

theorem success_answer:
  assumes "run_state (ExecuteChat p e req headers ip) s = (Inr (), t)"
  shows "if rq_Stream req then stream_answer t else collected_answer req t \<or> cached_answer t"
  using returnsD [OF returns_ExecuteChat TrueI assms] by (simp add: ok_answer_def)


subsection \<open>Identity\<close>

definition caller_context :: "'w Pipeline \<Rightarrow> string \<Rightarrow> Identity \<Rightarrow> CallContext" where
  "caller_context p rid ident = (initial_context rid)\<lparr>cc_TenantID :=
     (if au_Anonymous (cf_Auth (pp_cfg p)) then [] else id_TenantID ident)\<rparr>"

lemma wp_authenticate:
  "wp (authenticate p (initial_context rid) headers ip)
     (\<lambda>r t. x_result t = x_result s \<and> x_queue t = x_queue s \<and>
        (if au_Anonymous (cf_Auth (pp_cfg p))
         then x_trace t = x_trace s \<and> r = Inr (anonymous_identity, initial_context rid)
         else pp_authn p = None \<and> x_trace t = x_trace s \<and> (\<exists>h. r = Inl h) \<or>
           (\<exists>rq ans. x_trace t = x_trace s @ [ACallAuthn rq ans] \<and> cc_RequestID (aq_Context rq) = rid \<and>
              (\<forall>ident ctx. r = Inr (ident, ctx) \<longrightarrow>
                 (\<exists>auth. ans = Inr auth \<and> ar_Allow auth \<and> ident = ar_Identity auth) \<and>
                 ctx = caller_context p rid ident)))) s"
  by (auto simp: authenticate_def wp_def call_def initial_context_def caller_context_def
      split: option.splits prod.splits sum.splits)

text \<open>
  The caller of a request: the anonymous one, or the one its only authentication call allowed. When
  that call did not allow one, nothing follows it.
\<close>

definition caller :: "'w Pipeline \<Rightarrow> string \<Rightarrow> Identity \<Rightarrow> action list \<Rightarrow> action list \<Rightarrow> bool" where
  "caller p rid ident first acts \<longleftrightarrow>
     (if au_Anonymous (cf_Auth (pp_cfg p)) then first = [] \<and> ident = anonymous_identity
      else \<exists>rq ans. first = [ACallAuthn rq ans] \<and> cc_RequestID (aq_Context rq) = rid \<and>
        (acts = [] \<or> (\<exists>auth. ans = Inr auth \<and> ar_Allow auth \<and> ident = ar_Identity auth)))"

definition one_caller_run :: "'w Pipeline \<Rightarrow> string \<Rightarrow> 'w xstate \<Rightarrow> 'w xstate \<Rightarrow> bool" where
  "one_caller_run p rid s t \<longleftrightarrow> re_RequestID (x_result t) = rid \<and>
     (\<exists>ident first acts. x_trace t = x_trace s @ first @ acts \<and> caller p rid ident first acts \<and>
        list_all (own_action rid (caller_context p rid ident) ident) acts \<and>
        enqueue_all (events_of acts) (x_queue s) = Some (x_queue t))"

lemma admit_one_caller:
  assumes "caller p rid ident first []" and "x_trace u = x_trace s @ first" and "x_queue u = x_queue s"
    and "re_RequestID (x_result u) = rid"
    and "au_Anonymous (cf_Auth (pp_cfg p)) \<or>
      (\<exists>rq auth. first = [ACallAuthn rq (Inr auth)] \<and> ar_Allow auth \<and> ident = ar_Identity auth)"
  shows "wp (admit_and_execute p e req (caller_context p rid ident) ident ref summary rid started)
     (\<lambda>r t. one_caller_run p rid s t) u"
proof (rule wpI)
  fix r t
  assume "run_state (admit_and_execute p e req (caller_context p rid ident) ident ref summary rid started) u = (r, t)"
  then have "owned rid (caller_context p rid ident) ident u t"
    by (rule own.keeps_run [OF owned_admit])
  then obtain acts where acts: "x_trace t = x_trace u @ acts" "re_RequestID (x_result t) = rid"
    "list_all (own_action rid (caller_context p rid ident) ident) acts"
    "enqueue_all (events_of acts) (x_queue s) = Some (x_queue t)"
    using assms(3,4) by (auto simp: records_def)
  moreover have "caller p rid ident first acts"
    using assms(1,5) by (auto simp: caller_def)
  ultimately show "one_caller_run p rid s t"
    using assms(2) by (auto simp: one_caller_run_def)
qed

lemma request_one_caller:
  assumes "serviceable p" and "re_RequestID (x_result u) = rid" and "x_trace u = x_trace s"
    and "x_queue u = x_queue s"
  shows "wp (and_then (authenticate p (initial_context rid) headers ip)
      (\<lambda>(ident, ctx). admit_and_execute p e req ctx ident ref summary rid started))
     (\<lambda>r t. one_caller_run p rid s t) u"
proof (rule wp_and_then, rule wp_mono [OF wp_authenticate], goal_cases)
  case (1 r t)
  note auth = 1
  show ?case
  proof (cases "au_Anonymous (cf_Auth (pp_cfg p))")
    case True
    with auth have r: "r = Inr (anonymous_identity, initial_context rid)" by simp
    have ctx: "initial_context rid = caller_context p rid anonymous_identity"
      using True by (simp add: caller_context_def initial_context_def)
    show ?thesis unfolding r sum.case prod.case unfolding ctx
      by (rule admit_one_caller [where first = "[]"]) (use auth assms True in \<open>simp_all add: caller_def\<close>)
  next
    case False
    with auth assms(1) obtain rq ans where t: "x_trace t = x_trace u @ [ACallAuthn rq ans]"
      "cc_RequestID (aq_Context rq) = rid" and ok: "\<forall>ident ctx. r = Inr (ident, ctx) \<longrightarrow>
        (\<exists>auth. ans = Inr auth \<and> ar_Allow auth \<and> ident = ar_Identity auth) \<and> ctx = caller_context p rid ident"
      by (auto simp: serviceable_def)
    show ?thesis
    proof (cases r)
      case (Inl h)
      have "caller p rid anonymous_identity [ACallAuthn rq ans] []"
        using False t(2) by (simp add: caller_def)
      moreover have "x_trace t = x_trace s @ [ACallAuthn rq ans] @ []"
        "enqueue_all (events_of []) (x_queue s) = Some (x_queue t)" "re_RequestID (x_result t) = rid"
        using t(1) auth assms by simp_all
      ultimately have "one_caller_run p rid s t"
        unfolding one_caller_run_def by (metis list.pred_inject(1))
      with Inl show ?thesis by simp
    next
      case (Inr v)
      then obtain ident ctx where r: "r = Inr (ident, ctx)" by (cases v) simp
      with ok obtain auth' where a: "ans = Inr auth'" "ar_Allow auth'" "ident = ar_Identity auth'"
        and ctx: "ctx = caller_context p rid ident" by blast
      show ?thesis unfolding r sum.case prod.case ctx
        by (rule admit_one_caller [where first = "[ACallAuthn rq ans]"])
          (use auth assms False t a in \<open>simp_all add: caller_def\<close>)
    qed
  qed
qed

text \<open>
  C3: A request acts for one caller under one request identifier. All of its calls carry that
  identifier and the identity the authenticator returned (the anonymous one when authentication is
  off), every invocation the name of the upstream it goes to, and all of its events the identifier
  and the tenant; the identifier is the one of the result. The event queue changes by exactly the
  events of the request, in their order. The constraints the authorizer may return reach no router:
  every route request carries the zero constraints.
\<close>

theorem one_caller:
  assumes "compile cfg reg mr = Inr p" and "Ready p"
    and "run_state (ExecuteChat p e req headers ip) s = (r, t)"
  shows "\<exists>ident first acts. x_trace t = x_trace s @ first @ acts \<and>
     caller p (re_RequestID (x_result t)) ident first acts \<and>
     list_all (own_action (re_RequestID (x_result t))
       (caller_context p (re_RequestID (x_result t)) ident) ident) acts \<and>
     enqueue_all (events_of acts) (x_queue s) = Some (x_queue t)"
proof -
  have "wp (ExecuteChat p e req headers ip) (\<lambda>r t. \<exists>rid. one_caller_run p rid s t) s"
    unfolding ExecuteChat_def Let_def using compiled_serviceable [OF assms(1,2)]
    by (simp, intro wp_bind wp_prims, intro wp_mono [OF request_one_caller [where s = s]])
      (auto simp: initial_result_def)
  from wpD [OF this assms(3)] show ?thesis by (auto simp: one_caller_run_def)
qed

end
