(* ===== verification/ExecuteErrors.thy ===== *)
theory ExecuteErrors
  imports ExecuteProps
begin

text \<open>
  Which error a refusal becomes. A part of the request \<open>explains\<close> its refusals when, whenever the
  last action it records is a refusal, it returns the error of that refusal.
\<close>

definition refusal_error :: "action \<Rightarrow> goerr" where
  "refusal_error a =
     (case a of
        ACallAuthn rq ans \<Rightarrow> gateway_error ''authentication_failed''
          (case ans of Inl err \<Rightarrow> err_text err | Inr r \<Rightarrow> ar_DenyReason r) 401
      | ACallAuthz rq ans \<Rightarrow>
          (case ans of Inl err \<Rightarrow> err
           | Inr r \<Rightarrow> gateway_error ''authorization_denied'' (zr_DenyReason r) 403)
      | ACallPrompt rq ans \<Rightarrow> (case ans of Inl err \<Rightarrow> err | Inr r \<Rightarrow> EText [])
      | ACallCheck rq ans \<Rightarrow> (case ans of Inl err \<Rightarrow> err | Inr r \<Rightarrow> rate_limit_error r)
      | ACallRoute rq ans \<Rightarrow>
          (case ans of Inl err \<Rightarrow> err
           | Inr r \<Rightarrow> gateway_error ''no_route_available'' ''router returned no routes'' 503)
      | ACallObserve evs ans \<Rightarrow> gateway_error ''observer_failed''
          (case ans of Inl err \<Rightarrow> err_text err | Inr u \<Rightarrow> []) 500
      | _ \<Rightarrow> EText [])"

subsection \<open>Steps that end without a refusal\<close>

definition tame :: "'w xstate \<Rightarrow> 'w xstate \<Rightarrow> bool" where
  "tame s t \<longleftrightarrow> (\<exists>acts. x_trace t = x_trace s @ acts \<and> (acts = [] \<or> \<not> refuses (last acts)))"

interpretation tame: step_relation tame
proof unfold_locales
  show "tame s s" for s :: "'a xstate" by (simp add: tame_def)
  show "tame s t \<Longrightarrow> tame t u \<Longrightarrow> tame s u" for s t u :: "'a xstate"
    by (fastforce simp: tame_def last_append)
qed

named_theorems tamed \<open>parts of a request that end without a refusal\<close>

lemmas [tamed] = tame.keeps

lemma tame_prims [tamed]:
  "state_io_rel tame (new_uuid e)" "state_io_rel tame (now e)" "state_io_rel tame (new_map m)"
  "state_io_rel tame (read_map r)" "state_io_rel tame (write_map r f)"
  "state_io_rel tame (set_header k v)" "state_io_rel tame (update_result g)"
  "state_io_rel tame (enqueue ev)" "state_io_rel tame (fail err)" "state_io_rel tame nil_dereference"
  by (auto simp: state_io_rel_def tame_def new_uuid_def now_def new_map_def read_map_def write_map_def
      set_header_def update_result_def enqueue_def refuses_def split: prod.splits option.splits)

lemma tame_call:
  "(\<And>ans. \<not> refuses (mk a ans)) \<Longrightarrow> state_io_rel tame (call mk m a)"
  by (auto simp: state_io_rel_def tame_def call_def split: prod.splits)

lemma tame_calls [tamed]:
  "state_io_rel tame (call ACallLookup m1 q1)" "state_io_rel tame (call (ACallInvoke n) m2 q2)"
  "state_io_rel tame (call ACallStore m3 q3)" "state_io_rel tame (call ACallCommit m4 q4)"
  by (rule tame_call, simp add: refuses_def)+

lemma tame_parts [tamed]:
  "state_io_rel tame (emit e name rid ten ref us)" "state_io_rel tame (emitError e name rid ten ref err)"
  "state_io_rel tame (summary_value sm)" "state_io_rel tame (rate_limit_headers st)"
  "state_io_rel tame (route_props e ref r i started)" "state_io_rel tame (timed_props e ref started)"
  "state_io_rel tame (transcript_props p ref req resp)" "state_io_rel tame (announce_route r i)"
  "state_io_rel tame (collectResponse e chunks model)"
  "state_io_rel tame (store_in_cache p e ctx ident req ref resp usage)"
  "state_io_rel tame (commit_usage p ctx ident usage)"
  "state_io_rel tame (element xs n)"
  unfolding element_def emit_def emitError_def summary_value_def rate_limit_headers_def route_props_def
    timed_props_def transcript_props_def announce_route_def collectResponse_def store_in_cache_def
    commit_usage_def Let_def
  by (intro tamed)+

lemma tame_cache_lookup [tamed]: "state_io_rel tame (cache_lookup p e ctx ident ref rid req)"
  unfolding cache_lookup_def by (intro tamed)

lemma tame_finish_loop [tamed]: "state_io_rel tame (finish_loop p e req ident ref rid started r)"
  by (cases r) (simp_all add: finish_loop_def tamed)

subsection \<open>Parts that explain their refusals\<close>

definition explained :: "action list \<Rightarrow> halt + 'a \<Rightarrow> bool" where
  "explained acts r \<longleftrightarrow> acts \<noteq> [] \<longrightarrow> refuses (last acts) \<longrightarrow> r = Inl (Failed (refusal_error (last acts)))"

definition explains :: "('w, 'a) exec \<Rightarrow> bool" where
  "explains m \<longleftrightarrow> (\<forall>s. wp m (\<lambda>r t. \<exists>acts. x_trace t = x_trace s @ acts \<and> explained acts r) s)"

named_theorems expl \<open>parts of a request that explain their refusals\<close>

lemma explains_tame: "state_io_rel tame m \<Longrightarrow> explains m"
  unfolding explains_def
  by (auto simp: tame_def explained_def intro!: wpI dest!: tame.keeps_run)

lemmas explains_tamed [expl] = explains_tame [OF tame_cache_lookup] explains_tame [OF tame_finish_loop]
  explains_tame [OF tame.keeps_done_with] explains_tame [OF tame_prims(9)] explains_tame [OF tame_prims(10)]
  explains_tame [OF tame_parts(1)] explains_tame [OF tame_parts(2)] explains_tame [OF tame_parts(12)]

lemma explains_bind:
  assumes "state_io_rel tame m" and "\<And>a. explains (k a)"
  shows "explains (State_Monad.bind m k)"
  unfolding explains_def
proof (intro allI wp_bind wpI)
  fix s a t r u
  assume m: "run_state m s = (a, t)" and k: "run_state (k a) t = (r, u)"
  from tame.keeps_run [OF assms(1) m] obtain as1 where
    1: "x_trace t = x_trace s @ as1" "as1 = [] \<or> \<not> refuses (last as1)" by (auto simp: tame_def)
  have "wp (k a) (\<lambda>r u. \<exists>acts. x_trace u = x_trace t @ acts \<and> explained acts r) t"
    using assms(2) by (simp add: explains_def)
  from wpD [OF this k] obtain as2 where "x_trace u = x_trace t @ as2" "explained as2 r" by blast
  with 1 show "\<exists>acts. x_trace u = x_trace s @ acts \<and> explained acts r"
    by (intro exI [of _ "as1 @ as2"]) (auto simp: explained_def last_append)
qed

lemma explains_and_then [expl]:
  assumes "explains m" and "\<And>a. explains (k a)"
  shows "explains (and_then m k)"
  unfolding explains_def
proof (intro allI wp_and_then wpI)
  fix s r t
  assume m: "run_state m s = (r, t)"
  have "wp m (\<lambda>r t. \<exists>acts. x_trace t = x_trace s @ acts \<and> explained acts r) s"
    using assms(1) by (simp add: explains_def)
  from wpD [OF this m] obtain as1 where 1: "x_trace t = x_trace s @ as1" "explained as1 r" by blast
  show "case r of Inl h \<Rightarrow> \<exists>acts. x_trace t = x_trace s @ acts \<and> explained acts (Inl h)
    | Inr a \<Rightarrow> wp (k a) (\<lambda>r u. \<exists>acts. x_trace u = x_trace s @ acts \<and> explained acts r) t"
  proof (cases r)
    case (Inl h)
    with 1 show ?thesis by (auto simp: explained_def)
  next
    case (Inr a)
    have "wp (k a) (\<lambda>r u. \<exists>acts. x_trace u = x_trace t @ acts \<and> explained acts r) t"
      using assms(2) by (simp add: explains_def)
    then show ?thesis unfolding Inr sum.case
    proof (rule wp_mono, elim exE conjE)
      fix r' u as2
      assume "x_trace u = x_trace t @ as2" "explained as2 r'"
      with 1 Inr show "\<exists>acts. x_trace u = x_trace s @ acts \<and> explained acts r'"
        by (intro exI [of _ "as1 @ as2"]) (auto simp: explained_def last_append)
    qed
  qed
qed

text \<open>A call whose refusal ends the part with its error.\<close>

definition gives_up :: "('w, 'a) exec \<Rightarrow> goerr \<Rightarrow> bool" where
  "gives_up m err \<longleftrightarrow> (\<forall>s. wp m (\<lambda>r t. x_trace t = x_trace s \<and> r = Inl (Failed err)) s)"

lemma gives_up_fail [simp]: "gives_up (fail err) err' \<longleftrightarrow> err = err'"
  by (simp add: gives_up_def wp_def)

lemma gives_up_headers: "gives_up m err \<Longrightarrow> gives_up (State_Monad.bind (rate_limit_headers st) (\<lambda>_. m)) err"
  by (simp add: gives_up_def wp_def rate_limit_headers_def set_header_def split: prod.splits)

lemma explains_call:
  assumes "\<And>ans. \<not> refuses (mk a ans) \<Longrightarrow> explains (k ans)"
    and "\<And>ans. refuses (mk a ans) \<Longrightarrow> gives_up (k ans) (refusal_error (mk a ans))"
  shows "explains (State_Monad.bind (call mk m a) k)"
  unfolding explains_def
proof (intro allI wp_bind wpI)
  fix s ans t r u
  assume "run_state (call mk m a) s = (ans, t)" and k: "run_state (k ans) t = (r, u)"
  then have t: "x_trace t = x_trace s @ [mk a ans]" by (auto simp: call_def split: prod.splits)
  show "\<exists>acts. x_trace u = x_trace s @ acts \<and> explained acts r"
  proof (cases "refuses (mk a ans)")
    case True
    have "wp (k ans) (\<lambda>r u. x_trace u = x_trace t \<and> r = Inl (Failed (refusal_error (mk a ans)))) t"
      using assms(2) [OF True] by (simp add: gives_up_def)
    from wpD [OF this k] show ?thesis using t by (auto simp: explained_def)
  next
    case False
    have "wp (k ans) (\<lambda>r u. \<exists>acts. x_trace u = x_trace t @ acts \<and> explained acts r) t"
      using assms(1) [OF False] by (simp add: explains_def)
    from wpD [OF this k] obtain as2 where "x_trace u = x_trace t @ as2" "explained as2 r" by blast
    with t False show ?thesis
      by (intro exI [of _ "mk a ans # as2"]) (auto simp: explained_def)
  qed
qed

lemma explains_if [expl]: "explains m \<Longrightarrow> explains n \<Longrightarrow> explains (if b then m else n)"
  by simp

subsection \<open>The stages\<close>

lemma explains_authenticate [expl]: "explains (authenticate p ctx headers ip)"
proof -
  have "explains (State_Monad.bind (call ACallAuthn m rq) (\<lambda>r. case r of
      Inl err \<Rightarrow> fail (gateway_error ''authentication_failed'' (err_text err) 401)
    | Inr auth \<Rightarrow> if \<not> ar_Allow auth
        then fail (gateway_error ''authentication_failed'' (ar_DenyReason auth) 401)
        else done_with (ar_Identity auth, ctx\<lparr>cc_TenantID := id_TenantID (ar_Identity auth)\<rparr>)))" for m rq
    by (rule explains_call)
      (auto simp: refuses_def refusal_error_def expl split: sum.splits if_splits)
  then show ?thesis unfolding authenticate_def
    by (auto simp: expl split: option.splits)
qed

lemma explains_authorize [expl]: "explains (authorize p ctx ident summary)"
  unfolding authorize_def
  by (cases "pp_authz p"; simp add: expl; intro explains_bind tamed explains_call)
    (auto simp: refuses_def refusal_error_def expl split: sum.splits if_splits)

lemma explains_resolve_prompt [expl]: "explains (resolve_prompt p ctx ident ref req)"
  unfolding resolve_prompt_def
  by (cases "pp_prompt p"; simp add: expl; intro explains_bind tamed explains_call)
    (auto simp: refuses_def refusal_error_def expl split: sum.splits if_splits
      intro!: explains_bind tamed explains_if)

lemma explains_check_rate_limit [expl]: "explains (check_rate_limit p ctx ident ref est req)"
  unfolding check_rate_limit_def
  by (cases "pp_ratelimit p"; simp add: expl; intro explains_bind tamed explains_call)
    (auto simp: refuses_def refusal_error_def expl split: sum.splits if_splits
      intro!: explains_bind tamed gives_up_headers)

lemma explains_choose_routes [expl]: "explains (choose_routes p ctx ident summary req)"
  unfolding choose_routes_def
  by (cases "Candidates (pp_models p) (rq_Model req)"; cases "pp_router p"; simp add: expl;
      intro explains_bind tamed explains_call)
    (auto simp: refuses_def refusal_error_def expl split: sum.splits if_splits)

lemma explains_observers [expl]: "explains (blocking_observers e obs rid ident ref usage)"
proof (induction obs)
  case (Cons ob obs)
  show ?case unfolding blocking_observers.simps
    by (intro explains_bind tamed explains_call)
      (auto simp: refuses_def refusal_error_def Cons.IH split: sum.splits)
qed (simp add: expl)

lemma explains_afterSuccess [expl]: "explains (afterSuccess p e ctx ident req ref rid resp usage)"
  unfolding afterSuccess_def by (intro explains_bind tamed expl)

lemma explains_upstream_failed:
  "explains next_try \<Longrightarrow> explains (upstream_failed e rid ident ref err next_try)"
  unfolding upstream_failed_def by (intro expl)

lemma explains_nonstream_loop [expl]:
  "explains (nonstream_loop p e req ctx ident ref rid started rs i lastErr)"
proof (induction rs arbitrary: i lastErr)
  case (Cons r rs)
  show ?case unfolding nonstream_loop.simps
    by (auto intro!: explains_bind tamed explains_upstream_failed expl Cons.IH split: option.splits sum.splits)
qed (simp add: expl)

lemma explains_stream_loop [expl]:
  "explains (stream_loop p e req ctx ident ref rid started rs i lastErr)"
proof (induction rs arbitrary: i lastErr)
  case (Cons r rs)
  show ?case unfolding stream_loop.simps
    by (auto intro!: explains_bind tamed explains_upstream_failed expl Cons.IH split: option.splits sum.splits)
qed (simp add: expl)

lemma explains_admit [expl]:
  "explains (admit_and_execute p e req ctx ident ref summary rid started)"
  unfolding admit_and_execute_def route_and_execute_def executeStream_eq executeNonStream_eq
  by (intro expl explains_bind tamed)

lemma explains_ExecuteChat: "explains (ExecuteChat p e req headers ip)"
  unfolding ExecuteChat_def Let_def
  by (auto intro!: explains_bind tamed expl split: prod.splits)


subsection \<open>Properties\<close>

text \<open>
  A request whose last action is a refusal returns the error of that refusal: 401 for the
  authenticator, 403 for an authorizer that denies, 429 with the retry delay for a rate limiter
  that denies, 503 when the router returns no route, 500 for a blocking observer that fails, and
  the plugin's own error when it fails instead of answering.
\<close>

theorem refusal_status:
  assumes "run_state (ExecuteChat p e req headers ip) s = (r, t)"
    and "x_trace t = x_trace s @ before @ [a]" and "refuses a"
  shows "r = Inl (Failed (refusal_error a))"
proof -
  have "wp (ExecuteChat p e req headers ip)
      (\<lambda>r t. \<exists>acts. x_trace t = x_trace s @ acts \<and> explained acts r) s"
    using explains_ExecuteChat [of p e req headers ip] by (simp add: explains_def)
  from wpD [OF this assms(1)] obtain acts where "x_trace t = x_trace s @ acts" "explained acts r" by blast
  with assms(2,3) show ?thesis by (auto simp: explained_def)
qed


end
