(* ===== verification/Stream.thy ===== *)
theory Stream
  imports ExecuteErrors
begin

text \<open>
  A streaming response: the goroutine that \<open>executeStream\<close> leaves behind, which forwards the
  chunks of the upstream over an unbuffered channel and reports the end of the request, and the
  handler \<open>writeStream\<close> of \<open>internal/httpapi/server.go\<close>, which reads that channel and writes
  server-sent events. The two run concurrently, so their steps form a relation: a chunk is handed
  over only when the goroutine offers it and the handler reads.
\<close>

subsection \<open>The forwarding goroutine\<close>

record forwarding =
  fw_usage :: Usage
  fw_failed :: bool
  fw_text :: string

definition start_forwarding :: forwarding where
  "start_forwarding = \<lparr>fw_usage = zero_usage, fw_failed = False, fw_text = []\<rparr>"

definition note_chunk :: "bool \<Rightarrow> ResponseChunk \<Rightarrow> forwarding \<Rightarrow> forwarding" where
  "note_chunk capture c f =
     (let f = (case rc_Usage c of None \<Rightarrow> f | Some u \<Rightarrow> f\<lparr>fw_usage := u\<rparr>);
          f = (case rc_Chunk c of None \<Rightarrow> f
               | Some k \<Rightarrow> if capture then f\<lparr>fw_text := fw_text f @ chunk_text k\<rparr> else f)
      in if rc_Error c = None then f else f\<lparr>fw_failed := True\<rparr>)"

definition forward_chunk ::
  "'w Pipeline \<Rightarrow> 'w env \<Rightarrow> stream_task \<Rightarrow> forwarding \<Rightarrow> ResponseChunk \<Rightarrow> ('w, forwarding) exec" where
  "forward_chunk p e task f c =
     (let f' = note_chunk (capture_payloads p) c f
      in case rc_Error c of
           None \<Rightarrow> done_with f'
         | Some err \<Rightarrow>
             and_then (emitError e ''upstream.error'' (st_requestID task) (id_TenantID (st_identity task))
                 (st_routeProps task) (EUpstream err))
               (\<lambda>_. done_with f'))"

text \<open>After the last chunk: commit the usage, then report the end of the request.\<close>

definition commit_stream_usage ::
  "'w Pipeline \<Rightarrow> stream_task \<Rightarrow> Usage \<Rightarrow> ('w xstate, unit) state" where
  "commit_stream_usage p task usage =
     (if 0 < us_TotalTokens usage then commit_usage p (st_callCtx task) (st_identity task) usage
      else State_Monad.return ())"

definition stream_props ::
  "'w Pipeline \<Rightarrow> 'w env \<Rightarrow> stream_task \<Rightarrow> string \<Rightarrow> ('w xstate, props_ref) state" where
  "stream_props p e task txt =
     do { ref \<leftarrow> timed_props e (st_routeProps task) (st_started task);
          if \<not> capture_payloads p then State_Monad.return ref
          else do { m \<leftarrow> read_map ref;
                    new_map (withStreamTranscriptProps (capture_payloads p) m (st_request task) txt) } }"

definition end_stream :: "'w Pipeline \<Rightarrow> 'w env \<Rightarrow> stream_task \<Rightarrow> forwarding \<Rightarrow> ('w, unit) exec" where
  "end_stream p e task f =
     do { commit_stream_usage p task (fw_usage f);
          ref \<leftarrow> stream_props p e task (fw_text f);
          if fw_failed f
          then emitError e ''request.failed'' (st_requestID task) (id_TenantID (st_identity task)) ref
                 (EText ''stream_interrupted'')
          else emit e ''request.completed'' (st_requestID task) (id_TenantID (st_identity task)) ref
                 (Some (fw_usage f)) }"

subsection \<open>The handler\<close>

definition newline :: string where
  "newline = [char_of (10::nat)]"

definition json_upstream_error :: "UpstreamError \<Rightarrow> json" where
  "json_upstream_error err = JObj
     [(''code'', JStr (ue_Code err)), (''message'', JStr (ue_Message err)),
      (''http_status'', JNum (show_int (ue_HTTPStatus err))),
      (''retryable'', JBool (ue_Retryable err)), (''rate_limited'', JBool (ue_RateLimited err))]"

definition error_frame :: "UpstreamError \<Rightarrow> string" where
  "error_frame err = ''event: error'' @ newline @ ''data: ''
     @ json_text (JObj [(''error'', json_upstream_error err)]) @ newline @ newline"

definition data_frame :: "ChatCompletionChunk \<Rightarrow> string" where
  "data_frame k = ''data: '' @ json_text (json_chunk k) @ newline @ newline"

definition done_frame :: string where
  "done_frame = ''data: [DONE]'' @ newline @ newline"

text \<open>What is written for one chunk, and whether the handler reads on.\<close>

definition write_chunk :: "ResponseChunk \<Rightarrow> string list" where
  "write_chunk c =
     (case rc_Error c of
        Some err \<Rightarrow> [error_frame err]
      | None \<Rightarrow> (case rc_Chunk c of None \<Rightarrow> [] | Some k \<Rightarrow> [data_frame k]))"

definition reads_on :: "ResponseChunk \<Rightarrow> bool" where
  "reads_on c = (rc_Error c = None)"

subsection \<open>Both together\<close>

text \<open>
  \<open>ss_todo\<close> is what the upstream channel still delivers, \<open>ss_offer\<close> the chunk the goroutine is
  blocked on sending, \<open>ss_finished\<close> its end, which closes the channel. \<open>ss_reading\<close> is false once
  the handler has returned; \<open>ss_out\<close> are the frames written so far.

  \<open>closes\<close> says whether the upstream closes its channel after the chunks of the task. When it does
  not, the loop over the channel waits for the next chunk: there is no timeout, so the goroutine
  has no step. A channel that never ends is seen through its prefixes: up to every moment of a run
  it has delivered finitely many chunks and is not closed.
\<close>

record 'w ssys =
  ss_todo :: "ResponseChunk list"
  ss_offer :: "ResponseChunk option"
  ss_fwd :: forwarding
  ss_finished :: bool
  ss_x :: "'w xstate"
  ss_reading :: bool
  ss_out :: "string list"

definition start_stream :: "stream_task \<Rightarrow> 'w xstate \<Rightarrow> 'w ssys" where
  "start_stream task x = \<lparr>ss_todo = st_chunks task, ss_offer = None, ss_fwd = start_forwarding,
     ss_finished = False, ss_x = x, ss_reading = True, ss_out = []\<rparr>"

inductive sstep :: "'w Pipeline \<Rightarrow> 'w env \<Rightarrow> stream_task \<Rightarrow> bool \<Rightarrow> 'w ssys \<Rightarrow> 'w ssys \<Rightarrow> bool"
  for p e task closes where
  receive: "ss_todo s = c # cs \<Longrightarrow> ss_offer s = None \<Longrightarrow>
    run_state (forward_chunk p e task (ss_fwd s) c) (ss_x s) = (Inr f, x) \<Longrightarrow>
    sstep p e task closes s (s\<lparr>ss_todo := cs, ss_offer := Some c, ss_fwd := f, ss_x := x\<rparr>)"
| hand_over: "ss_offer s = Some c \<Longrightarrow> ss_reading s \<Longrightarrow>
    sstep p e task closes s (s\<lparr>ss_offer := None, ss_out := ss_out s @ write_chunk c, ss_reading := reads_on c\<rparr>)"
| finish: "closes \<Longrightarrow> ss_todo s = [] \<Longrightarrow> ss_offer s = None \<Longrightarrow> \<not> ss_finished s \<Longrightarrow>
    run_state (end_stream p e task (ss_fwd s)) (ss_x s) = (Inr (), x) \<Longrightarrow>
    sstep p e task closes s (s\<lparr>ss_finished := True, ss_x := x\<rparr>)"
| end_of_stream: "ss_finished s \<Longrightarrow> ss_reading s \<Longrightarrow>
    sstep p e task closes s (s\<lparr>ss_reading := False, ss_out := ss_out s @ [done_frame]\<rparr>)"

inductive sreach :: "'w Pipeline \<Rightarrow> 'w env \<Rightarrow> stream_task \<Rightarrow> bool \<Rightarrow> 'w xstate \<Rightarrow> 'w ssys \<Rightarrow> bool"
  for p e task closes x where
  start: "sreach p e task closes x (start_stream task x)"
| step: "sreach p e task closes x s \<Longrightarrow> sstep p e task closes s t \<Longrightarrow> sreach p e task closes x t"

inductive_cases sstep_elim: "sstep p e task closes s t"

text \<open>The goroutine waits for a chunk of its upstream.\<close>

definition waiting :: "'w ssys \<Rightarrow> bool" where
  "waiting s \<longleftrightarrow> ss_todo s = [] \<and> ss_offer s = None \<and> \<not> ss_finished s"

definition stuck :: "'w ssys \<Rightarrow> bool" where
  "stuck s \<longleftrightarrow> ss_offer s \<noteq> None \<and> \<not> ss_reading s"

subsection \<open>What the goroutine records\<close>

definition errors_in :: "ResponseChunk list \<Rightarrow> nat" where
  "errors_in cs = length (filter (\<lambda>c. rc_Error c \<noteq> None) cs)"

definition clean :: "ResponseChunk list \<Rightarrow> bool" where
  "clean cs = list_all reads_on cs"

lemma wp_emit_trace:
  assumes "queue_inv (x_queue s)"
    and "\<And>ev t. ev_EventType ev = name \<Longrightarrow> x_trace t = x_trace s @ [AEvent ev] \<Longrightarrow> queue_inv (x_queue t)
      \<Longrightarrow> Q (Inr ()) t"
  shows "wp (emit e name rid ten ref usage) Q s" and "wp (emitError e name rid ten ref err) Q s"
proof -
  have enq: "wp (enqueue ev) Q u" if "ev_EventType ev = name" "x_trace u = x_trace s" "x_queue u = x_queue s"
    for ev u
  proof -
    obtain ok q where "Enqueue ev (x_queue s) = Some (ok, q)"
      using event_queue.enq_total [OF assms(1)] by fastforce
    moreover from this have "queue_inv q" by (rule Enqueue_inv [OF assms(1)])
    ultimately show ?thesis using that by (simp add: wp_def enqueue_def assms(2))
  qed
  show "wp (emit e name rid ten ref usage) Q s" "wp (emitError e name rid ten ref err) Q s"
    unfolding emit_def emitError_def by (intro wp_bind wp_prims enq; simp)+
qed

lemma wp_forward_chunk:
  assumes "queue_inv (x_queue s)"
  shows "wp (forward_chunk p e task f c)
     (\<lambda>r t. r = Inr (note_chunk (capture_payloads p) c f) \<and> queue_inv (x_queue t) \<and>
        (\<exists>acts. x_trace t = x_trace s @ acts \<and>
           (if rc_Error c = None then acts = []
            else \<exists>ev. acts = [AEvent ev] \<and> ev_EventType ev = ''upstream.error''))) s"
proof (cases "rc_Error c")
  case None
  with assms show ?thesis by (simp add: forward_chunk_def wp_done_with)
next
  case (Some err)
  show ?thesis
    unfolding forward_chunk_def Let_def Some option.case
    by (rule wp_and_then, rule wp_emit_trace(2) [OF assms]) (simp add: Some wp_done_with)
qed

lemma quiet_stream_props: "state_io_rel same_history (stream_props p e task txt)"
  unfolding stream_props_def by (intro quiet_steps quiet.keeps_if quiet_prims quiet_timed_props)

definition commits :: "'w Pipeline \<Rightarrow> Usage \<Rightarrow> nat" where
  "commits p usage = (if pp_ratelimit p \<noteq> None \<and> 0 < us_TotalTokens usage then 1 else 0)"

lemma wp_end_stream:
  assumes "queue_inv (x_queue s)"
  shows "wp (end_stream p e task f)
     (\<lambda>r t. r = Inr () \<and> queue_inv (x_queue t) \<and>
        (\<exists>acts ev. x_trace t = x_trace s @ acts @ [AEvent ev] \<and>
           length acts = commits p (fw_usage f) \<and> list_all is_commit acts \<and>
           ev_EventType ev = (if fw_failed f then ''request.failed'' else ''request.completed''))) s"
proof -
  have commit: "wp (commit_stream_usage p task (fw_usage f))
      (\<lambda>_ t. x_queue t = x_queue s \<and> (\<exists>acts. x_trace t = x_trace s @ acts \<and>
         length acts = commits p (fw_usage f) \<and> list_all is_commit acts)) s"
    by (auto simp: commit_stream_usage_def commit_usage_def commits_def wp_def call_def
        split: option.splits prod.splits)
  show ?thesis
    unfolding end_stream_def
  proof (rule wp_bind, rule wp_mono [OF commit], rule wp_bind, rule wpI)
    fix u and t ref v
    assume t: "x_queue t = x_queue s \<and> (\<exists>acts. x_trace t = x_trace s @ acts \<and>
       length acts = commits p (fw_usage f) \<and> list_all is_commit acts)"
      and "run_state (stream_props p e task (fw_text f)) t = (ref, v)"
    from quiet.keeps_run [OF quiet_stream_props this(2)]
    have q: "x_trace v = x_trace t" "x_queue v = x_queue t" by (auto simp: same_history_def)
    with t assms have "queue_inv (x_queue v)" by simp
    note emits = wp_emit_trace [OF this]
    show "wp (if fw_failed f
          then emitError e ''request.failed'' (st_requestID task) (id_TenantID (st_identity task)) ref
                 (EText ''stream_interrupted'')
          else emit e ''request.completed'' (st_requestID task) (id_TenantID (st_identity task)) ref
                 (Some (fw_usage f)))
       (\<lambda>r t. r = Inr () \<and> queue_inv (x_queue t) \<and>
        (\<exists>acts ev. x_trace t = x_trace s @ acts @ [AEvent ev] \<and>
           length acts = commits p (fw_usage f) \<and> list_all is_commit acts \<and>
           ev_EventType ev = (if fw_failed f then ''request.failed'' else ''request.completed''))) v"
      by (rule wp_if; rule emits) (use t q in auto)
  qed
qed


subsection \<open>The invariant\<close>

definition forwarded :: "ResponseChunk list \<Rightarrow> action list \<Rightarrow> bool" where
  "forwarded cs acts \<longleftrightarrow> events ''upstream.error'' acts = errors_in cs \<and> count_of is_commit acts = 0 \<and>
     events ''request.completed'' acts = 0 \<and> events ''request.failed'' acts = 0"

definition accounted_stream :: "'w Pipeline \<Rightarrow> ResponseChunk list \<Rightarrow> action list \<Rightarrow> bool" where
  "accounted_stream p cs acts \<longleftrightarrow> events ''upstream.error'' acts = errors_in cs \<and>
     count_of is_commit acts = commits p (last_usage cs) \<and>
     events ''request.completed'' acts = (if clean cs then 1 else 0) \<and>
     events ''request.failed'' acts = (if clean cs then 0 else 1)"

definition noted :: "bool \<Rightarrow> ResponseChunk list \<Rightarrow> forwarding" where
  "noted capture cs = fold (note_chunk capture) cs start_forwarding"

lemma noted_snoc: "noted cap (cs @ [c]) = note_chunk cap c (noted cap cs)"
  by (simp add: noted_def)

lemma last_usage_snoc: "last_usage (cs @ [c]) = (case rc_Usage c of None \<Rightarrow> last_usage cs | Some u \<Rightarrow> u)"
  by (simp add: last_usage_def split: option.splits)

lemma clean_snoc: "clean (cs @ [c]) \<longleftrightarrow> clean cs \<and> reads_on c"
  by (simp add: clean_def)

lemma noted_fields:
  "fw_usage (noted cap cs) = last_usage cs" "fw_failed (noted cap cs) \<longleftrightarrow> \<not> clean cs"
proof -
  have "fw_usage (noted cap cs) = last_usage cs \<and> (fw_failed (noted cap cs) \<longleftrightarrow> \<not> clean cs)"
  proof (induction cs rule: rev_induct)
    case Nil
    show ?case by (simp add: noted_def start_forwarding_def last_usage_def clean_def List.map_filter_simps)
  next
    case (snoc c cs)
    then show ?case
      by (auto simp: noted_snoc note_chunk_def Let_def last_usage_snoc clean_snoc reads_on_def
          split: option.splits)
  qed
  then show "fw_usage (noted cap cs) = last_usage cs" "fw_failed (noted cap cs) \<longleftrightarrow> \<not> clean cs" by simp_all
qed

definition offered :: "'w ssys \<Rightarrow> ResponseChunk list" where
  "offered s = (case ss_offer s of None \<Rightarrow> [] | Some c \<Rightarrow> [c])"

definition stream_inv ::
  "'w Pipeline \<Rightarrow> stream_task \<Rightarrow> 'w xstate \<Rightarrow> 'w ssys \<Rightarrow> ResponseChunk list \<Rightarrow> action list \<Rightarrow> bool" where
  "stream_inv p task x s handed acts \<longleftrightarrow>
     st_chunks task = handed @ offered s @ ss_todo s \<and>
     ss_fwd s = noted (capture_payloads p) (handed @ offered s) \<and>
     queue_inv (x_queue (ss_x s)) \<and> x_trace (ss_x s) = x_trace x @ acts \<and>
     (if ss_finished s then offered s = [] \<and> ss_todo s = [] \<and> accounted_stream p handed acts
      else forwarded (handed @ offered s) acts) \<and>
     clean (butlast handed) \<and> (ss_reading s \<longrightarrow> clean handed) \<and>
     (\<not> ss_reading s \<longrightarrow> \<not> clean handed \<or> ss_finished s) \<and>
     ss_out s = concat (map write_chunk handed) @ (if clean handed \<and> \<not> ss_reading s then [done_frame] else [])"

lemma count_of_single [simp]: "count_of P [a] = (if P a then 1 else 0)"
  by (simp add: count_of_def)

lemma count_of_append [simp]: "count_of P (xs @ ys) = count_of P xs + count_of P ys"
  by (simp add: count_of_def)

lemma stream_inv_start:
  "queue_inv (x_queue x) \<Longrightarrow> stream_inv p task x (start_stream task x) [] []"
  by (simp add: stream_inv_def start_stream_def offered_def noted_def forwarded_def errors_in_def clean_def)

lemma errors_in_snoc: "errors_in (cs @ [c]) = errors_in cs + (if reads_on c then 0 else 1)"
  by (simp add: errors_in_def reads_on_def)

lemma clean_Cons_butlast: "clean (butlast (cs @ [c])) = clean cs"
  by simp

lemma commits_only:
  assumes "list_all is_commit acts"
  shows "count_of is_commit acts = length acts" and "events n acts = 0"
proof -
  show "count_of is_commit acts = length acts"
    using assms by (induction acts) (auto simp: count_of_def)
  have "\<not> is_event n a" if "is_commit a" for a
    using that by (cases a) (simp_all add: is_commit_def)
  with assms show "events n acts = 0" by (induction acts) (auto simp: count_of_def)
qed

lemma stream_inv_step:
  assumes "stream_inv p task x s handed acts" and "sstep p e task closes s t"
  shows "\<exists>handed' acts'. stream_inv p task x t handed' acts'"
  using assms(2)
proof (cases rule: sstep.cases)
  case (receive c cs f x')
  have "queue_inv (x_queue (ss_x s))" using assms(1) by (simp add: stream_inv_def)
  from wpD [OF wp_forward_chunk [OF this] receive(4)]
  obtain new where new: "x_trace x' = x_trace (ss_x s) @ new" "queue_inv (x_queue x')"
    "f = note_chunk (capture_payloads p) c (ss_fwd s)"
    "if rc_Error c = None then new = [] else \<exists>ev. new = [AEvent ev] \<and> ev_EventType ev = ''upstream.error''"
    by auto
  have "\<not> ss_finished s" using assms(1) receive(2) by (auto simp: stream_inv_def)
  with assms(1) receive(1-3) new have "stream_inv p task x t handed (acts @ new)"
    by (auto simp: stream_inv_def offered_def noted_snoc forwarded_def errors_in_snoc reads_on_def is_commit_def)
  then show ?thesis by blast
next
  case (hand_over c)
  have "\<not> ss_finished s" using assms(1) hand_over(2) by (auto simp: stream_inv_def offered_def)
  with assms(1) hand_over have "stream_inv p task x t (handed @ [c]) acts"
    by (auto simp: stream_inv_def offered_def clean_snoc)
  then show ?thesis by blast
next
  case (finish x')
  have inv: "queue_inv (x_queue (ss_x s))" using assms(1) by (simp add: stream_inv_def)
  have fwd: "ss_fwd s = noted (capture_payloads p) handed"
    using assms(1) finish(4) by (simp add: stream_inv_def offered_def)
  from wpD [OF wp_end_stream [OF inv] finish(6)]
  obtain more ev where more: "x_trace x' = x_trace (ss_x s) @ more @ [AEvent ev]" "queue_inv (x_queue x')"
    "length more = commits p (last_usage handed)" "list_all is_commit more"
    "ev_EventType ev = (if clean handed then ''request.completed'' else ''request.failed'')"
    unfolding fwd noted_fields by auto
  with assms(1) finish(1-5) have "stream_inv p task x t handed (acts @ more @ [AEvent ev])"
    by (auto simp: stream_inv_def offered_def forwarded_def accounted_stream_def commits_only is_commit_def)
  then show ?thesis by blast
next
  case end_of_stream
  with assms(1) have "stream_inv p task x t handed acts"
    by (auto simp: stream_inv_def offered_def)
  then show ?thesis by blast
qed

lemma reach_inv:
  assumes "sreach p e task closes x s" and "queue_inv (x_queue x)"
  obtains handed acts where "stream_inv p task x s handed acts"
proof -
  have "\<exists>handed acts. stream_inv p task x s handed acts"
    using assms by (induction rule: sreach.induct) (blast intro: stream_inv_start stream_inv_step)+
  then show ?thesis using that by blast
qed


subsection \<open>Progress\<close>

definition stream_measure :: "'w ssys \<Rightarrow> nat" where
  "stream_measure s = 2 * length (ss_todo s) + length (offered s)
     + (if ss_finished s then 0 else 1) + (if ss_reading s then 1 else 0)"

lemma sstep_measure: "sstep p e task closes s t \<Longrightarrow> stream_measure t < stream_measure s"
  by (erule sstep_elim) (auto simp: stream_measure_def offered_def)

definition over :: "'w ssys \<Rightarrow> bool" where
  "over s \<longleftrightarrow> ss_finished s \<and> \<not> ss_reading s"

lemma can_step:
  assumes "queue_inv (x_queue (ss_x s))" and "\<not> stuck s" and "\<not> over s"
    and "closes \<or> \<not> waiting s"
  shows "\<exists>t. sstep p e task closes s t"
proof (cases "ss_offer s")
  case (Some c)
  with assms(2) have "ss_reading s" by (simp add: stuck_def)
  with Some show ?thesis by (blast intro: sstep.hand_over)
next
  case None
  show ?thesis
  proof (cases "ss_todo s")
    case (Cons c cs)
    obtain r x where run: "run_state (forward_chunk p e task (ss_fwd s) c) (ss_x s) = (r, x)" by fastforce
    from wpD [OF wp_forward_chunk [OF assms(1)] run] obtain f where "r = Inr f" by blast
    with run Cons None show ?thesis by (blast intro: sstep.receive)
  next
    case Nil
    show ?thesis
    proof (cases "ss_finished s")
      case True
      with assms(3) have "ss_reading s" by (simp add: over_def)
        with True show ?thesis by (blast intro: sstep.end_of_stream)
    next
      case False
      with assms(4) Nil None have closes by (simp add: waiting_def)
      obtain r x where run: "run_state (end_stream p e task (ss_fwd s)) (ss_x s) = (r, x)" by fastforce
      from wpD [OF wp_end_stream [OF assms(1)] run] have "r = Inr ()" by blast
      with run Nil None False \<open>closes\<close> show ?thesis by (blast intro: sstep.finish)
    qed
  qed
qed

lemma stream_ends:
  assumes "sreach p e task closes x s" and "queue_inv (x_queue x)"
  shows "\<exists>t. (sstep p e task closes)\<^sup>*\<^sup>* s t \<and> (stuck t \<or> over t \<or> \<not> closes \<and> waiting t)"
  using assms(1)
proof (induction "stream_measure s" arbitrary: s rule: less_induct)
  case less
  show ?case
  proof (cases "stuck s \<or> over s \<or> \<not> closes \<and> waiting s")
    case False
    obtain handed acts where "stream_inv p task x s handed acts"
      using reach_inv [OF less.prems assms(2)] .
    then obtain t where t: "sstep p e task closes s t"
      using can_step [of s closes p e task] False by (auto simp: stream_inv_def)
    with less.hyps [OF sstep_measure [OF t] sreach.step [OF less.prems t]]
    show ?thesis by (meson converse_rtranclp_into_rtranclp)
  qed blast
qed

lemma sstep_count: "(sstep p e task closes ^^ n) s t \<Longrightarrow> n + stream_measure t \<le> stream_measure s"
proof (induction n arbitrary: t)
  case (Suc n)
  from Suc.prems obtain u where u: "(sstep p e task closes ^^ n) s u" "sstep p e task closes u t" by auto
  with Suc.IH [OF u(1)] sstep_measure [OF u(2)] show ?case by simp
qed simp

lemma no_step:
  assumes "stream_inv p task x s handed acts" and "stuck s \<or> over s \<or> \<not> closes \<and> waiting s"
  shows "\<not> sstep p e task closes s t"
  using assms
  by (auto simp: stuck_def over_def waiting_def stream_inv_def offered_def elim!: sstep_elim)

lemma finished_closes: "sreach p e task closes x s \<Longrightarrow> ss_finished s \<Longrightarrow> closes"
  by (induction rule: sreach.induct) (auto simp: start_stream_def elim!: sstep_elim)

subsection \<open>Properties\<close>


text \<open>
  C25: When a streaming response ends, and when it does not. A run over the chunks of the upstream
  has at most twice as many steps as there are chunks, and two more. It can go on exactly until
  both sides have ended, or the goroutine is blocked on a channel nobody reads, or the upstream has
  delivered its chunks and does not close its channel. So a stream ends or blocks when its upstream
  closes the channel after finitely many chunks; it never ends when the upstream stalls, since the
  loop has no timeout.
\<close>

theorem stream_terminates:
  assumes "sreach p e task closes x s" and "queue_inv (x_queue x)"
  shows "(\<forall>n t. (sstep p e task closes ^^ n) s t \<longrightarrow> n \<le> 2 * length (st_chunks task) + 2) \<and>
     ((\<nexists>t. sstep p e task closes s t) \<longleftrightarrow> stuck s \<or> over s \<or> \<not> closes \<and> waiting s) \<and>
     (over s \<longrightarrow> closes)"
proof -
  obtain handed acts where inv: "stream_inv p task x s handed acts" using reach_inv [OF assms] .
  then have "length (st_chunks task) = length handed + length (offered s) + length (ss_todo s)"
    by (simp add: stream_inv_def)
  then have "stream_measure s \<le> 2 * length (st_chunks task) + 2" by (simp add: stream_measure_def)
  moreover have "n \<le> stream_measure s" if "(sstep p e task closes ^^ n) s t" for n t
    using sstep_count [OF that] by simp
  moreover have "\<exists>t. sstep p e task closes s t"
    if "\<not> (stuck s \<or> over s \<or> \<not> closes \<and> waiting s)"
    using can_step [of s closes p e task] inv that by (auto simp: stream_inv_def)
  ultimately show ?thesis
    using no_step [OF inv] finished_closes [OF assms(1)]
    by (fastforce simp: over_def)
qed

text \<open>
  C24: Once the goroutine has finished, every error chunk has been reported as an
  \<open>upstream.error\<close>, and the request in exactly one of \<open>request.completed\<close> (a stream without
  error) and \<open>request.failed\<close>; the last usage report has been committed once if there is a rate
  limiter and it counts tokens.
\<close>

theorem stream_accounting:
  assumes "sreach p e task closes x s" and "queue_inv (x_queue x)" and "ss_finished s"
  shows "\<exists>acts. x_trace (ss_x s) = x_trace x @ acts \<and> accounted_stream p (st_chunks task) acts"
proof -
  obtain handed acts where "stream_inv p task x s handed acts" using reach_inv [OF assms(1,2)] .
  with assms(3) show ?thesis by (auto simp: stream_inv_def)
qed

text \<open>
  C11: The goroutine blocks only when an error chunk is followed by another chunk, because the
  handler stops reading at an error. And then it always blocks: no run finishes, whether or not the
  upstream closes its channel, so the usage is never committed, and neither \<open>request.completed\<close>
  nor \<open>request.failed\<close> is ever reported; all the observers see is the \<open>upstream.error\<close>.
\<close>

theorem stream_stuck_iff:
  assumes "queue_inv (x_queue x)"
  shows "((\<exists>s. sreach p e task closes x s \<and> stuck s) \<longleftrightarrow> \<not> clean (butlast (st_chunks task))) \<and>
     (\<forall>s. sreach p e task closes x s \<and> \<not> clean (butlast (st_chunks task)) \<longrightarrow>
        \<not> ss_finished s \<and> (\<exists>acts. x_trace (ss_x s) = x_trace x @ acts \<and>
          count_of is_commit acts = 0 \<and> events ''request.completed'' acts = 0 \<and>
          events ''request.failed'' acts = 0))"
proof (intro conjI iffI allI impI)
  assume "\<exists>s. sreach p e task closes x s \<and> stuck s"
  then obtain s where s: "sreach p e task closes x s" "stuck s" by blast
  then obtain handed acts where inv: "stream_inv p task x s handed acts" using reach_inv assms by metis
  from s(2) obtain c where c: "offered s = [c]" "\<not> ss_reading s" by (auto simp: stuck_def offered_def)
  with inv have "\<not> clean handed" and "st_chunks task = handed @ c # ss_todo s"
    by (auto simp: stream_inv_def)
  then show "\<not> clean (butlast (st_chunks task))" by (simp add: clean_def butlast_append)
next
  assume unclean: "\<not> clean (butlast (st_chunks task))"
  obtain t where "(sstep p e task closes)\<^sup>*\<^sup>* (start_stream task x) t"
    and t: "stuck t \<or> over t \<or> \<not> closes \<and> waiting t"
    using stream_ends [OF sreach.start assms] by blast
  from this(1) have r: "sreach p e task closes x t"
    by (induction rule: rtranclp_induct) (auto intro: sreach.intros)
  obtain handed acts where "stream_inv p task x t handed acts" using reach_inv [OF r assms] .
  with unclean have "\<not> over t \<and> \<not> waiting t"
    by (auto simp: stream_inv_def over_def waiting_def offered_def split: option.splits)
  with t r show "\<exists>s. sreach p e task closes x s \<and> stuck s" by blast
next
  fix s
  assume s: "sreach p e task closes x s \<and> \<not> clean (butlast (st_chunks task))"
  then obtain handed acts where inv: "stream_inv p task x s handed acts" using reach_inv assms by metis
  with s show nf: "\<not> ss_finished s" by (auto simp: stream_inv_def)
  with inv show "\<exists>acts. x_trace (ss_x s) = x_trace x @ acts \<and> count_of is_commit acts = 0 \<and>
      events ''request.completed'' acts = 0 \<and> events ''request.failed'' acts = 0"
    by (auto simp: stream_inv_def forwarded_def)
qed

end
