(* ===== verification/Witnesses.thy ===== *)
theory Witnesses
  imports Stream
begin

text \<open>
  The properties with hypotheses, applied at the concrete gateways of the examples.
\<close>

subsection \<open>Configuration, models and compilation\<close>

definition broken_config :: Config where
  "broken_config = example_config\<lparr>cf_Plugins := [example_plugin ''a'', example_plugin ''a'']\<rparr>"

lemma Validate_first_error_witness:
  "\<exists>k < 2. Validate (ApplyDefaults broken_config\<lparr>cf_Plugins := take k (cf_Plugins (ApplyDefaults broken_config))\<rparr>) = Inr ()"
proof -
  have "isl (Validate (ApplyDefaults broken_config))" by code_simp
  then obtain e where e: "Validate (ApplyDefaults broken_config) = Inl e" by (cases "Validate (ApplyDefaults broken_config)") auto
  have l: "sv_Listen (cf_Server (ApplyDefaults broken_config)) \<noteq> []" by code_simp
  have n: "length (cf_Plugins (ApplyDefaults broken_config)) = 2" by code_simp
  show ?thesis using Validate_first_error [OF e l] unfolding n by blast
qed


lemma example_enumerates: "enumerates [(''gpt'', example_alias)] (mo_Aliases \<lparr>mo_Aliases = fmap_of_list [(''gpt'', example_alias)]\<rparr>)"
  by (simp add: enumerates_def)

lemma Candidates_configured_witness:
  "\<exists>c1 c2. Candidates example_models ''gpt'' = Inr [c1, c2] \<and>
     rn_ProviderInstance c1 = ''a'' \<and> rn_Weight c1 = 100 \<and> rn_Weight c2 = 7 \<and> rn_Healthy c2 \<and>
     isl (Candidates example_models ''gpt-5'')"
  using Candidates_configured [OF example_enumerates, of "''gpt''"]
    Candidates_configured [OF example_enumerates, of "''gpt-5''"]
  by (simp add: example_models_def example_alias_def)

lemma NewModelRegistry_order_witness:
  "NewModelRegistry [(''a'', example_alias), (''b'', \<lparr>ma_Candidates = []\<rparr>)] =
     NewModelRegistry [(''b'', \<lparr>ma_Candidates = []\<rparr>), (''a'', example_alias)]"
  by (rule NewModelRegistry_order
      [where cfg = "\<lparr>mo_Aliases = fmap_of_list [(''a'', example_alias), (''b'', \<lparr>ma_Candidates = []\<rparr>)]\<rparr>"])
    (simp_all add: enumerates_def, rule fmap_ext, auto)

lemma compile_readiness_witness:
  "MissingCapabilities example_pipeline = [] \<and> missing_caps example_config example_registry = []"
  using compile_readiness [OF example_compiles] example_ready by metis

lemma compile_ready_parts_witness:
  "fset (fmdom (pp_upstreams example_pipeline)) = {''a'', ''b''}"
proof -
  have "pl_UpstreamProviders (cf_Pipeline example_config) = [''a'', ''b'']" by code_simp
  then show ?thesis using compile_ready_parts [OF example_compiles example_ready] by simp
qed

lemma zero_plugins_not_ready_witness:
  "\<exists>p. compile zero_config (NewRegistry :: nat Registry) (NewModelRegistry []) = Inr p \<and> \<not> Ready p"
  using zero_plugins_not_ready [of zero_config "NewRegistry :: nat Registry" "NewModelRegistry []"]
  by (auto simp: zero_config_def)

subsection \<open>Requests\<close>

lemma small_ready: "Ready small_pipeline"
  by code_simp

lemma small_queue: "queue_inv (x_queue small_start)"
  by (simp add: small_start_def queue_inv_New)

lemma request_refines_flow_witness:
  "\<exists>acts ph. x_trace (snd small_run) = acts \<and>
     follow small_pipeline False (entry small_pipeline) acts = Some ph \<and> (ph = Observing 0 \<or> ph = Closed)"
  using request_refines_flow [OF small_compiles small_ready small_queue prod.collapse [symmetric],
      of example_env small_request "[]" "''10.0.0.1''"] small_ok
  by (simp add: small_start_def)

lemma request_never_panics_witness:
  "fst example_run \<noteq> Inl (Panicked ''nil'') \<and> queue_inv (x_queue (snd example_run))"
  using request_never_panics [OF example_compiles example_queue prod.collapse [symmetric]] by blast

definition empty_pipeline :: "nat Pipeline" where
  "empty_pipeline = compiled zero_config NewRegistry (NewModelRegistry [])"

lemma empty_compiles: "compile zero_config NewRegistry (NewModelRegistry []) = Inr empty_pipeline"
proof -
  have "compilable zero_config (NewRegistry :: nat Registry)" by code_simp
  then show ?thesis by (simp add: empty_pipeline_def compile_Inr_iff)
qed

lemma empty_not_ready: "\<not> Ready empty_pipeline"
  by code_simp

lemma not_ready_refuses_witness:
  "x_trace (snd (run_state (ExecuteChat empty_pipeline example_env example_request [] ''ip'') example_start)) = []"
  using not_ready_refuses [OF empty_compiles empty_not_ready prod.collapse [symmetric],
      of example_env example_request "[]" "''ip''" example_start]
  by (simp add: example_start_def)

lemma success_answer_witness:
  "collected_answer small_request (snd small_run) \<or> cached_answer (snd small_run)"
  using success_answer [of small_pipeline example_env small_request "[]" "''10.0.0.1''" small_start "snd small_run"]
    small_ok
  by (metis prod.collapse small_values(1))


text \<open>The trace of the small run holds an invocation, because there is no cache to answer from.\<close>

lemma no_cache_no_lookup:
  assumes "follow p st (entry p) acts = Some ph" and "pp_cache p = None"
  shows "ACallLookup rq ans \<notin> set acts"
proof -
  let ?I = "\<lambda>hist ph. ACallLookup rq ans \<notin> set hist \<and> (\<forall>gs. ph = Gates gs \<longrightarrow> GLookup \<notin> set gs)"
  have "?I acts ph"
  proof (rule follow_invariant [OF assms(1), where I = ?I], goal_cases)
    case (2 hist ph a ph')
    from 2(2) show ?case
      by (cases rule: advance_elim; use 2(1) assms(2) in \<open>auto simp: gates_def split: option.splits if_splits
          elim!: advance_gate_elim split: sum.splits\<close>)
  qed (simp add: entry_def)
  then show ?thesis by blast
qed

lemma last_invocation_split:
  "last_invocation acts = Some ((n, m), ans) \<Longrightarrow> \<exists>before rq later. acts = before @ ACallInvoke n rq ans # later"
proof (induction acts rule: rev_induct)
  case (snoc a acts)
  then show ?case
  proof (cases "invocation a")
    case None
    with snoc obtain before rq later where "acts = before @ ACallInvoke n rq ans # later" by auto
    then show ?thesis by (metis append.assoc append_Cons)
  next
    case (Some x)
    with snoc.prems show ?thesis by (auto simp: invocation_def split: action.splits)
  qed
qed (simp add: last_invocation_def)

lemma small_invoked:
  obtains before name rq ans later where
    "x_trace (snd small_run) = x_trace small_start @ before @ ACallInvoke name rq ans # later"
proof -
  have "compile small_config example_registry example_models = Inr small_pipeline" by (rule small_compiles)
  from run_accepted [OF this small_ready small_queue prod.collapse [symmetric]]
  obtain acts ph where acts: "x_trace (snd small_run) = x_trace small_start @ acts"
    "follow small_pipeline (rq_Stream small_request) (entry small_pipeline) acts = Some ph" by blast
  have "ACallLookup rq ans \<notin> set (x_trace (snd small_run))" for rq ans
    using no_cache_no_lookup [OF acts(2) small_plugins(2)] acts(1) by (simp add: small_start_def)
  moreover have "small_run = (Inr (), snd small_run)"
    using small_ok by (simp add: prod_eq_iff)
  then have "ok_answer small_request (snd small_run)"
    by (rule returnsD [OF returns_ExecuteChat TrueI])
  ultimately have "collected_answer small_request (snd small_run)"
    by (auto simp: ok_answer_def cached_answer_def)
  then show ?thesis
    using that last_invocation_split [of "x_trace (snd small_run)"]
    by (auto simp: collected_answer_def small_start_def)
qed

lemma invoke_only_admitted_witness:
  "\<exists>before name rq ans later. x_trace (snd small_run) = before @ ACallInvoke name rq ans # later \<and>
     passed GRoute before"
proof -
  obtain before name rq ans later where tr:
    "x_trace (snd small_run) = x_trace small_start @ before @ ACallInvoke name rq ans # later"
    by (rule small_invoked)
  from invoke_only_admitted [OF small_compiles small_ready small_queue prod.collapse [symmetric] tr]
  have "passed GRoute before" by (auto simp: gates_def)
  moreover have "x_trace (snd small_run) = before @ ACallInvoke name rq ans # later"
    using tr by (simp add: small_start_def)
  ultimately show ?thesis by blast
qed

lemma fallback_in_order_witness:
  "\<exists>acts. x_trace (snd small_run) = acts \<and> in_router_order small_pipeline False acts \<and>
     int (length (invocations acts)) \<le> 3"
  using fallback_in_order [OF small_compiles small_ready small_queue prod.collapse [symmetric],
      of example_env small_request "[]" "''10.0.0.1''" "x_trace (snd small_run)"]
  by (simp add: small_start_def)

lemma one_outcome_witness:
  "events ''request.completed'' (x_trace (snd small_run)) + events ''request.failed'' (x_trace (snd small_run)) =
     events ''route.selected'' (x_trace (snd small_run))"
  using one_outcome [OF small_compiles small_ready small_queue prod.collapse [symmetric],
      of example_env small_request "[]" "''10.0.0.1''" "x_trace (snd small_run)"]
  by (simp add: small_start_def)

lemma one_caller_witness:
  "\<exists>acts. x_trace (snd small_run) = acts \<and>
     list_all (own_action (re_RequestID (x_result (snd small_run)))
       (caller_context small_pipeline (re_RequestID (x_result (snd small_run))) anonymous_identity)
       anonymous_identity) acts"
  using one_caller [OF small_compiles small_ready prod.collapse [symmetric],
      of example_env small_request "[]" "''10.0.0.1''" small_start]
  by (auto simp: caller_def small_start_def)

subsection \<open>A refusal\<close>

definition deny_config :: Config where
  "deny_config = zero_config\<lparr>cf_Pipeline := (cf_Pipeline zero_config)\<lparr>pl_Authenticator := ''deny'',
     pl_Router := ''router'', pl_UpstreamProviders := [''b'']\<rparr>\<rparr>"

definition deny_answer :: AuthenticateResponse where
  "deny_answer = \<lparr>ar_Allow = False, ar_Identity = example_identity, ar_DenyReason = ''no key'', ar_Diagnostics = []\<rparr>"

definition deny_registry :: "nat Registry" where
  "deny_registry = AddAuthenticator ''deny'' \<lparr>Authenticate = (\<lambda>rq w. (Inr deny_answer, w))\<rparr> example_registry"

definition deny_pipeline :: "nat Pipeline" where
  "deny_pipeline = compiled deny_config deny_registry example_models"

abbreviation deny_run :: "(halt + unit) \<times> nat xstate" where
  "deny_run \<equiv> run_state (ExecuteChat deny_pipeline example_env example_request [] ''ip'') small_start"

lemma deny_compiles: "compile deny_config deny_registry example_models = Inr deny_pipeline"
proof -
  have "compilable deny_config deny_registry" by code_simp
  then show ?thesis by (simp add: deny_pipeline_def compile_Inr_iff)
qed

lemma deny_ready: "Ready deny_pipeline"
  by code_simp

lemma deny_trace: "\<exists>rq. x_trace (snd deny_run) = x_trace small_start @ [] @ [ACallAuthn rq (Inr deny_answer)]"
proof -
  have "pp_ready deny_pipeline" "\<not> au_Anonymous (cf_Auth (pp_cfg deny_pipeline))" by code_simp+
  moreover have "pp_authn deny_pipeline = Some \<lparr>Authenticate = (\<lambda>rq w. (Inr deny_answer, w))\<rparr>"
    by (simp add: deny_pipeline_def compiled_def deny_config_def zero_config_def deny_registry_def found_def
        getAuthenticator_def get_or_error_def AddAuthenticator_def Let_def)
  ultimately show ?thesis
    by (simp add: ExecuteChat_def authenticate_def new_uuid_def now_def new_map_def update_result_def call_def
        deny_answer_def split: prod.splits)
qed

lemma refuses_deny: "refuses (ACallAuthn rq (Inr deny_answer))"
  by (simp add: refuses_def deny_answer_def)

lemma refusal_is_final_witness:
  "\<exists>rq before. x_trace (snd deny_run) = before @ [ACallAuthn rq (Inr deny_answer)]"
proof -
  obtain rq before later where
    tr: "x_trace (snd deny_run) = x_trace small_start @ before @ ACallAuthn rq (Inr deny_answer) # later"
    using deny_trace by blast
  from refusal_is_final [OF deny_compiles deny_ready small_queue prod.collapse [symmetric] tr refuses_deny] tr
  show ?thesis by simp
qed

lemma refusal_status_witness:
  "fst deny_run = Inl (Failed (gateway_error ''authentication_failed'' ''no key'' 401))"
proof -
  obtain rq where "x_trace (snd deny_run) = x_trace small_start @ [] @ [ACallAuthn rq (Inr deny_answer)]"
    using deny_trace by blast
  from refusal_status [OF prod.collapse [symmetric] this refuses_deny] show ?thesis
    by (simp add: refusal_error_def deny_answer_def)
qed

subsection \<open>Streams\<close>

definition stream_of :: "ResponseChunk list \<Rightarrow> stream_task" where
  "stream_of cs = \<lparr>st_chunks = cs, st_request = example_request, st_callCtx = initial_context [],
     st_identity = example_identity, st_routeProps = 0, st_requestID = ''r1'', st_started = 0\<rparr>"

definition error_chunk :: ResponseChunk where
  "error_chunk = \<lparr>rc_Chunk = None, rc_Usage = None, rc_Error = Some example_error\<rparr>"

lemma stream_chunks [simp]: "st_chunks (stream_of cs) = cs"
  by (simp add: stream_of_def)

lemma start_reached: "sreach example_pipeline example_env (stream_of cs) closes small_start
    (start_stream (stream_of cs) small_start)"
  by (rule sreach.start)


lemma stream_terminates_witness:
  "(\<exists>t. sstep example_pipeline example_env (stream_of [example_chunk]) True
      (start_stream (stream_of [example_chunk]) small_start) t) \<and>
   (\<exists>s. sreach example_pipeline example_env (stream_of []) False small_start s \<and> waiting s \<and>
      (\<nexists>t. sstep example_pipeline example_env (stream_of []) False s t))"
proof -
  have "\<exists>t. sstep example_pipeline example_env (stream_of [example_chunk]) True
      (start_stream (stream_of [example_chunk]) small_start) t"
    using stream_terminates [OF start_reached [of "[example_chunk]" True] small_queue]
    by (simp add: stuck_def over_def start_stream_def)
  moreover have w: "waiting (start_stream (stream_of []) small_start)"
    by (simp add: waiting_def start_stream_def)
  moreover have "\<nexists>t. sstep example_pipeline example_env (stream_of []) False
      (start_stream (stream_of []) small_start) t"
    using stream_terminates [OF start_reached [of "[]" False] small_queue] w by simp
  ultimately show ?thesis using start_reached by blast
qed

lemma clean_stream_finishes:
  obtains t where "sreach example_pipeline example_env (stream_of [example_chunk]) True small_start t" "ss_finished t"
proof -
  obtain t where steps: "(sstep example_pipeline example_env (stream_of [example_chunk]) True)\<^sup>*\<^sup>*
      (start_stream (stream_of [example_chunk]) small_start) t" and t: "stuck t \<or> over t"
    using stream_ends [OF start_reached small_queue] by blast
  from steps have r: "sreach example_pipeline example_env (stream_of [example_chunk]) True small_start t"
    by (induction rule: rtranclp_induct) (auto intro: sreach.intros)
  obtain handed acts where inv: "stream_inv example_pipeline (stream_of [example_chunk]) small_start t handed acts"
    using reach_inv [OF r small_queue] .
  have "\<not> stuck t"
  proof
    assume "stuck t"
    then obtain c where "offered t = [c]" "\<not> ss_reading t" by (auto simp: stuck_def offered_def)
    with inv show False
      by (auto simp: stream_inv_def clean_def reads_on_def example_chunk_def Cons_eq_append_conv)
  qed
  with t that r show ?thesis by (auto simp: over_def)
qed

lemma stream_accounting_witness:
  "\<exists>acts. accounted_stream example_pipeline [example_chunk] acts"
proof -
  obtain t where "sreach example_pipeline example_env (stream_of [example_chunk]) True small_start t" "ss_finished t"
    by (rule clean_stream_finishes)
  from stream_accounting [OF this(1) small_queue this(2)] show ?thesis by auto
qed

lemma stream_stuck_iff_witness:
  "\<exists>s. sreach example_pipeline example_env (stream_of [error_chunk, example_chunk]) False small_start s \<and> stuck s"
  using stream_stuck_iff [OF small_queue, of example_pipeline example_env "stream_of [error_chunk, example_chunk]" False]
  by (simp add: clean_def reads_on_def error_chunk_def)

end
