(* ===== verification/Rpc.thy ===== *)
theory Rpc
  imports PluginRegistry Collect "HOL-Library.Word"
begin

text \<open>
  The client of a plugin process (\<open>internal/plugins/rpc.go\<close>): dialling, reconnecting after the
  connection was shut down, one method per plugin operation, and the goroutine that forwards a
  streamed response.

  \<open>net/rpc\<close> and the plugin behind it are code outside the repository: \<open>net\<close> holds one function
  per remote method, of the connection, the request and the world. Cancellation of the caller's
  context ends a call like any other error. A client is an index into the clients of the gateway,
  because it is shared and its connection is replaced while it is in use.
\<close>

subsection \<open>Wire types\<close>

record HandshakeRequest =
  hq_GatewayVersion :: string
  hq_SupportedProtocolVersions :: "int list"

record HandshakeResponse =
  hs_SelectedProtocolVersion :: int
  hs_PluginName :: string
  hs_PluginVersion :: string
  hs_Diagnostics :: "Diagnostic list"

record ConfigureRequest =
  cq_Context :: CallContext
  cq_ConfigJSON :: string
  cq_ResolvedSecrets :: "(string, string) fmap"

record ConfigureResponse =
  cfr_Diagnostics :: "Diagnostic list"

record HealthResponse =
  hp_State :: string
  hp_Diagnostics :: "Diagnostic list"

record GetConfigSchemaResponse =
  gc_SchemaJSON :: string

type_synonym StreamID = "64 word"

record InvokeStartResponse =
  isr_StreamID :: StreamID

record InvokeNextRequest =
  inq_StreamID :: StreamID

record InvokeNextResponse =
  inr_Chunk :: ResponseChunk
  inr_EOF :: bool

record InvokeCancelRequest =
  icq_StreamID :: StreamID

subsection \<open>The network\<close>

type_synonym conn = nat

type_synonym ('n, 'a, 'b) remote = "conn \<Rightarrow> ('n, 'a, 'b) answering"

record 'n net =
  nw_Dial :: "('n, string \<times> string, conn) answering"
  nw_Close :: "('n, conn, unit) answering"
  nw_Handshake :: "('n, HandshakeRequest, HandshakeResponse) remote"
  nw_GetMetadata :: "('n, unit, Metadata) remote"
  nw_GetConfigSchema :: "('n, unit, GetConfigSchemaResponse) remote"
  nw_Configure :: "('n, ConfigureRequest, ConfigureResponse) remote"
  nw_Health :: "('n, unit, HealthResponse) remote"
  nw_Authenticate :: "('n, AuthenticateRequest, AuthenticateResponse) remote"
  nw_Authorize :: "('n, AuthorizeRequest, AuthorizeResponse) remote"
  nw_CheckRateLimit :: "('n, RateLimitCheckRequest, RateLimitCheckResponse) remote"
  nw_CommitUsage :: "('n, CommitUsageRequest, unit) remote"
  nw_Route :: "('n, RouteRequest, RouteResponse) remote"
  nw_InvokeStart :: "('n, InvokeRequest, InvokeStartResponse) remote"
  nw_InvokeNext :: "('n, InvokeNextRequest, InvokeNextResponse) remote"
  nw_InvokeCancel :: "('n, InvokeCancelRequest, unit) remote"
  nw_ListModels :: "('n, unit, ModelInfo list) remote"
  nw_CacheLookup :: "('n, CacheLookupRequest, CacheLookupResponse) remote"
  nw_CacheStore :: "('n, CacheStoreRequest, unit) remote"
  nw_Emit :: "('n, props GatewayEvent list, unit) remote"
  nw_ResolvePrompt :: "('n, PromptResolveRequest, PromptResolveResponse) remote"
  nw_EstimateCost :: "('n, CostEstimateRequest, CostEstimateResponse) remote"

text \<open>\<open>ci_conn\<close> is the field \<open>client\<close>. A client is only made by \<open>DialRPCPlugin\<close>, so it is never nil.\<close>

record RPCPluginClient =
  ci_instance :: string
  ci_network :: string
  ci_address :: string
  ci_conn :: conn
  ci_metadata :: Metadata

record 'n rworld =
  rw_net :: 'n
  rw_clients :: "RPCPluginClient list"

type_synonym client = nat
type_synonym ('n, 'a) rexec = "('n rworld, goerr, 'a) prog"

definition zero_metadata :: Metadata where
  "zero_metadata = \<lparr>md_Name = [], md_Version = [], md_Homepage = [], md_Capabilities = [],
     md_Permissions = \<lparr>pm_OutboundHosts = [], pm_SecretNames = [],
       pm_Data = \<lparr>dp_ReadPrompt = False, dp_ReadResponse = False, dp_ModifyRequest = False,
         dp_ModifyResponse = False, dp_ReadHeaders = False\<rparr>\<rparr>\<rparr>"

definition on_net :: "('n, 'a, 'b) answering \<Rightarrow> 'a \<Rightarrow> ('n, 'b) rexec" where
  "on_net f a = State (\<lambda>s. case f a (rw_net s) of (r, n) \<Rightarrow> (r, s\<lparr>rw_net := n\<rparr>))"

definition client_field :: "client \<Rightarrow> (RPCPluginClient \<Rightarrow> 'a) \<Rightarrow> ('n rworld, 'a) state" where
  "client_field c f = reads (\<lambda>s. f (rw_clients s ! c))"

definition update_client :: "client \<Rightarrow> (RPCPluginClient \<Rightarrow> RPCPluginClient) \<Rightarrow> ('n rworld, unit) state" where
  "update_client c f = modify (\<lambda>s. s\<lparr>rw_clients := (rw_clients s)[c := f (rw_clients s ! c)]\<rparr>)"

definition DialRPCPlugin :: "'n net \<Rightarrow> string \<Rightarrow> string \<Rightarrow> string \<Rightarrow> ('n, client) rexec" where
  "DialRPCPlugin nw network address inst =
     and_then (on_net (nw_Dial nw) (network, address)) (\<lambda>conn.
       State (\<lambda>s. (Inr (length (rw_clients s)),
         s\<lparr>rw_clients := rw_clients s @ [\<lparr>ci_instance = inst, ci_network = network,
            ci_address = address, ci_conn = conn, ci_metadata = zero_metadata\<rparr>]\<rparr>)))"

definition Close_client :: "'n net \<Rightarrow> client \<Rightarrow> ('n, unit) rexec" where
  "Close_client nw c = do { conn \<leftarrow> client_field c ci_conn; on_net (nw_Close nw) conn }"

subsection \<open>Reconnecting\<close>

text \<open>
  The two critical sections of \<open>reconnect\<close>, as functions of the client's connection. The first:
  somebody else's replacement, if there is one already. The second: the connection of the client,
  the connection to use, and the one to close.
\<close>

definition replacement :: "conn \<Rightarrow> conn \<Rightarrow> conn option" where
  "replacement current stale = (if current \<noteq> stale then Some current else None)"

definition swap_in :: "conn \<Rightarrow> conn \<Rightarrow> conn \<Rightarrow> conn \<times> conn \<times> conn" where
  "swap_in current stale fresh =
     (if current = stale then (fresh, fresh, stale) else (current, current, fresh))"

definition reconnect :: "'n net \<Rightarrow> client \<Rightarrow> conn \<Rightarrow> ('n, conn) rexec" where
  "reconnect nw c stale =
     do { current \<leftarrow> client_field c ci_conn;
          case replacement current stale of
            Some conn \<Rightarrow> done_with conn
          | None \<Rightarrow>
              do { network \<leftarrow> client_field c ci_network;
                   address \<leftarrow> client_field c ci_address;
                   and_then (on_net (nw_Dial nw) (network, address)) (\<lambda>fresh.
                     do { current \<leftarrow> client_field c ci_conn;
                          let (conn, use, close) = swap_in current stale fresh;
                          update_client c (\<lambda>ci. ci\<lparr>ci_conn := conn\<rparr>);
                          _ \<leftarrow> on_net (nw_Close nw) close;
                          done_with use }) } }"

text \<open>A call, and its one retry after a shutdown. \<open>callOn\<close> is the call on a given connection.\<close>

definition callOn :: "('n, 'a, 'b) remote \<Rightarrow> conn \<Rightarrow> 'a \<Rightarrow> ('n, 'b) rexec" where
  "callOn method conn req = on_net (method conn) req"

definition reconnect_failed :: "goerr \<Rightarrow> goerr \<Rightarrow> goerr" where
  "reconnect_failed err dialErr =
     EAnnotated err ('' (reconnect failed: '' @ err_text dialErr @ '')'')"

definition rpc_call :: "'n net \<Rightarrow> client \<Rightarrow> ('n, 'a, 'b) remote \<Rightarrow> 'a \<Rightarrow> ('n, 'b) rexec" where
  "rpc_call nw c method req =
     do { conn \<leftarrow> client_field c ci_conn;
          r \<leftarrow> callOn method conn req;
          case r of
            Inr resp \<Rightarrow> done_with resp
          | Inl err \<Rightarrow>
              if \<not> is_shutdown err then raise err
              else do { fresh \<leftarrow> reconnect nw c conn;
                        case fresh of
                          Inl dialErr \<Rightarrow> raise (reconnect_failed err dialErr)
                        | Inr fresh \<Rightarrow> callOn method fresh req } }"

subsection \<open>Methods\<close>

definition Handshake :: "'n net \<Rightarrow> client \<Rightarrow> ('n, unit) rexec" where
  "Handshake nw c =
     and_then (rpc_call nw c (nw_Handshake nw)
         \<lparr>hq_GatewayVersion = ''dev'', hq_SupportedProtocolVersions = [1]\<rparr>) (\<lambda>resp.
       if hs_SelectedProtocolVersion resp \<noteq> 1
       then raise (EText (''unsupported plugin protocol version ''
              @ show_int (hs_SelectedProtocolVersion resp)))
       else done_with ())"

definition GetMetadata :: "'n net \<Rightarrow> client \<Rightarrow> ('n, Metadata) rexec" where
  "GetMetadata nw c =
     do { r \<leftarrow> rpc_call nw c (nw_GetMetadata nw) ();
          update_client c (\<lambda>ci. ci\<lparr>ci_metadata := (case r of Inl _ \<Rightarrow> zero_metadata | Inr md \<Rightarrow> md)\<rparr>);
          State_Monad.return r }"

definition GetConfigSchema :: "'n net \<Rightarrow> client \<Rightarrow> ('n, string) rexec" where
  "GetConfigSchema nw c =
     and_then (rpc_call nw c (nw_GetConfigSchema nw) ()) (\<lambda>resp. done_with (gc_SchemaJSON resp))"

definition plugin_context :: "string \<Rightarrow> CallContext" where
  "plugin_context inst = \<lparr>cc_RequestID = [], cc_TenantID = [], cc_Deadline = 0,
     cc_TraceContext = fmempty, cc_GatewayVersion = [], cc_PluginInstance = inst\<rparr>"

definition Configure ::
  "'n net \<Rightarrow> client \<Rightarrow> (string \<times> any) list \<Rightarrow> (string, string) fmap \<Rightarrow> ('n, unit) rexec" where
  "Configure nw c config secrets =
     do { inst \<leftarrow> client_field c ci_instance;
          and_then (rpc_call nw c (nw_Configure nw)
              \<lparr>cq_Context = plugin_context inst, cq_ConfigJSON = json_text (json_of_any (AMap config)),
               cq_ResolvedSecrets = secrets\<rparr>)
            (\<lambda>_. done_with ()) }"

definition Health :: "'n net \<Rightarrow> client \<Rightarrow> ('n, HealthResponse) rexec" where
  "Health nw c = rpc_call nw c (nw_Health nw) ()"

text \<open>The plugin interfaces the client implements.\<close>

definition answering_of :: "('a \<Rightarrow> ('n, 'b) rexec) \<Rightarrow> ('n rworld, 'a, 'b) answering" where
  "answering_of m req = run_state (m req)"

definition client_Authenticator :: "'n net \<Rightarrow> client \<Rightarrow> 'n rworld Authenticator" where
  "client_Authenticator nw c = \<lparr>Authenticate = answering_of (rpc_call nw c (nw_Authenticate nw))\<rparr>"

definition client_Authorizer :: "'n net \<Rightarrow> client \<Rightarrow> 'n rworld Authorizer" where
  "client_Authorizer nw c = \<lparr>Authorize = answering_of (rpc_call nw c (nw_Authorize nw))\<rparr>"

definition client_RateLimiter :: "'n net \<Rightarrow> client \<Rightarrow> 'n rworld RateLimiter" where
  "client_RateLimiter nw c = \<lparr>Check = answering_of (rpc_call nw c (nw_CheckRateLimit nw)),
     Commit = answering_of (rpc_call nw c (nw_CommitUsage nw))\<rparr>"

definition client_Router :: "'n net \<Rightarrow> client \<Rightarrow> 'n rworld Router" where
  "client_Router nw c = \<lparr>Route = answering_of (rpc_call nw c (nw_Route nw))\<rparr>"

definition client_CacheProvider :: "'n net \<Rightarrow> client \<Rightarrow> 'n rworld CacheProvider" where
  "client_CacheProvider nw c = \<lparr>Lookup = answering_of (rpc_call nw c (nw_CacheLookup nw)),
     Store = answering_of (rpc_call nw c (nw_CacheStore nw))\<rparr>"

definition client_Observer :: "'n net \<Rightarrow> client \<Rightarrow> 'n rworld Observer" where
  "client_Observer nw c = \<lparr>Emit = answering_of (rpc_call nw c (nw_Emit nw))\<rparr>"

definition client_PromptProvider :: "'n net \<Rightarrow> client \<Rightarrow> 'n rworld PromptProvider" where
  "client_PromptProvider nw c = \<lparr>ResolvePrompt = answering_of (rpc_call nw c (nw_ResolvePrompt nw))\<rparr>"

definition client_CostProvider :: "'n net \<Rightarrow> client \<Rightarrow> 'n rworld CostProvider" where
  "client_CostProvider nw c = \<lparr>Estimate = answering_of (rpc_call nw c (nw_EstimateCost nw))\<rparr>"

definition client_ModelRegistryProvider :: "'n net \<Rightarrow> client \<Rightarrow> 'n rworld ModelRegistryProvider" where
  "client_ModelRegistryProvider nw c = \<lparr>mr_ListModels = answering_of (rpc_call nw c (nw_ListModels nw))\<rparr>"

subsection \<open>Streaming\<close>

definition stream_failed :: "goerr \<Rightarrow> ResponseChunk" where
  "stream_failed err = \<lparr>rc_Chunk = None, rc_Usage = None,
     rc_Error = Some \<lparr>ue_Code = ''plugin_stream_failed'', ue_Message = err_text err, ue_HTTPStatus = 502,
       ue_Retryable = True, ue_RateLimited = False\<rparr>\<rparr>"

text \<open>What one \<open>InvokeNext\<close> leads to: a last chunk, the end, or a chunk with more to come.\<close>

datatype fetched =
    FLast ResponseChunk
  | FEnd
  | FMore ResponseChunk

definition fetch_next :: "'n net \<Rightarrow> client \<Rightarrow> StreamID \<Rightarrow> ('n rworld, fetched) state" where
  "fetch_next nw c sid =
     do { r \<leftarrow> rpc_call nw c (nw_InvokeNext nw) \<lparr>inq_StreamID = sid\<rparr>;
          State_Monad.return (case r of
            Inl err \<Rightarrow> FLast (stream_failed err)
          | Inr next \<Rightarrow> if inr_EOF next then FEnd else FMore (inr_Chunk next)) }"

text \<open>
  The goroutine with a receiver that takes every chunk and a context that is not cancelled. The
  plugin may go on for ever, so \<open>fuel\<close> bounds the number of calls; the answer says whether the
  channel was closed within them.
\<close>

fun forward :: "'n net \<Rightarrow> client \<Rightarrow> StreamID \<Rightarrow> nat \<Rightarrow> ('n rworld, ResponseChunk list \<times> bool) state" where
  "forward nw c sid 0 = State_Monad.return ([], False)"
| "forward nw c sid (Suc fuel) =
     do { f \<leftarrow> fetch_next nw c sid;
          case f of
            FLast chunk \<Rightarrow> State_Monad.return ([chunk], True)
          | FEnd \<Rightarrow> State_Monad.return ([], True)
          | FMore chunk \<Rightarrow>
              do { (rest, closed) \<leftarrow> forward nw c sid fuel;
                   State_Monad.return (chunk # rest, closed) } }"

definition Invoke_client :: "'n net \<Rightarrow> nat \<Rightarrow> client \<Rightarrow> InvokeRequest \<Rightarrow> ('n, ResponseChunk list) rexec" where
  "Invoke_client nw fuel c req =
     and_then (rpc_call nw c (nw_InvokeStart nw) req) (\<lambda>start.
       do { (chunks, closed) \<leftarrow> forward nw c (isr_StreamID start) fuel;
            done_with chunks })"

definition client_UpstreamProvider :: "'n net \<Rightarrow> nat \<Rightarrow> client \<Rightarrow> 'n rworld UpstreamProvider" where
  "client_UpstreamProvider nw fuel c = \<lparr>Invoke = answering_of (Invoke_client nw fuel c),
     ListModels = answering_of (rpc_call nw c (nw_ListModels nw))\<rparr>"

end
