(* ===== verification/RpcProps.thy ===== *)
theory RpcProps
  imports Rpc
begin

text \<open>
  The two concurrent parts of the plugin client: callers that reconnect at the same time, and the
  goroutines that forward a streamed response while its receiver may go away. Both are step
  relations whose atomic steps are the critical sections and remote calls of \<open>internal/plugins/rpc.go\<close>.
\<close>

subsection \<open>Concurrent reconnects\<close>

text \<open>
  What a caller is doing: its call on the connection it read, dialling because that connection
  was shut down, holding a fresh connection it is about to swap in, or its retry.
\<close>

datatype caller =
    Idle
  | Using conn
  | Dialing conn
  | Swapping conn conn
  | Retrying conn

text \<open>\<open>cs_swaps\<close> is history: the replacements made, oldest first.\<close>

record csys =
  cs_current :: conn
  cs_open :: "conn list"
  cs_next :: conn
  cs_callers :: "nat \<Rightarrow> caller"
  cs_swaps :: "(conn \<times> conn) list"

definition dialled :: csys where
  "dialled = \<lparr>cs_current = 0, cs_open = [0], cs_next = 1, cs_callers = (\<lambda>_. Idle), cs_swaps = []\<rparr>"

definition set_caller :: "nat \<Rightarrow> caller \<Rightarrow> csys \<Rightarrow> csys" where
  "set_caller i p s = s\<lparr>cs_callers := (cs_callers s)(i := p)\<rparr>"

definition swap_caller :: "nat \<Rightarrow> conn \<Rightarrow> conn \<Rightarrow> csys \<Rightarrow> csys" where
  "swap_caller i stale fresh s =
     (let (conn, use, close) = swap_in (cs_current s) stale fresh
      in (set_caller i (Retrying use) s)\<lparr>cs_current := conn, cs_open := removeAll close (cs_open s),
           cs_swaps := cs_swaps s @ (if cs_current s = stale then [(stale, fresh)] else [])\<rparr>)"

inductive cstep :: "csys \<Rightarrow> csys \<Rightarrow> bool" where
  begin_call: "cs_callers s i = Idle \<Longrightarrow> cstep s (set_caller i (Using (cs_current s)) s)"
| end_call: "cs_callers s i = Using c \<or> cs_callers s i = Retrying c \<Longrightarrow> cstep s (set_caller i Idle s)"
| other_won: "cs_callers s i = Using c \<Longrightarrow> replacement (cs_current s) c = Some d \<Longrightarrow>
    cstep s (set_caller i (Retrying d) s)"
| start_dial: "cs_callers s i = Using c \<Longrightarrow> replacement (cs_current s) c = None \<Longrightarrow>
    cstep s (set_caller i (Dialing c) s)"
| dial_failed: "cs_callers s i = Dialing c \<Longrightarrow> cstep s (set_caller i Idle s)"
| dial_done: "cs_callers s i = Dialing c \<Longrightarrow>
    cstep s ((set_caller i (Swapping c (cs_next s)) s)\<lparr>cs_open := cs_next s # cs_open s, cs_next := Suc (cs_next s)\<rparr>)"
| swap: "cs_callers s i = Swapping stale fresh \<Longrightarrow> cstep s (swap_caller i stale fresh s)"

inductive creach :: "csys \<Rightarrow> bool" where
  dial: "creach dialled"
| step: "creach s \<Longrightarrow> cstep s t \<Longrightarrow> creach t"

definition pending :: "csys \<Rightarrow> conn set" where
  "pending s = {f. \<exists>i st. cs_callers s i = Swapping st f}"

text \<open>The connection a caller refers to besides a pending one.\<close>

fun refers :: "caller \<Rightarrow> conn list" where
  "refers Idle = []"
| "refers (Using c) = [c]"
| "refers (Dialing c) = [c]"
| "refers (Swapping st f) = [st, f]"
| "refers (Retrying c) = [c]"

definition conns_inv :: "csys \<Rightarrow> bool" where
  "conns_inv s \<longleftrightarrow>
     set (cs_open s) = insert (cs_current s) (pending s) \<and>
     cs_current s < cs_next s \<and> cs_current s \<notin> pending s \<and>
     (\<forall>i c. c \<in> set (refers (cs_callers s i)) \<longrightarrow> c < cs_next s) \<and>
     (\<forall>i st f. cs_callers s i = Swapping st f \<longrightarrow> st \<noteq> f) \<and>
     (\<forall>i j st st' f. cs_callers s i = Swapping st f \<longrightarrow> cs_callers s j = Swapping st' f \<longrightarrow> i = j) \<and>
     distinct (map fst (cs_swaps s)) \<and>
     (\<forall>c \<in> fst ` set (cs_swaps s). c < cs_next s \<and> c \<noteq> cs_current s \<and> c \<notin> pending s)"

lemma conns_inv_dialled: "conns_inv dialled"
  by (simp add: conns_inv_def dialled_def pending_def)

lemma pending_upd:
  "f \<in> pending (set_caller i p s) \<longleftrightarrow>
     (\<exists>st. p = Swapping st f) \<or> (\<exists>j st. j \<noteq> i \<and> cs_callers s j = Swapping st f)"
  unfolding pending_def set_caller_def by (simp add: fun_upd_def) (metis (full_types))

lemma pending_others:
  "(\<And>st. cs_callers s i \<noteq> Swapping st f) \<Longrightarrow>
     (\<exists>j st. j \<noteq> i \<and> cs_callers s j = Swapping st f) \<longleftrightarrow> f \<in> pending s"
  unfolding pending_def by (simp, metis)

lemma pending_more [simp]:
  "pending (s\<lparr>cs_open := x, cs_next := n\<rparr>) = pending s"
  "pending (s\<lparr>cs_current := c, cs_open := x, cs_swaps := w\<rparr>) = pending s"
  by (simp_all add: pending_def)

lemma pending_set_caller:
  assumes "\<nexists>st f. cs_callers s i = Swapping st f" and "\<nexists>st f. p = Swapping st f"
  shows "pending (set_caller i p s) = pending s"
proof (rule set_eqI)
  fix f
  show "f \<in> pending (set_caller i p s) \<longleftrightarrow> f \<in> pending s"
    unfolding pending_upd using assms pending_others [of s i f] by auto
qed

lemma conns_inv_caller:
  assumes "conns_inv s" and "\<nexists>st f. cs_callers s i = Swapping st f" and "\<nexists>st f. p = Swapping st f"
    and "\<forall>c \<in> set (refers p). c < cs_next s"
  shows "conns_inv (set_caller i p s)"
  using assms unfolding conns_inv_def pending_set_caller [OF assms(2,3)]
  by (simp add: set_caller_def)

lemma conns_inv_dial:
  assumes inv: "conns_inv s" and i: "cs_callers s i = Dialing c"
  shows "conns_inv ((set_caller i (Swapping c (cs_next s)) s)\<lparr>cs_open := cs_next s # cs_open s, cs_next := Suc (cs_next s)\<rparr>)"
    (is "conns_inv ?t")
proof -
  have lt: "\<And>j d. d \<in> set (refers (cs_callers s j)) \<Longrightarrow> d < cs_next s" using inv by (auto simp: conns_inv_def)
  have p: "pending ?t = insert (cs_next s) (pending s)"
  proof (rule set_eqI)
    fix f
    show "f \<in> pending ?t \<longleftrightarrow> f \<in> insert (cs_next s) (pending s)"
      unfolding pending_more pending_upd using i pending_others [of s i f] by auto
  qed
  have fresh: "f < cs_next s" if "cs_callers s j = Swapping st f" for j st f
    using lt [of f j] that by simp
  have "c < cs_next s" using lt [of c i] i by simp
  then show ?thesis using inv fresh lt unfolding conns_inv_def p
    by (auto simp: set_caller_def less_Suc_eq)
qed

lemma conns_inv_swap:
  assumes inv: "conns_inv s" and i: "cs_callers s i = Swapping stale fresh"
  shows "conns_inv (swap_caller i stale fresh s)"
proof -
  let ?t = "swap_caller i stale fresh s"
  have callers: "cs_callers ?t = (cs_callers s)(i := Retrying (if cs_current s = stale then fresh else cs_current s))"
    by (simp add: swap_caller_def swap_in_def set_caller_def)
  have uniq: "\<And>j st. cs_callers s j = Swapping st fresh \<Longrightarrow> j = i" using inv i unfolding conns_inv_def by blast
  have p: "pending ?t = pending s - {fresh}"
  proof (rule set_eqI)
    fix f
    have "f \<in> pending ?t \<longleftrightarrow> (\<exists>j st. j \<noteq> i \<and> cs_callers s j = Swapping st f)"
      by (simp add: swap_caller_def swap_in_def pending_upd)
    also have "\<dots> \<longleftrightarrow> f \<in> pending s - {fresh}"
    proof (cases "f = fresh")
      case True
      with uniq show ?thesis by blast
    next
      case False
      with i pending_others [of s i f] show ?thesis by simp
    qed
    finally show "f \<in> pending ?t \<longleftrightarrow> f \<in> pending s - {fresh}" .
  qed
  have "\<And>c. c \<in> set (refers (cs_callers s i)) \<Longrightarrow> c < cs_next s" using inv by (simp add: conns_inv_def)
  then have "fresh < cs_next s" using i by simp
  moreover have "fresh \<noteq> stale" using inv i unfolding conns_inv_def by metis
  ultimately have fresh: "fresh \<in> pending s" "fresh \<noteq> cs_current s" "fresh \<noteq> stale" "fresh < cs_next s"
    using inv i by (auto simp: conns_inv_def pending_def)
  show ?thesis
  proof (cases "cs_current s = stale")
    case True
    then have t: "cs_current ?t = fresh" "cs_open ?t = removeAll stale (cs_open s)" "cs_next ?t = cs_next s"
      "cs_swaps ?t = cs_swaps s @ [(stale, fresh)]"
      by (simp_all add: swap_caller_def swap_in_def set_caller_def)
    show ?thesis unfolding conns_inv_def t p callers
      using inv fresh True unfolding conns_inv_def by (auto split: if_splits)
  next
    case False
    then have t: "cs_current ?t = cs_current s" "cs_open ?t = removeAll fresh (cs_open s)" "cs_next ?t = cs_next s"
      "cs_swaps ?t = cs_swaps s"
      by (simp_all add: swap_caller_def swap_in_def set_caller_def)
    show ?thesis unfolding conns_inv_def t p callers
      using inv fresh False unfolding conns_inv_def by (auto split: if_splits)
  qed
qed

lemma conns_inv_step: "cstep s t \<Longrightarrow> conns_inv s \<Longrightarrow> conns_inv t"
proof (induction rule: cstep.induct)
  case (dial_done s i c)
  then show ?case by (intro conns_inv_dial)
next
  case (swap s i stale fresh)
  then show ?case by (intro conns_inv_swap)
qed (intro conns_inv_caller; force simp: conns_inv_def replacement_def split: if_splits)+

text \<open>
  C19: However many callers find the connection shut down at once, and in whatever order their
  steps interleave, the open connections are the client's current one and those a caller is just
  about to swap in, and no connection is replaced twice: a caller that comes too late closes its own.
\<close>

theorem reconnects_leak_nothing:
  assumes "creach s"
  shows "set (cs_open s) = insert (cs_current s) (pending s) \<and> distinct (map fst (cs_swaps s))"
proof -
  from assms have "conns_inv s"
    by induction (auto intro: conns_inv_dialled conns_inv_step)
  then show ?thesis by (simp add: conns_inv_def)
qed

lemma reconnects_leak_nothing_witness:
  "set (cs_open (swap_caller 0 0 1 (dialled\<lparr>cs_callers := (\<lambda>_. Idle)(0 := Swapping 0 1), cs_open := [1, 0], cs_next := 2\<rparr>))) = {1}"
proof -
  let ?s1 = "set_caller 0 (Using 0) dialled"
  let ?s2 = "set_caller 0 (Dialing 0) ?s1"
  let ?s3 = "(set_caller 0 (Swapping 0 1) ?s2)\<lparr>cs_open := 1 # cs_open ?s2, cs_next := Suc 1\<rparr>"
  have s1: "creach ?s1" using creach.step [OF creach.dial cstep.begin_call [of dialled 0]] by (simp add: dialled_def)
  have s2: "creach ?s2" using creach.step [OF s1 cstep.start_dial [of ?s1 0 0]]
    by (simp add: dialled_def set_caller_def replacement_def)
  have s3: "creach ?s3" using creach.step [OF s2 cstep.dial_done [of ?s2 0 0]]
    by (simp add: dialled_def set_caller_def)
  have s4: "creach (swap_caller 0 0 1 ?s3)" using creach.step [OF s3 cstep.swap [of ?s3 0 0 1]]
    by (simp add: set_caller_def)
  from reconnects_leak_nothing [OF s4] show ?thesis
    by (auto simp: swap_caller_def swap_in_def set_caller_def dialled_def pending_def Let_def split: if_splits)
qed

subsection \<open>Forwarding a stream\<close>

text \<open>
  The goroutine of \<open>Invoke\<close>, its watcher and the receiver. \<open>Offering\<close> is blocked on the channel
  send, with the flag of the last chunk; \<open>fs_got\<close> is history: the chunks obtained from the plugin.
  The context may be cancelled at any moment.
\<close>

datatype forward_phase =
    Fetching
  | Offering ResponseChunk bool
  | Closed_channel

record 'n fsys =
  fs_world :: "'n rworld"
  fs_phase :: forward_phase
  fs_cancelled :: bool
  fs_watching :: bool
  fs_cancels :: nat
  fs_got :: "ResponseChunk list"
  fs_out :: "ResponseChunk list"

definition start_forward :: "'n rworld \<Rightarrow> 'n fsys" where
  "start_forward w = \<lparr>fs_world = w, fs_phase = Fetching, fs_cancelled = False, fs_watching = True,
     fs_cancels = 0, fs_got = [], fs_out = []\<rparr>"

definition after_fetch :: "fetched \<Rightarrow> 'n rworld \<Rightarrow> 'n fsys \<Rightarrow> 'n fsys" where
  "after_fetch f w s =
     (case f of
        FLast c \<Rightarrow> s\<lparr>fs_world := w, fs_phase := Offering c True, fs_got := fs_got s @ [c]\<rparr>
      | FMore c \<Rightarrow> s\<lparr>fs_world := w, fs_phase := Offering c False, fs_got := fs_got s @ [c]\<rparr>
      | FEnd \<Rightarrow> s\<lparr>fs_world := w, fs_phase := Closed_channel\<rparr>)"

inductive fstep :: "'n net \<Rightarrow> client \<Rightarrow> StreamID \<Rightarrow> 'n fsys \<Rightarrow> 'n fsys \<Rightarrow> bool" for nw c sid where
  fetch: "fs_phase s = Fetching \<Longrightarrow> run_state (fetch_next nw c sid) (fs_world s) = (f, w) \<Longrightarrow>
    fstep nw c sid s (after_fetch f w s)"
| deliver: "fs_phase s = Offering ch last_one \<Longrightarrow>
    fstep nw c sid s (s\<lparr>fs_phase := (if last_one then Closed_channel else Fetching), fs_out := fs_out s @ [ch]\<rparr>)"
| abandon: "fs_phase s = Offering ch last_one \<Longrightarrow> fs_cancelled s \<Longrightarrow>
    fstep nw c sid s (s\<lparr>fs_phase := Closed_channel\<rparr>)"
| context_done: "\<not> fs_cancelled s \<Longrightarrow> fstep nw c sid s (s\<lparr>fs_cancelled := True\<rparr>)"
| tell_plugin: "fs_watching s \<Longrightarrow> fs_cancelled s \<Longrightarrow>
    run_state (rpc_call nw c (nw_InvokeCancel nw) \<lparr>icq_StreamID = sid\<rparr>) (fs_world s) = (r, w) \<Longrightarrow>
    fstep nw c sid s (s\<lparr>fs_world := w, fs_watching := False, fs_cancels := Suc (fs_cancels s)\<rparr>)"
| stop_watching: "fs_watching s \<Longrightarrow> fs_phase s = Closed_channel \<Longrightarrow>
    fstep nw c sid s (s\<lparr>fs_watching := False\<rparr>)"

inductive freach :: "'n net \<Rightarrow> client \<Rightarrow> StreamID \<Rightarrow> 'n rworld \<Rightarrow> 'n fsys \<Rightarrow> bool" for nw c sid w where
  start: "freach nw c sid w (start_forward w)"
| step: "freach nw c sid w s \<Longrightarrow> fstep nw c sid s t \<Longrightarrow> freach nw c sid w t"

definition forward_inv :: "'n fsys \<Rightarrow> bool" where
  "forward_inv s \<longleftrightarrow>
     (case fs_phase s of
        Fetching \<Rightarrow> fs_got s = fs_out s
      | Offering ch _ \<Rightarrow> fs_got s = fs_out s @ [ch]
      | Closed_channel \<Rightarrow> fs_got s = fs_out s \<or> fs_cancelled s \<and> (\<exists>ch. fs_got s = fs_out s @ [ch])) \<and>
     fs_cancels s \<le> (if fs_watching s then 0 else 1) \<and> (0 < fs_cancels s \<longrightarrow> fs_cancelled s)"

lemma forward_inv_reach: "freach nw c sid w s \<Longrightarrow> forward_inv s"
proof (induction rule: freach.induct)
  case (step s t)
  from step(2,3) show ?case
    by (induction rule: fstep.induct)
      (auto simp: forward_inv_def after_fetch_def split: fetched.splits forward_phase.splits)
qed (simp add: forward_inv_def start_forward_def)

text \<open>Without cancellation the goroutine computes \<open>forward\<close>.\<close>

definition continues :: "'n net \<Rightarrow> client \<Rightarrow> StreamID \<Rightarrow> 'n rworld \<Rightarrow> 'n fsys \<Rightarrow> bool" where
  "continues nw c sid w s \<longleftrightarrow>
     (case fs_phase s of
        Fetching \<Rightarrow> (\<exists>k. \<forall>n rest b w'. run_state (forward nw c sid n) (fs_world s) = ((rest, b), w') \<longrightarrow>
           run_state (forward nw c sid (k + n)) w = ((fs_out s @ rest, b), w'))
      | Offering ch False \<Rightarrow> (\<exists>k. \<forall>n rest b w'. run_state (forward nw c sid n) (fs_world s) = ((rest, b), w') \<longrightarrow>
           run_state (forward nw c sid (k + n)) w = ((fs_out s @ ch # rest, b), w'))
      | Offering ch True \<Rightarrow> (\<exists>k. run_state (forward nw c sid k) w = ((fs_out s @ [ch], True), fs_world s))
      | Closed_channel \<Rightarrow> (\<exists>k. run_state (forward nw c sid k) w = ((fs_out s, True), fs_world s)))"

lemma continues_fetch:
  assumes "continues nw c sid w s" and "fs_phase s = Fetching"
    and f: "run_state (fetch_next nw c sid) (fs_world s) = (f, w1)"
  shows "continues nw c sid w (after_fetch f w1 s)"
proof -
  obtain k where k: "\<And>n rest b w'. run_state (forward nw c sid n) (fs_world s) = ((rest, b), w') \<Longrightarrow>
      run_state (forward nw c sid (k + n)) w = ((fs_out s @ rest, b), w')"
    using assms(1,2) by (auto simp: continues_def)
  show ?thesis
  proof (cases f)
    case (FLast ch)
    have "run_state (forward nw c sid (k + 1)) w = ((fs_out s @ [ch], True), w1)"
      by (rule k) (simp add: f FLast)
    with FLast show ?thesis
      by (auto simp: continues_def after_fetch_def simp del: forward.simps)
  next
    case FEnd
    have "run_state (forward nw c sid (k + 1)) w = ((fs_out s @ [], True), w1)"
      by (rule k) (simp add: f FEnd)
    with FEnd show ?thesis
      by (auto simp: continues_def after_fetch_def simp del: forward.simps)
  next
    case (FMore ch)
    have "run_state (forward nw c sid (Suc k + n)) w = ((fs_out s @ ch # rest, b), w')"
      if "run_state (forward nw c sid n) w1 = ((rest, b), w')" for n rest b w'
      using f FMore that k [of "Suc n" "ch # rest" b w'] by simp
    with FMore show ?thesis
      by (auto simp: continues_def after_fetch_def simp del: forward.simps intro!: exI [of _ "Suc k"])
  qed
qed

lemma continues_reach: "freach nw c sid w s \<Longrightarrow> \<not> fs_cancelled s \<Longrightarrow> continues nw c sid w s"
proof (induction rule: freach.induct)
  case start
  then show ?case by (auto simp: continues_def start_forward_def intro!: exI [of _ "0::nat"])
next
  case (step s t)
  from step(2,1,3,4) show ?case
  proof (induction rule: fstep.induct)
    case (fetch s f w)
    then show ?case by (intro continues_fetch) (auto simp: after_fetch_def split: fetched.splits)
  next
    case (deliver s ch last_one)
    then show ?case by (cases last_one) (simp_all add: continues_def)
  next
    case (tell_plugin s r w)
    then show ?case by simp
  next
    case (stop_watching s)
    then show ?case by (simp add: continues_def)
  qed simp_all
qed

text \<open>
  C20: The receiver of a streamed response gets the plugin's chunks in order; at most the last one
  obtained is missing, and that only when the context was cancelled. The plugin is told to cancel
  at most once, and only then. A channel closed without cancellation delivered exactly the chunks
  up to the end of the plugin's stream, or up to and including the error chunk that ended it.
\<close>

theorem forwarding_in_order:
  assumes "freach nw c sid w s"
  shows "prefix (fs_out s) (fs_got s) \<and> length (fs_got s) \<le> Suc (length (fs_out s)) \<and>
     fs_cancels s \<le> 1 \<and>
     (fs_cancelled s \<or> fs_cancels s = 0 \<and>
       (fs_phase s \<noteq> Closed_channel \<or>
        (\<exists>fuel. run_state (forward nw c sid fuel) w = ((fs_out s, True), fs_world s))))"
proof -
  from forward_inv_reach [OF assms] have inv: "forward_inv s" .
  then have "prefix (fs_out s) (fs_got s)" "length (fs_got s) \<le> Suc (length (fs_out s))"
    by (auto simp: forward_inv_def split: forward_phase.splits)
  moreover have "fs_cancels s \<le> 1" "fs_cancelled s \<or> fs_cancels s = 0"
    using inv by (auto simp: forward_inv_def split: if_splits)
  moreover have "\<exists>fuel. run_state (forward nw c sid fuel) w = ((fs_out s, True), fs_world s)"
    if "\<not> fs_cancelled s" "fs_phase s = Closed_channel"
    using continues_reach [OF assms that(1)] that(2) by (simp add: continues_def)
  ultimately show ?thesis by blast
qed

subsection \<open>Errors of remote upstreams\<close>

text \<open>
  \<open>net/rpc\<close> hands an error of the plugin over as its text (\<open>rpc.ServerError\<close>), and its own errors
  carry no upstream error either.
\<close>

definition textual_errors :: "'n net \<Rightarrow> bool" where
  "textual_errors nw \<longleftrightarrow>
     (\<forall>conn rq n e n'. nw_InvokeStart nw conn rq n = (Inl e, n') \<longrightarrow> as_upstream e = None)"

lemma rpc_call_error:
  assumes "run_state (rpc_call nw c method req) s = (Inl e, t)"
    and "\<And>conn rq n e n'. method conn rq n = (Inl e, n') \<Longrightarrow> as_upstream e = None"
  shows "as_upstream e = None"
  using assms by (auto simp: rpc_call_def callOn_def on_net_def client_field_def reconnect_failed_def
      split: prod.splits sum.splits if_splits)

text \<open>
  An upstream reached over RPC cannot mark a failed invocation as final: whatever the plugin
  answers, the pipeline takes the failure for retryable and goes on to the next route.
\<close>

theorem remote_failures_retryable:
  assumes "textual_errors nw"
    and "Invoke (client_UpstreamProvider nw fuel c) req w = (Inl e, w')"
  shows "retryable e"
proof -
  have "run_state (rpc_call nw c (nw_InvokeStart nw) req) w = (Inl e, w')"
    using assms(2) by (auto simp: client_UpstreamProvider_def answering_of_def Invoke_client_def
        split: sum.splits prod.splits)
  then have "as_upstream e = None"
    by (rule rpc_call_error) (use assms(1) in \<open>unfold textual_errors_def, blast\<close>)
  then show ?thesis by (simp add: retryable_def)
qed

end
