(* ===== verification/ChatDecode.thy ===== *)
theory ChatDecode
  imports Capabilities "HOL-Library.Multiset"
begin

text \<open>
  How the body of a chat request becomes a \<open>ChatCompletionRequest\<close> (\<open>decodeChatRequest\<close> of
  \<open>internal/httpapi/server.go\<close> and the struct tags of \<open>internal/capabilities/types.go\<close>): the body
  is decoded into a map, the map encoded again and that text decoded into the struct.

  The first decoding, from bytes to a map, is an argument (it reads the body from the network). The
  second, \<open>json.Unmarshal\<close> into the struct, is modelled: keys match field names exactly or up to
  case, \<open>null\<close> leaves a field that cannot be nil alone, a later matching key decodes into the value
  an earlier one left, and the first type mismatch is the error.
\<close>

subsection \<open>Keys and numbers\<close>

text \<open>
  Case folding of \<open>encoding/json\<close>, with the two non-ASCII runes that fold to ASCII letters: the
  Kelvin sign (E2 84 AA) and the long s (C5 BF).
\<close>

fun fold_name :: "string \<Rightarrow> string" where
  "fold_name [] = []"
| "fold_name (c # s) =
     (if of_char c = (226::nat) \<and> take 2 s = map char_of [132::nat, 170] then CHR ''k'' # fold_name (drop 2 s)
      else if of_char c = (197::nat) \<and> take 1 s = [char_of (191::nat)] then CHR ''s'' # fold_name (drop 1 s)
      else to_lower_char c # fold_name s)"

definition find_field :: "string list \<Rightarrow> string \<Rightarrow> string option" where
  "find_field names k =
     (if k \<in> set names then Some k else List.find (\<lambda>n. fold_name n = fold_name k) names)"

definition is_digit :: "char \<Rightarrow> bool" where
  "is_digit c \<longleftrightarrow> between 48 c 57"

definition signed :: "bool \<Rightarrow> nat \<Rightarrow> int" where
  "signed neg n = (if neg then - int n else int n)"

text \<open>\<open>strconv.ParseInt(s, 10, 64)\<close>.\<close>

definition ParseInt :: "string \<Rightarrow> int option" where
  "ParseInt s =
     (let neg = (take 1 s = ''-''); digits = (if take 1 s \<in> {''-'', ''+''} then drop 1 s else s);
          n = signed neg (read_nat digits)
      in if digits \<noteq> [] \<and> list_all is_digit digits \<and> - (2 ^ 63) \<le> n \<and> n < 2 ^ 63 then Some n else None)"

subsection \<open>Decoding values\<close>

text \<open>Where a value is being decoded: the innermost struct and the path of field names.\<close>

record dctx =
  dx_struct :: string
  dx_path :: "string list"

definition json_kind :: "json \<Rightarrow> string" where
  "json_kind j = (case j of JNull \<Rightarrow> ''null'' | JBool _ \<Rightarrow> ''bool'' | JNum _ \<Rightarrow> ''number''
     | JStr _ \<Rightarrow> ''string'' | JArr _ \<Rightarrow> ''array'' | JObj _ \<Rightarrow> ''object'')"

definition mismatch :: "string \<Rightarrow> dctx \<Rightarrow> string \<Rightarrow> goerr" where
  "mismatch value ctx ty = EText (''json: cannot unmarshal '' @ value @ '' into Go struct field ''
     @ dx_struct ctx @ ''.'' @ Join (dx_path ctx) ''.'' @ '' of type '' @ ty)"

definition sum_map :: "('a \<Rightarrow> 'b) \<Rightarrow> 'e + 'a \<Rightarrow> 'e + 'b" where
  "sum_map f r = (case r of Inl e \<Rightarrow> Inl e | Inr a \<Rightarrow> Inr (f a))"

lemma sum_map_simps [simp]: "sum_map f (Inl e) = Inl e" "sum_map f (Inr a) = Inr (f a)"
  by (simp_all add: sum_map_def)

definition dec_string :: "dctx \<Rightarrow> string \<Rightarrow> json \<Rightarrow> goerr + string" where
  "dec_string ctx old j = (case j of JNull \<Rightarrow> Inr old | JStr s \<Rightarrow> Inr s
     | _ \<Rightarrow> Inl (mismatch (json_kind j) ctx ''string''))"

definition dec_bool :: "dctx \<Rightarrow> bool \<Rightarrow> json \<Rightarrow> goerr + bool" where
  "dec_bool ctx old j = (case j of JNull \<Rightarrow> Inr old | JBool b \<Rightarrow> Inr b
     | _ \<Rightarrow> Inl (mismatch (json_kind j) ctx ''bool''))"

definition dec_int :: "string \<Rightarrow> dctx \<Rightarrow> int \<Rightarrow> json \<Rightarrow> goerr + int" where
  "dec_int ty ctx old j = (case j of JNull \<Rightarrow> Inr old
     | JNum t \<Rightarrow> (case ParseInt t of Some n \<Rightarrow> Inr n | None \<Rightarrow> Inl (mismatch (''number '' @ t) ctx ty))
     | _ \<Rightarrow> Inl (mismatch (json_kind j) ctx ty))"

definition dec_float :: "dctx \<Rightarrow> float64 \<Rightarrow> json \<Rightarrow> goerr + float64" where
  "dec_float ctx old j = (case j of JNull \<Rightarrow> Inr old | JNum t \<Rightarrow> Inr (Float64 t)
     | _ \<Rightarrow> Inl (mismatch (json_kind j) ctx ''float64''))"

text \<open>A pointer field: \<open>null\<close> makes it nil, anything else is decoded into what it points to.\<close>

definition dec_pointer :: "('a \<Rightarrow> json \<Rightarrow> goerr + 'a) \<Rightarrow> 'a \<Rightarrow> 'a option \<Rightarrow> json \<Rightarrow> goerr + 'a option" where
  "dec_pointer dec zero old j =
     (if j = JNull then Inr None else sum_map Some (dec (case old of None \<Rightarrow> zero | Some a \<Rightarrow> a) j))"

fun any_of_json :: "json \<Rightarrow> any" where
  "any_of_json JNull = ANil"
| "any_of_json (JBool b) = ABool b"
| "any_of_json (JNum t) = AFloat (Float64 t)"
| "any_of_json (JStr s) = AString s"
| "any_of_json (JArr js) = ASlice (map any_of_json js)"
| "any_of_json (JObj kvs) = AMap (map (\<lambda>kv. (fst kv, any_of_json (snd kv))) kvs)"

fun dec_elems :: "('a \<Rightarrow> json \<Rightarrow> goerr + 'a) \<Rightarrow> 'a \<Rightarrow> 'a list \<Rightarrow> json list \<Rightarrow> goerr + 'a list" where
  "dec_elems dec zero olds [] = Inr []"
| "dec_elems dec zero olds (j # js) =
     sum_bind (dec (case olds of [] \<Rightarrow> zero | a # _ \<Rightarrow> a) j)
       (\<lambda>a. sum_map (Cons a) (dec_elems dec zero (tl olds) js))"

definition dec_slice ::
  "('a \<Rightarrow> json \<Rightarrow> goerr + 'a) \<Rightarrow> 'a \<Rightarrow> string \<Rightarrow> dctx \<Rightarrow> 'a slice \<Rightarrow> json \<Rightarrow> goerr + 'a slice" where
  "dec_slice dec zero ty ctx old j =
     (case j of JNull \<Rightarrow> Inr None
      | JArr js \<Rightarrow> sum_map Some (dec_elems dec zero (elems old) js)
      | _ \<Rightarrow> Inl (mismatch (json_kind j) ctx ty))"

text \<open>A struct: its fields one after the other, in the order of the keys.\<close>

fun dec_fields :: "(string \<Rightarrow> json \<Rightarrow> 'r \<Rightarrow> goerr + 'r) \<Rightarrow> (string \<times> json) list \<Rightarrow> 'r \<Rightarrow> goerr + 'r" where
  "dec_fields upd [] r = Inr r"
| "dec_fields upd ((k, v) # kvs) r = sum_bind (upd k v r) (dec_fields upd kvs)"

definition dec_struct ::
  "(string \<Rightarrow> json \<Rightarrow> 'r \<Rightarrow> goerr + 'r) \<Rightarrow> string \<Rightarrow> dctx \<Rightarrow> 'r \<Rightarrow> json \<Rightarrow> goerr + 'r" where
  "dec_struct upd ty ctx old j =
     (case j of JNull \<Rightarrow> Inr old | JObj kvs \<Rightarrow> dec_fields upd kvs old
      | _ \<Rightarrow> Inl (mismatch (json_kind j) ctx ty))"

subsection \<open>The structs\<close>

definition below :: "string \<Rightarrow> string list \<Rightarrow> string \<Rightarrow> dctx" where
  "below struct path field = \<lparr>dx_struct = struct, dx_path = path @ [field]\<rparr>"

definition set_function ::
  "string list \<Rightarrow> string \<Rightarrow> json \<Rightarrow> ToolCallFunction \<Rightarrow> goerr + ToolCallFunction" where
  "set_function path k v f =
     (let c = below ''ToolCallFunction'' path in
      case find_field [''name'', ''arguments''] k of None \<Rightarrow> Inr f
      | Some n \<Rightarrow>
          if n = ''name'' then sum_map (\<lambda>x. f\<lparr>tf_Name := x\<rparr>) (dec_string (c n) (tf_Name f) v)
          else sum_map (\<lambda>x. f\<lparr>tf_Arguments := x\<rparr>) (dec_string (c n) (tf_Arguments f) v))"

definition set_tool_call :: "string list \<Rightarrow> string \<Rightarrow> json \<Rightarrow> ToolCall \<Rightarrow> goerr + ToolCall" where
  "set_tool_call path k v t =
     (let c = below ''ToolCall'' path in
      case find_field [''index'', ''id'', ''type'', ''function''] k of None \<Rightarrow> Inr t
      | Some n \<Rightarrow>
          if n = ''index'' then sum_map (\<lambda>x. t\<lparr>tc_Index := x\<rparr>) (dec_int ''int'' (c n) (tc_Index t) v)
          else if n = ''id'' then sum_map (\<lambda>x. t\<lparr>tc_ID := x\<rparr>) (dec_string (c n) (tc_ID t) v)
          else if n = ''type'' then sum_map (\<lambda>x. t\<lparr>tc_Type := x\<rparr>) (dec_string (c n) (tc_Type t) v)
          else sum_map (\<lambda>x. t\<lparr>tc_Function := x\<rparr>)
            (dec_struct (set_function (path @ [n])) ''capabilities.ToolCallFunction'' (c n) (tc_Function t) v))"

definition zero_tool_call :: ToolCall where
  "zero_tool_call = \<lparr>tc_Index = 0, tc_ID = [], tc_Type = [],
     tc_Function = \<lparr>tf_Name = [], tf_Arguments = []\<rparr>\<rparr>"

definition set_message :: "string list \<Rightarrow> string \<Rightarrow> json \<Rightarrow> ChatMessage \<Rightarrow> goerr + ChatMessage" where
  "set_message path k v m =
     (let c = below ''ChatMessage'' path in
      case find_field [''role'', ''content'', ''name'', ''tool_call_id'', ''tool_calls''] k of None \<Rightarrow> Inr m
      | Some n \<Rightarrow>
          if n = ''role'' then sum_map (\<lambda>x. m\<lparr>cm_Role := x\<rparr>) (dec_string (c n) (cm_Role m) v)
          else if n = ''content'' then Inr (m\<lparr>cm_Content := any_of_json v\<rparr>)
          else if n = ''name'' then sum_map (\<lambda>x. m\<lparr>cm_Name := x\<rparr>) (dec_string (c n) (cm_Name m) v)
          else if n = ''tool_call_id''
          then sum_map (\<lambda>x. m\<lparr>cm_ToolCallID := x\<rparr>) (dec_string (c n) (cm_ToolCallID m) v)
          else sum_map (\<lambda>x. m\<lparr>cm_ToolCalls := elems x\<rparr>)
            (dec_slice (dec_struct (set_tool_call (path @ [n])) ''capabilities.ToolCall'' (c n)) zero_tool_call
               ''[]capabilities.ToolCall'' (c n) (Some (cm_ToolCalls m)) v))"

definition set_request ::
  "string \<Rightarrow> json \<Rightarrow> ChatCompletionRequest \<Rightarrow> goerr + ChatCompletionRequest" where
  "set_request k v r =
     (let c = below ''ChatCompletionRequest'' [] in
      case find_field [''model'', ''messages'', ''stream'', ''temperature'', ''max_tokens'', ''tools'',
          ''tool_choice'', ''metadata''] k of None \<Rightarrow> Inr r
      | Some n \<Rightarrow>
          if n = ''model'' then sum_map (\<lambda>x. r\<lparr>rq_Model := x\<rparr>) (dec_string (c n) (rq_Model r) v)
          else if n = ''messages'' then sum_map (\<lambda>x. r\<lparr>rq_Messages := x\<rparr>)
            (dec_slice (dec_struct (set_message [n]) ''capabilities.ChatMessage'' (c n)) zero_message
               ''[]capabilities.ChatMessage'' (c n) (rq_Messages r) v)
          else if n = ''stream'' then sum_map (\<lambda>x. r\<lparr>rq_Stream := x\<rparr>) (dec_bool (c n) (rq_Stream r) v)
          else if n = ''temperature'' then sum_map (\<lambda>x. r\<lparr>rq_Temperature := x\<rparr>)
            (dec_pointer (dec_float (c n)) zero_float (rq_Temperature r) v)
          else if n = ''max_tokens'' then sum_map (\<lambda>x. r\<lparr>rq_MaxTokens := x\<rparr>)
            (dec_pointer (dec_int ''int64'' (c n)) 0 (rq_MaxTokens r) v)
          else if n = ''tools'' then Inr (r\<lparr>rq_Tools := any_of_json v\<rparr>)
          else if n = ''tool_choice'' then Inr (r\<lparr>rq_ToolChoice := any_of_json v\<rparr>)
          else Inr (r\<lparr>rq_Metadata := any_of_json v\<rparr>))"

definition zero_request :: ChatCompletionRequest where
  "zero_request = \<lparr>rq_Model = [], rq_Messages = None, rq_Stream = False, rq_Temperature = None,
     rq_MaxTokens = None, rq_Tools = ANil, rq_ToolChoice = ANil, rq_Metadata = ANil, rq_Extra = []\<rparr>"

definition unmarshal_request :: "json \<Rightarrow> goerr + ChatCompletionRequest" where
  "unmarshal_request j = (case j of JObj kvs \<Rightarrow> dec_fields set_request kvs zero_request
     | _ \<Rightarrow> Inr zero_request)"

subsection \<open>\<open>decodeChatRequest\<close>\<close>

definition known_keys :: "string list" where
  "known_keys = [''model'', ''messages'', ''stream'', ''temperature'', ''max_tokens'', ''tools'',
     ''tool_choice'', ''metadata'']"

definition decodeChatRequest ::
  "(string \<Rightarrow> goerr + (string \<times> any) list) \<Rightarrow> string \<Rightarrow> goerr + ChatCompletionRequest" where
  "decodeChatRequest decode body =
     sum_bind (decode body) (\<lambda>raw.
     sum_bind (unmarshal_request (json_of_any (AMap raw))) (\<lambda>out.
       let out = out\<lparr>rq_Extra := filter (\<lambda>kv. fst kv \<notin> set known_keys) raw\<rparr>
       in if rq_Model out = [] then Inl (EText ''model is required'') else Inr out))"

subsection \<open>Numbers read back\<close>

lemma show_nat_is_digit: "list_all is_digit (show_nat n)"
  using show_nat_digits [of _ n] by (auto simp: list_all_iff is_digit_def between_def)

lemma ParseInt_show_int:
  assumes "- (2 ^ 63) \<le> n" and "n < 2 ^ 63" shows "ParseInt (show_int n) = Some n"
proof (cases "n < 0")
  case True
  then show ?thesis using assms show_nat_is_digit
    by (simp add: ParseInt_def show_int_def signed_def read_show_nat Let_def)
next
  case False
  obtain c s where cs: "show_nat (nat n) = c # s" by (cases "show_nat (nat n)") auto
  then have "is_digit c" using show_nat_is_digit [of "nat n"] by simp
  then have "c \<noteq> CHR ''-''" "c \<noteq> CHR ''+''" by (auto simp: is_digit_def between_def)
  then show ?thesis using assms False show_nat_is_digit [of "nat n"] read_show_nat [of "nat n"]
    by (simp add: ParseInt_def show_int_def signed_def cs Let_def)
qed

subsection \<open>Decoding what was encoded\<close>

text \<open>
  Values that JSON represents exactly: no integers outside a struct, maps listed by key; and in a
  struct only integers that a \<open>float64\<close> holds exactly, because the first decoding goes through one.
\<close>

fun wire_any :: "any \<Rightarrow> bool" where
  "wire_any (AInt i) = False"
| "wire_any (ASlice vs) = list_all wire_any vs"
| "wire_any (AMap kvs) = (sorted (map fst kvs) \<and> list_all (\<lambda>kv. wire_any (snd kv)) kvs)"
| "wire_any _ = True"

definition wire_int :: "int \<Rightarrow> bool" where
  "wire_int n \<longleftrightarrow> \<bar>n\<bar> \<le> 2 ^ 53"

definition wire_message :: "ChatMessage \<Rightarrow> bool" where
  "wire_message m \<longleftrightarrow> wire_any (cm_Content m) \<and> list_all (\<lambda>t. wire_int (tc_Index t)) (cm_ToolCalls m)"

definition wire_request :: "ChatCompletionRequest \<Rightarrow> bool" where
  "wire_request r \<longleftrightarrow>
     list_all wire_message (elems (rq_Messages r)) \<and>
     (case rq_MaxTokens r of None \<Rightarrow> True | Some n \<Rightarrow> wire_int n) \<and>
     wire_any (rq_Tools r) \<and> wire_any (rq_ToolChoice r) \<and> wire_any (rq_Metadata r) \<and> rq_Extra r = []"

lemma any_of_json_of_any: "wire_any a \<Longrightarrow> any_of_json (json_of_any a) = a"
proof (induction a)
  case (ASlice vs)
  then show ?case by (simp add: list_all_iff map_idI)
next
  case (AMap kvs)
  let ?js = "map (\<lambda>kv. (fst kv, json_of_any (snd kv))) kvs"
  have "sorted (map fst ?js)" using AMap.prems by (simp add: comp_def)
  then have "sort_key fst ?js = ?js" by (simp add: sort_key_id_if_sorted)
  moreover have "any_of_json (json_of_any (snd kv)) = snd kv" if "kv \<in> set kvs" for kv
    using AMap that by (auto simp: list_all_iff) (metis prod.collapse snds.intros)
  ultimately show ?case by (simp add: comp_def map_idI)
qed simp_all

text \<open>The text goes through a map and back: the keys of every object get sorted.\<close>

definition renorm :: "json \<Rightarrow> json" where
  "renorm j = json_of_any (any_of_json j)"

lemma renorm_simps [simp]:
  "renorm JNull = JNull" "renorm (JBool b) = JBool b" "renorm (JNum t) = JNum t" "renorm (JStr s) = JStr s"
  "renorm (JArr js) = JArr (map renorm js)"
  "renorm (JObj kvs) = JObj (sort_key fst (map (\<lambda>kv. (fst kv, renorm (snd kv))) kvs))"
  by (simp_all add: renorm_def comp_def)

lemma any_of_renorm: "wire_any a \<Longrightarrow> any_of_json (renorm (json_of_any a)) = a"
  by (simp add: renorm_def any_of_json_of_any)

lemma dec_int_renorm: "wire_int n \<Longrightarrow> dec_int ty c old (JNum (show_int n)) = Inr n"
  by (simp add: dec_int_def ParseInt_show_int wire_int_def)

text \<open>
  The keys of an object are distinct, so their order does not matter: \<open>mix S\<close> is the struct whose
  fields named in \<open>S\<close> have been decoded.
\<close>

lemma dec_fields_mix:
  assumes "\<And>k v S. (k, v) \<in> set kvs \<Longrightarrow> k \<notin> S \<Longrightarrow> upd k v (mix S) = Inr (mix (insert k S))"
    and "distinct (map fst kvs)" and "S \<inter> fst ` set kvs = {}"
  shows "dec_fields upd kvs (mix S) = Inr (mix (S \<union> fst ` set kvs))"
  using assms
proof (induction kvs arbitrary: S)
  case (Cons kv kvs)
  obtain k v where kv: "kv = (k, v)" by force
  have "dec_fields upd kvs (mix (insert k S)) = Inr (mix (insert k S \<union> fst ` set kvs))"
    using Cons.prems kv by (intro Cons.IH) auto
  with Cons.prems kv show ?case by simp
qed simp

lemma dec_object_mix:
  assumes "\<And>k v S. (k, v) \<in> set kvs \<Longrightarrow> k \<notin> S \<Longrightarrow> upd k (renorm v) (mix S) = Inr (mix (insert k S))"
    and "distinct (map fst kvs)"
  shows "\<exists>kvs'. renorm (JObj kvs) = JObj kvs' \<and> dec_fields upd kvs' (mix {}) = Inr (mix (fst ` set kvs))"
proof -
  let ?kvs = "sort_key fst (map (\<lambda>kv. (fst kv, renorm (snd kv))) kvs)"
  have set: "set ?kvs = (\<lambda>kv. (fst kv, renorm (snd kv))) ` set kvs" by simp
  have "mset (map fst ?kvs) = mset (map fst kvs)" by (simp add: image_mset.compositionality comp_def)
  then have "distinct (map fst ?kvs)" using assms(2) mset_eq_imp_distinct_iff by blast
  then have "dec_fields upd ?kvs (mix {}) = Inr (mix ({} \<union> fst ` set ?kvs))"
    using assms(1) by (intro dec_fields_mix) auto
  then show ?thesis by (simp add: image_image)
qed

lemma dec_elems_map:
  "(\<And>x. x \<in> set xs \<Longrightarrow> dec zero (enc x) = Inr x) \<Longrightarrow> dec_elems dec zero [] (map enc xs) = Inr xs"
  by (induction xs) simp_all

subsection \<open>The structs read back\<close>

definition mix_function :: "ToolCallFunction \<Rightarrow> string set \<Rightarrow> ToolCallFunction" where
  "mix_function f S = \<lparr>tf_Name = (if ''name'' \<in> S then tf_Name f else []),
     tf_Arguments = (if ''arguments'' \<in> S then tf_Arguments f else [])\<rparr>"

definition json_function :: "ToolCallFunction \<Rightarrow> (string \<times> json) list" where
  "json_function f = omit_if (tf_Name f = []) ''name'' (JStr (tf_Name f))
     @ omit_if (tf_Arguments f = []) ''arguments'' (JStr (tf_Arguments f))"

lemma function_back:
  "\<exists>kvs. renorm (JObj (json_function f)) = JObj kvs \<and> dec_fields (set_function path) kvs (mix_function f {}) = Inr f"
proof -
  have "\<exists>kvs. renorm (JObj (json_function f)) = JObj kvs \<and>
      dec_fields (set_function path) kvs (mix_function f {}) = Inr (mix_function f (fst ` set (json_function f)))"
    by (rule dec_object_mix)
      (auto simp: json_function_def omit_if_def set_function_def find_field_def dec_string_def mix_function_def
        Let_def split: if_splits)
  moreover have "mix_function f (fst ` set (json_function f)) = f"
    by (cases f) (auto simp: mix_function_def json_function_def omit_if_def)
  ultimately show ?thesis by simp
qed

definition mix_tool_call :: "ToolCall \<Rightarrow> string set \<Rightarrow> ToolCall" where
  "mix_tool_call t S = \<lparr>tc_Index = (if ''index'' \<in> S then tc_Index t else 0),
     tc_ID = (if ''id'' \<in> S then tc_ID t else []), tc_Type = (if ''type'' \<in> S then tc_Type t else []),
     tc_Function = (if ''function'' \<in> S then tc_Function t else \<lparr>tf_Name = [], tf_Arguments = []\<rparr>)\<rparr>"

lemma set_tool_call_simps:
  "set_tool_call path ''index'' v t = sum_map (\<lambda>x. t\<lparr>tc_Index := x\<rparr>)
     (dec_int ''int'' (below ''ToolCall'' path ''index'') (tc_Index t) v)"
  "set_tool_call path ''id'' v t = sum_map (\<lambda>x. t\<lparr>tc_ID := x\<rparr>)
     (dec_string (below ''ToolCall'' path ''id'') (tc_ID t) v)"
  "set_tool_call path ''type'' v t = sum_map (\<lambda>x. t\<lparr>tc_Type := x\<rparr>)
     (dec_string (below ''ToolCall'' path ''type'') (tc_Type t) v)"
  "set_tool_call path ''function'' v t = sum_map (\<lambda>x. t\<lparr>tc_Function := x\<rparr>)
     (dec_struct (set_function (path @ [''function''])) ''capabilities.ToolCallFunction''
        (below ''ToolCall'' path ''function'') (tc_Function t) v)"
  by (simp_all add: set_tool_call_def find_field_def Let_def)

lemma zero_function: "mix_function f {} = \<lparr>tf_Name = [], tf_Arguments = []\<rparr>"
  by (simp add: mix_function_def)

lemma zero_call: "mix_tool_call t {} = zero_tool_call"
  by (simp add: mix_tool_call_def zero_tool_call_def)

lemma tool_call_back:
  assumes "wire_int (tc_Index t)"
  shows "dec_struct (set_tool_call path) ty c zero_tool_call (renorm (json_tool_call t)) = Inr t"
proof -
  define kvs where "kvs = [(''index'', JNum (show_int (tc_Index t)))]
      @ omit_if (tc_ID t = []) ''id'' (JStr (tc_ID t))
      @ omit_if (tc_Type t = []) ''type'' (JStr (tc_Type t))
      @ [(''function'', JObj (json_function (tc_Function t)))]"
  have j: "json_tool_call t = JObj kvs" by (simp add: json_tool_call_def kvs_def json_function_def)
  have fn: "dec_struct (set_function p) ty c \<lparr>tf_Name = [], tf_Arguments = []\<rparr>
      (renorm (JObj (json_function (tc_Function t)))) = Inr (tc_Function t)" for p ty c
    using function_back [of "tc_Function t" p] by (auto simp: dec_struct_def zero_function simp del: renorm_simps)
  have "\<exists>kvs'. renorm (JObj kvs) = JObj kvs' \<and>
      dec_fields (set_tool_call path) kvs' (mix_tool_call t {}) = Inr (mix_tool_call t (fst ` set kvs))"
  proof (rule dec_object_mix)
    fix k v S
    assume "(k, v) \<in> set kvs" and S: "k \<notin> S"
    then have "(k, v) = (''index'', JNum (show_int (tc_Index t))) \<or> (k, v) = (''id'', JStr (tc_ID t)) \<or>
        (k, v) = (''type'', JStr (tc_Type t)) \<or> (k, v) = (''function'', JObj (json_function (tc_Function t)))"
      by (auto simp: kvs_def omit_if_def split: if_splits)
    then show "set_tool_call path k (renorm v) (mix_tool_call t S) = Inr (mix_tool_call t (insert k S))"
      using assms fn S
      by (elim disjE) (simp_all add: set_tool_call_simps dec_string_def mix_tool_call_def dec_int_renorm
          del: renorm_simps(6))
  qed (auto simp: kvs_def omit_if_def)
  moreover have "mix_tool_call t (fst ` set kvs) = t"
    by (cases t) (auto simp: mix_tool_call_def kvs_def omit_if_def)
  ultimately show ?thesis unfolding j by (auto simp: dec_struct_def zero_call simp del: renorm_simps)
qed

definition mix_message :: "ChatMessage \<Rightarrow> string set \<Rightarrow> ChatMessage" where
  "mix_message m S = \<lparr>cm_Role = (if ''role'' \<in> S then cm_Role m else []),
     cm_Content = (if ''content'' \<in> S then cm_Content m else ANil),
     cm_Name = (if ''name'' \<in> S then cm_Name m else []),
     cm_ToolCallID = (if ''tool_call_id'' \<in> S then cm_ToolCallID m else []),
     cm_ToolCalls = (if ''tool_calls'' \<in> S then cm_ToolCalls m else [])\<rparr>"

lemma zero_mix_message: "mix_message m {} = zero_message"
  by (simp add: mix_message_def zero_message_def)

lemma set_message_simps:
  "set_message path ''role'' v m = sum_map (\<lambda>x. m\<lparr>cm_Role := x\<rparr>)
     (dec_string (below ''ChatMessage'' path ''role'') (cm_Role m) v)"
  "set_message path ''content'' v m = Inr (m\<lparr>cm_Content := any_of_json v\<rparr>)"
  "set_message path ''name'' v m = sum_map (\<lambda>x. m\<lparr>cm_Name := x\<rparr>)
     (dec_string (below ''ChatMessage'' path ''name'') (cm_Name m) v)"
  "set_message path ''tool_call_id'' v m = sum_map (\<lambda>x. m\<lparr>cm_ToolCallID := x\<rparr>)
     (dec_string (below ''ChatMessage'' path ''tool_call_id'') (cm_ToolCallID m) v)"
  "set_message path ''tool_calls'' v m = sum_map (\<lambda>x. m\<lparr>cm_ToolCalls := elems x\<rparr>)
     (dec_slice (dec_struct (set_tool_call (path @ [''tool_calls''])) ''capabilities.ToolCall''
          (below ''ChatMessage'' path ''tool_calls'')) zero_tool_call
        ''[]capabilities.ToolCall'' (below ''ChatMessage'' path ''tool_calls'') (Some (cm_ToolCalls m)) v)"
  by (simp_all add: set_message_def find_field_def Let_def)

lemma message_back:
  assumes "wire_message m"
  shows "dec_struct (set_message path) ty c zero_message (renorm (json_message m)) = Inr m"
proof -
  define kvs where "kvs = [(''role'', JStr (cm_Role m)), (''content'', json_of_any (cm_Content m))]
      @ omit_if (cm_Name m = []) ''name'' (JStr (cm_Name m))
      @ omit_if (cm_ToolCallID m = []) ''tool_call_id'' (JStr (cm_ToolCallID m))
      @ omit_if (cm_ToolCalls m = []) ''tool_calls'' (JArr (map json_tool_call (cm_ToolCalls m)))"
  have j: "json_message m = JObj kvs" by (simp add: json_message_def kvs_def)
  have calls: "dec_elems (dec_struct (set_tool_call p) ty c) zero_tool_call []
      (map (renorm \<circ> json_tool_call) (cm_ToolCalls m)) = Inr (cm_ToolCalls m)" for p ty c
    using assms by (intro dec_elems_map) (simp add: wire_message_def list_all_iff tool_call_back)
  have "\<exists>kvs'. renorm (JObj kvs) = JObj kvs' \<and>
      dec_fields (set_message path) kvs' (mix_message m {}) = Inr (mix_message m (fst ` set kvs))"
  proof (rule dec_object_mix)
    fix k v S
    assume "(k, v) \<in> set kvs" and S: "k \<notin> S"
    then have "(k, v) = (''role'', JStr (cm_Role m)) \<or> (k, v) = (''content'', json_of_any (cm_Content m)) \<or>
        (k, v) = (''name'', JStr (cm_Name m)) \<or> (k, v) = (''tool_call_id'', JStr (cm_ToolCallID m)) \<or>
        (k, v) = (''tool_calls'', JArr (map json_tool_call (cm_ToolCalls m)))"
      by (auto simp: kvs_def omit_if_def split: if_splits)
    then show "set_message path k (renorm v) (mix_message m S) = Inr (mix_message m (insert k S))"
      using assms calls S
      by (elim disjE) (simp_all add: set_message_simps dec_string_def dec_slice_def mix_message_def
          any_of_renorm wire_message_def)
  qed (auto simp: kvs_def omit_if_def)
  moreover have "mix_message m (fst ` set kvs) = m"
    by (cases m) (auto simp: mix_message_def kvs_def omit_if_def)
  ultimately show ?thesis unfolding j by (auto simp: dec_struct_def zero_mix_message simp del: renorm_simps)
qed

definition mix_request :: "ChatCompletionRequest \<Rightarrow> string set \<Rightarrow> ChatCompletionRequest" where
  "mix_request r S = \<lparr>rq_Model = (if ''model'' \<in> S then rq_Model r else []),
     rq_Messages = (if ''messages'' \<in> S then rq_Messages r else None),
     rq_Stream = (if ''stream'' \<in> S then rq_Stream r else False),
     rq_Temperature = (if ''temperature'' \<in> S then rq_Temperature r else None),
     rq_MaxTokens = (if ''max_tokens'' \<in> S then rq_MaxTokens r else None),
     rq_Tools = (if ''tools'' \<in> S then rq_Tools r else ANil),
     rq_ToolChoice = (if ''tool_choice'' \<in> S then rq_ToolChoice r else ANil),
     rq_Metadata = (if ''metadata'' \<in> S then rq_Metadata r else ANil), rq_Extra = []\<rparr>"

lemma zero_mix_request: "mix_request r {} = zero_request"
  by (simp add: mix_request_def zero_request_def)

lemma set_request_simps:
  "set_request ''model'' v r = sum_map (\<lambda>x. r\<lparr>rq_Model := x\<rparr>)
     (dec_string (below ''ChatCompletionRequest'' [] ''model'') (rq_Model r) v)"
  "set_request ''messages'' v r = sum_map (\<lambda>x. r\<lparr>rq_Messages := x\<rparr>)
     (dec_slice (dec_struct (set_message [''messages'']) ''capabilities.ChatMessage''
          (below ''ChatCompletionRequest'' [] ''messages'')) zero_message
        ''[]capabilities.ChatMessage'' (below ''ChatCompletionRequest'' [] ''messages'') (rq_Messages r) v)"
  "set_request ''stream'' v r = sum_map (\<lambda>x. r\<lparr>rq_Stream := x\<rparr>)
     (dec_bool (below ''ChatCompletionRequest'' [] ''stream'') (rq_Stream r) v)"
  "set_request ''temperature'' v r = sum_map (\<lambda>x. r\<lparr>rq_Temperature := x\<rparr>)
     (dec_pointer (dec_float (below ''ChatCompletionRequest'' [] ''temperature'')) zero_float (rq_Temperature r) v)"
  "set_request ''max_tokens'' v r = sum_map (\<lambda>x. r\<lparr>rq_MaxTokens := x\<rparr>)
     (dec_pointer (dec_int ''int64'' (below ''ChatCompletionRequest'' [] ''max_tokens'')) 0 (rq_MaxTokens r) v)"
  "set_request ''tools'' v r = Inr (r\<lparr>rq_Tools := any_of_json v\<rparr>)"
  "set_request ''tool_choice'' v r = Inr (r\<lparr>rq_ToolChoice := any_of_json v\<rparr>)"
  "set_request ''metadata'' v r = Inr (r\<lparr>rq_Metadata := any_of_json v\<rparr>)"
  by (simp_all add: set_request_def find_field_def Let_def)

definition request_fields :: "ChatCompletionRequest \<Rightarrow> (string \<times> json) list" where
  "request_fields r = [(''model'', JStr (rq_Model r)), (''messages'', json_messages (rq_Messages r))]
      @ omit_if (\<not> rq_Stream r) ''stream'' (JBool (rq_Stream r))
      @ (case rq_Temperature r of None \<Rightarrow> [] | Some f \<Rightarrow> [(''temperature'', JNum (float_text f))])
      @ (case rq_MaxTokens r of None \<Rightarrow> [] | Some n \<Rightarrow> [(''max_tokens'', JNum (show_int n))])
      @ omit_if (rq_Tools r = ANil) ''tools'' (json_of_any (rq_Tools r))
      @ omit_if (rq_ToolChoice r = ANil) ''tool_choice'' (json_of_any (rq_ToolChoice r))
      @ omit_if (rq_Metadata r = ANil) ''metadata'' (json_of_any (rq_Metadata r))"

lemma json_request_fields: "json_request r = JObj (request_fields r)"
  by (simp add: json_request_def request_fields_def)

lemma messages_back:
  assumes "list_all wire_message (elems ms)"
  shows "dec_slice (dec_struct (set_message p) ty c) zero_message ty' c' None (renorm (json_messages ms)) = Inr ms"
proof (cases ms)
  case (Some xs)
  have "dec_elems (dec_struct (set_message p) ty c) zero_message [] (map (renorm \<circ> json_message) xs) = Inr xs"
    using assms Some by (intro dec_elems_map) (simp add: list_all_iff message_back)
  with Some show ?thesis by (simp add: dec_slice_def json_messages_def json_slice_def)
qed (simp add: dec_slice_def json_messages_def json_slice_def)

lemma request_field_cases:
  "(k, v) \<in> set (request_fields r) \<Longrightarrow>
     k = ''model'' \<and> v = JStr (rq_Model r) \<or> k = ''messages'' \<and> v = json_messages (rq_Messages r) \<or>
     k = ''stream'' \<and> v = JBool (rq_Stream r) \<or>
     k = ''temperature'' \<and> (\<exists>f. v = JNum (float_text f) \<and> rq_Temperature r = Some f) \<or>
     k = ''max_tokens'' \<and> (\<exists>n. v = JNum (show_int n) \<and> rq_MaxTokens r = Some n) \<or>
     k = ''tools'' \<and> v = json_of_any (rq_Tools r) \<or> k = ''tool_choice'' \<and> v = json_of_any (rq_ToolChoice r) \<or>
     k = ''metadata'' \<and> v = json_of_any (rq_Metadata r)"
  unfolding request_fields_def omit_if_def set_append Un_iff
  by (elim disjE; simp split: option.splits if_splits; metis)

lemma request_field_back:
  assumes w: "wire_request r" and kv: "(k, v) \<in> set (request_fields r)" and S: "k \<notin> S"
  shows "set_request k (renorm v) (mix_request r S) = Inr (mix_request r (insert k S))"
  using request_field_cases [OF kv]
proof (elim disjE conjE exE)
  assume k: "k = ''messages''" "v = json_messages (rq_Messages r)"
  have "list_all wire_message (elems (rq_Messages r))" using w by (simp add: wire_request_def)
  from messages_back [OF this] k S show ?thesis by (simp add: set_request_simps mix_request_def)
qed (use w S in \<open>simp_all add: set_request_simps dec_string_def dec_bool_def dec_pointer_def dec_float_def
    dec_int_renorm mix_request_def any_of_renorm wire_request_def\<close>)

lemma request_keys: "distinct (map fst (request_fields r))" "fst ` set (request_fields r) \<subseteq> set known_keys"
  by (cases "rq_Temperature r"; cases "rq_MaxTokens r"; simp add: request_fields_def omit_if_def)
    (cases "rq_Temperature r"; cases "rq_MaxTokens r"; simp add: request_fields_def omit_if_def known_keys_def)

lemma request_back:
  assumes "wire_request r" shows "unmarshal_request (renorm (json_request r)) = Inr r"
proof -
  have "\<exists>kvs. renorm (JObj (request_fields r)) = JObj kvs \<and>
      dec_fields set_request kvs (mix_request r {}) = Inr (mix_request r (fst ` set (request_fields r)))"
  proof (rule dec_object_mix)
    show "set_request k (renorm v) (mix_request r S) = Inr (mix_request r (insert k S))"
      if "(k, v) \<in> set (request_fields r)" "k \<notin> S" for k v S
      using that by (rule request_field_back [OF assms])
  qed (rule request_keys(1))
  moreover have "mix_request r (fst ` set (request_fields r)) = r"
    using assms
    by (cases r; cases "rq_Temperature r"; cases "rq_MaxTokens r")
      (auto simp: mix_request_def request_fields_def omit_if_def wire_request_def)
  ultimately show ?thesis
    by (auto simp: unmarshal_request_def json_request_fields zero_mix_request simp del: renorm_simps)
qed

lemma fields_decode:
  assumes "wire_request r" and "rq_Model r \<noteq> []" and "decode body = Inr raw"
    and raw: "raw = map (\<lambda>kv. (fst kv, any_of_json (snd kv))) (request_fields r)"
  shows "decodeChatRequest decode body = Inr r"
proof -
  have "filter (\<lambda>kv. fst kv \<notin> set known_keys) raw = []"
    using request_keys(2) [of r] by (auto simp: raw filter_empty_conv)
  moreover have "unmarshal_request (json_of_any (AMap raw)) = Inr r"
    using request_back [OF assms(1)] raw by (simp only: renorm_def json_request_fields any_of_json.simps)
  ultimately show ?thesis
    using assms by (cases r) (simp add: decodeChatRequest_def wire_request_def del: json_of_any.simps)
qed

text \<open>
  C21: A request survives the wire: when the body decodes to the map that a request is written as,
  the handler gets that request back, whatever optional fields it has and in whatever order the
  map yields its keys; nothing of it ends up among the unknown fields.
\<close>

theorem request_roundtrip:
  assumes "wire_request r" and "rq_Model r \<noteq> []"
    and "decode body = Inr raw" and "AMap raw = any_of_json (json_request r)"
  shows "decodeChatRequest decode body = Inr r"
  using assms by (intro fields_decode) (simp_all add: json_request_fields)

end
