(* ===== verification/HttpApi.thy ===== *)
theory HttpApi
  imports ChatDecode Stream
begin

text \<open>
  The HTTP interface (\<open>internal/httpapi/server.go\<close>, \<open>internal/httpapi/errors.go\<close>): the four
  handlers, the error body, and what they take from a request. \<open>writeStream\<close> is in the stream
  theory; here a streaming answer is the response writer with the stream that is to be written.

  \<open>net/http\<close> delivers a request as a record and receives the response through a writer: the header
  map is sent with the status at the first \<open>WriteHeader\<close> or write, later changes have no effect.
  Statuses outside of 100 to 999, which \<open>net/http\<close> refuses, are none of the gateway's.
\<close>

subsection \<open>The response writer\<close>

record http_writer =
  hw_Header :: props
  hw_sent :: "(int \<times> props) option"
  hw_body :: string

definition new_writer :: http_writer where
  "new_writer = \<lparr>hw_Header = fmempty, hw_sent = None, hw_body = []\<rparr>"

text \<open>
  \<open>Header.Set\<close> stores under the canonical form of the name: a capital after the start and after every
  hyphen, small letters elsewhere; a name with a byte that no header name has is left alone.
\<close>

definition to_upper_char :: "char \<Rightarrow> char" where
  "to_upper_char c = (if between 97 c 122 then char_of (of_char c - 32 :: nat) else c)"

fun capitalize :: "bool \<Rightarrow> string \<Rightarrow> string" where
  "capitalize upper [] = []"
| "capitalize upper (c # s) =
     (if upper then to_upper_char c else to_lower_char c) # capitalize (c = CHR ''-'') s"

definition header_byte :: "char \<Rightarrow> bool" where
  "header_byte c \<longleftrightarrow> between 48 c 57 \<or> between 65 c 90 \<or> between 94 c 122 \<or> between 35 c 39 \<or>
     c \<in> set ''!*+-.|~''"

definition CanonicalHeaderKey :: "string \<Rightarrow> string" where
  "CanonicalHeaderKey k = (if list_all header_byte k then capitalize True k else k)"

definition SetHeader :: "string \<Rightarrow> string \<Rightarrow> http_writer \<Rightarrow> http_writer" where
  "SetHeader k v w = w\<lparr>hw_Header := fmupd (CanonicalHeaderKey k) v (hw_Header w)\<rparr>"

definition WriteHeader :: "int \<Rightarrow> http_writer \<Rightarrow> http_writer" where
  "WriteHeader status w = (if hw_sent w = None then w\<lparr>hw_sent := Some (status, hw_Header w)\<rparr> else w)"

definition Write_body :: "string \<Rightarrow> http_writer \<Rightarrow> http_writer" where
  "Write_body s w = (let w = WriteHeader 200 w in w\<lparr>hw_body := hw_body w @ s\<rparr>)"

definition encode_json :: "json \<Rightarrow> string" where
  "encode_json j = json_text j @ newline"

definition writeJSON :: "int \<Rightarrow> json \<Rightarrow> http_writer \<Rightarrow> http_writer" where
  "writeJSON status v w =
     Write_body (encode_json v) (WriteHeader status (SetHeader ''Content-Type'' ''application/json'' w))"

subsection \<open>Errors\<close>

record errorObject =
  eo_Type :: string
  eo_Code :: string
  eo_Message :: string
  eo_RequestID :: string
  eo_Missing :: "string list"
  eo_Details :: "(string \<times> any) list"

definition json_error :: "errorObject \<Rightarrow> json" where
  "json_error o' = JObj [(''error'', JObj
     ([(''type'', JStr (eo_Type o')), (''code'', JStr (eo_Code o')), (''message'', JStr (eo_Message o'))]
      @ omit_if (eo_RequestID o' = []) ''request_id'' (JStr (eo_RequestID o'))
      @ omit_if (eo_Missing o' = []) ''missing_capabilities'' (JArr (map JStr (eo_Missing o')))
      @ omit_if (eo_Details o' = []) ''details'' (json_of_any (AMap (eo_Details o')))))]"

definition capsToStrings :: "CapabilityType list \<Rightarrow> string list" where
  "capsToStrings caps = caps"

text \<open>The status and the body of an error, by its dynamic type.\<close>

definition error_object :: "string \<Rightarrow> goerr \<Rightarrow> int \<times> errorObject" where
  "error_object requestID err =
     (let obj = \<lparr>eo_Type = ''gateway_error'', eo_Code = ''internal_error'', eo_Message = err_text err,
            eo_RequestID = requestID, eo_Missing = [], eo_Details = []\<rparr>
      in case err of
           EMissing ms \<Rightarrow> (503, obj\<lparr>eo_Type := ''gateway_configuration_error'',
             eo_Code := ''missing_required_capabilities'', eo_Message := missing_message ms,
             eo_Missing := capsToStrings ms\<rparr>)
         | EGateway e \<Rightarrow> (if ge_Status e = 0 then 500 else ge_Status e,
             obj\<lparr>eo_Type := ge_Type e, eo_Code := ge_Code e, eo_Message := ge_Message e,
               eo_Details := ge_Details e\<rparr>)
         | _ \<Rightarrow> (500, obj))"

definition writeError :: "string \<Rightarrow> goerr \<Rightarrow> http_writer \<Rightarrow> http_writer" where
  "writeError requestID err w =
     (case error_object requestID err of (status, obj) \<Rightarrow>
        Write_body (encode_json (json_error obj))
          (WriteHeader status (SetHeader ''Content-Type'' ''application/json'' w)))"

subsection \<open>Requests\<close>

record http_request =
  rh_Header :: "(string \<times> string list) list"
  rh_RemoteAddr :: string
  rh_Body :: string

definition requestHeaders :: "http_request \<Rightarrow> (string \<times> string) list" where
  "requestHeaders r = map (\<lambda>(k, vs). (k, Join vs '','')) (rh_Header r)"

text \<open>\<open>net.SplitHostPort\<close>; \<open>None\<close> is its error.\<close>

definition last_colon :: "string \<Rightarrow> nat option" where
  "last_colon s = (if CHR '':'' \<in> set s
     then Some (length s - 1 - length (takeWhile (\<lambda>c. c \<noteq> CHR '':'') (rev s))) else None)"

definition SplitHostPort :: "string \<Rightarrow> (string \<times> string) option" where
  "SplitHostPort hp =
     (case last_colon hp of
        None \<Rightarrow> None
      | Some i \<Rightarrow>
          let port = drop (i + 1) hp
          in if take 1 hp = ''['' then
               let close = length (takeWhile (\<lambda>c. c \<noteq> CHR '']'') hp)
               in if close = length hp \<or> close + 1 \<noteq> i \<or> CHR ''['' \<in> set (drop 1 hp)
                     \<or> CHR '']'' \<in> set (drop (close + 1) hp)
                  then None
                  else Some (drop 1 (take close hp), port)
             else
               let host = take i hp
               in if CHR '':'' \<in> set host \<or> CHR ''['' \<in> set hp \<or> CHR '']'' \<in> set hp then None
                  else Some (host, port))"

definition sourceIP :: "http_request \<Rightarrow> string" where
  "sourceIP r = (case SplitHostPort (rh_RemoteAddr r) of Some (host, _) \<Rightarrow> host | None \<Rightarrow> rh_RemoteAddr r)"

subsection \<open>Handlers\<close>

definition healthz :: "http_writer \<Rightarrow> http_writer" where
  "healthz = writeJSON 200 (JObj [(''status'', JStr ''ok'')])"

text \<open>\<open>map[string]any\<close> is written with its keys sorted.\<close>

definition readyz :: "'w Pipeline \<Rightarrow> http_writer \<Rightarrow> http_writer" where
  "readyz p w =
     (if \<not> Ready p
      then writeJSON 503 (JObj [(''missing_capabilities'', JArr (map JStr (capsToStrings (MissingCapabilities p)))),
             (''status'', JStr ''not_ready'')]) w
      else writeJSON 200 (JObj [(''status'', JStr ''ready'')]) w)"

definition json_model :: "ModelInfo \<Rightarrow> json" where
  "json_model m = JObj
     ([(''id'', JStr (mi_ID m))]
      @ omit_if (mi_Object m = []) ''object'' (JStr (mi_Object m))
      @ omit_if (mi_OwnedBy m = []) ''owned_by'' (JStr (mi_OwnedBy m))
      @ omit_if (mi_ProviderInstance m = []) ''provider_instance'' (JStr (mi_ProviderInstance m))
      @ omit_if (mi_ProviderModel m = []) ''provider_model'' (JStr (mi_ProviderModel m))
      @ omit_if (mi_ContextWindow m = 0) ''context_window'' (JNum (show_int (mi_ContextWindow m)))
      @ omit_if (\<not> mi_SupportsStreaming m) ''supports_streaming'' (JBool (mi_SupportsStreaming m))
      @ omit_if (\<not> mi_SupportsTools m) ''supports_tools'' (JBool (mi_SupportsTools m))
      @ omit_if (\<not> mi_SupportsJSONMode m) ''supports_json_mode'' (JBool (mi_SupportsJSONMode m))
      @ omit_if (\<not> mi_SupportsVision m) ''supports_vision'' (JBool (mi_SupportsVision m))
      @ omit_if (mi_Region m = []) ''region'' (JStr (mi_Region m))
      @ [(''healthy'', JBool (mi_Healthy m))]
      @ omit_if (mi_Properties m = fmempty) ''properties'' (json_of_strings (mi_Properties m)))"

text \<open>
  \<open>Pipeline.ListModels\<close>: the configured models, then those of every upstream that answers.
  \<open>keys\<close> and \<open>ups\<close> are the orders in which Go iterates over the two maps.
\<close>

fun upstream_models :: "'w UpstreamProvider list \<Rightarrow> 'w \<Rightarrow> ModelInfo list \<times> 'w" where
  "upstream_models [] w = ([], w)"
| "upstream_models (up # ups) w =
     (case ListModels up () w of (r, w) \<Rightarrow>
        (case upstream_models ups w of (rest, w) \<Rightarrow>
           ((case r of Inl _ \<Rightarrow> rest | Inr ms \<Rightarrow> ms @ rest), w)))"

definition ListModels_pipeline ::
  "string list \<Rightarrow> 'w UpstreamProvider list \<Rightarrow> 'w \<Rightarrow> ModelInfo list \<times> 'w" where
  "ListModels_pipeline keys ups w =
     (case upstream_models ups w of (ms, w) \<Rightarrow> (List_models keys @ ms, w))"

definition models_handler ::
  "string list \<Rightarrow> 'w UpstreamProvider list \<Rightarrow> 'w \<Rightarrow> http_writer \<Rightarrow> http_writer \<times> 'w" where
  "models_handler keys ups s w =
     (case ListModels_pipeline keys ups s of (ms, s) \<Rightarrow>
        (writeJSON 200 (JObj [(''data'', JArr (map json_model ms)), (''object'', JStr ''list'')]) w, s))"

text \<open>
  How a chat request ends: a complete response, a stream that is written from here on, or a panic
  that \<open>net/http\<close> recovers from by closing the connection.
\<close>

datatype chat_outcome =
    Responded http_writer
  | Streams http_writer stream_task
  | Aborted string

fun set_headers :: "(string \<times> string) list \<Rightarrow> http_writer \<Rightarrow> http_writer" where
  "set_headers [] w = w"
| "set_headers ((k, v) # hs) w = set_headers hs (SetHeader k v w)"

definition invalid_request :: "goerr \<Rightarrow> goerr" where
  "invalid_request err = EGateway \<lparr>ge_Type = ''invalid_request_error'', ge_Code = ''invalid_request'',
     ge_Message = err_text err, ge_Status = 400, ge_Details = []\<rparr>"

definition stream_headers :: "http_writer \<Rightarrow> http_writer" where
  "stream_headers w = SetHeader ''Cache-Control'' ''no-cache'' (SetHeader ''Content-Type'' ''text/event-stream'' w)"

text \<open>A nil channel would block the handler for ever; a successful streaming request has one.\<close>

definition write_stream_of :: "stream_task option \<Rightarrow> http_writer \<Rightarrow> chat_outcome" where
  "write_stream_of st w =
     (case st of None \<Rightarrow> Aborted ''receive from a nil channel'' | Some task \<Rightarrow> Streams (stream_headers w) task)"

definition answer_chat :: "ChatCompletionRequest \<Rightarrow> halt + unit \<Rightarrow> Result \<Rightarrow> chat_outcome" where
  "answer_chat req r res =
     (let w = set_headers (sorted_list_of_fmap (re_Headers res)) new_writer
      in case r of
           Inl (Failed err) \<Rightarrow> Responded (writeError (re_RequestID res) err w)
         | Inl (Panicked msg) \<Rightarrow> Aborted msg
         | Inr _ \<Rightarrow>
             if rq_Stream req then write_stream_of (re_Stream res) w
             else Responded (writeJSON 200 (json_response (re_Response res)) w))"

definition chat ::
  "'w Pipeline \<Rightarrow> 'w env \<Rightarrow> (string \<Rightarrow> goerr + (string \<times> any) list) \<Rightarrow> http_request
     \<Rightarrow> 'w xstate \<Rightarrow> chat_outcome \<times> 'w xstate" where
  "chat p e decode r s =
     (case decodeChatRequest decode (rh_Body r) of
        Inl err \<Rightarrow> (Responded (writeError [] (invalid_request err) new_writer), s)
      | Inr req \<Rightarrow>
          (case run_state (ExecuteChat p e req (requestHeaders r) (sourceIP r)) s of
             (res, t) \<Rightarrow> (answer_chat req res (x_result t), t)))"

subsection \<open>Dispatch\<close>

datatype endpoint =
    Healthz
  | Readyz
  | Models
  | Chat
  | NotFound
  | MethodNotAllowed

text \<open>\<open>http.ServeMux\<close> on a clean path: a \<open>GET\<close> pattern also matches \<open>HEAD\<close>.\<close>

definition Handler :: "string \<Rightarrow> string \<Rightarrow> endpoint" where
  "Handler verb path =
     (if path \<in> {''/healthz'', ''/readyz'', ''/v1/models''} then
        (if verb = ''GET'' \<or> verb = ''HEAD''
         then (if path = ''/healthz'' then Healthz else if path = ''/readyz'' then Readyz else Models)
         else MethodNotAllowed)
      else if path = ''/v1/chat/completions'' then (if verb = ''POST'' then Chat else MethodNotAllowed)
      else NotFound)"

end
