(* ===== verification/HttpProps.thy ===== *)
theory HttpProps
  imports HttpApi ExecuteErrors
begin

text \<open>
  What a client of the HTTP interface receives: which responses there are, which headers they carry
  and which status a refused request has. The handler is composed with \<open>ExecuteChat\<close>, so these are
  statements about a request from its bytes to the response.
\<close>

subsection \<open>The headers of the result\<close>

definition header_names :: "string list" where
  "header_names = [''X-Gateway-Request-Id'', ''X-Gateway-Cache'', ''X-Gateway-Route-Provider'',
     ''X-Gateway-Route-Model'', ''X-Gateway-Fallback-Index'', ''X-Gateway-RateLimit-Limit'',
     ''X-Gateway-RateLimit-Remaining'', ''X-Gateway-RateLimit-Reset'']"

definition gateway_headers :: "string fset" where
  "gateway_headers = fset_of_list header_names"

lemma in_gateway_headers [simp]: "k |\<in>| gateway_headers \<longleftrightarrow> k \<in> set header_names"
  by (simp add: gateway_headers_def fset_of_list_elem)

text \<open>No step removes a header, adds an unknown one, or touches the request identifier.\<close>

definition keeps_headers :: "'w xstate \<Rightarrow> 'w xstate \<Rightarrow> bool" where
  "keeps_headers s t \<longleftrightarrow>
     (let old = re_Headers (x_result s); new = re_Headers (x_result t)
      in re_RequestID (x_result t) = re_RequestID (x_result s) \<and>
         fmlookup new ''X-Gateway-Request-Id'' = fmlookup old ''X-Gateway-Request-Id'' \<and>
         fmdom new |\<subseteq>| fmdom old |\<union>| gateway_headers)"

interpretation headers: step_relation keeps_headers
  by unfold_locales (auto simp: keeps_headers_def Let_def)

named_theorems headed \<open>the parts of a request, as steps that keep the headers\<close>

lemmas [headed] = headers.keeps

lemma headed_quiet [headed]:
  "state_io_rel keeps_headers (new_uuid e)" "state_io_rel keeps_headers (now e)"
  "state_io_rel keeps_headers (new_map m)" "state_io_rel keeps_headers (read_map r)"
  "state_io_rel keeps_headers (write_map r f)" "state_io_rel keeps_headers (enqueue ev)"
  "state_io_rel keeps_headers (call mk g a)"
  by (auto simp: state_io_rel_def keeps_headers_def new_uuid_def now_def new_map_def read_map_def
      write_map_def enqueue_def call_def split: prod.splits option.splits)

lemma headed_set_header [headed]:
  "k |\<in>| gateway_headers \<Longrightarrow> k \<noteq> ''X-Gateway-Request-Id'' \<Longrightarrow> state_io_rel keeps_headers (set_header k v)"
  unfolding set_header_def by (rule headers.keeps_modify) (auto simp: keeps_headers_def)

lemma headed_update_result [headed]:
  "(\<And>r. re_RequestID (f r) = re_RequestID r) \<Longrightarrow> (\<And>r. re_Headers (f r) = re_Headers r) \<Longrightarrow>
     state_io_rel keeps_headers (update_result f)"
  unfolding update_result_def by (rule headers.keeps_modify) (simp add: keeps_headers_def)

lemma headed_parts [headed]:
  "state_io_rel keeps_headers (fail err)" "state_io_rel keeps_headers nil_dereference"
  "state_io_rel keeps_headers (emit e name rid ten ref us)"
  "state_io_rel keeps_headers (emitError e name rid ten ref err)"
  "state_io_rel keeps_headers (summary_value sm)" "state_io_rel keeps_headers (rate_limit_headers st)"
  "state_io_rel keeps_headers (route_props e ref r i started)"
  "state_io_rel keeps_headers (timed_props e ref started)"
  "state_io_rel keeps_headers (transcript_props p ref req resp)"
  "state_io_rel keeps_headers (announce_route r i)"
  "state_io_rel keeps_headers (collectResponse e chunks model)"
  "state_io_rel keeps_headers (store_in_cache p e ctx ident req ref resp usage)"
  "state_io_rel keeps_headers (commit_usage p ctx ident usage)"
  "state_io_rel keeps_headers (element xs n)"
  unfolding element_def fail_def nil_dereference_def emit_def emitError_def summary_value_def rate_limit_headers_def
    route_props_def timed_props_def transcript_props_def announce_route_def collectResponse_def
    store_in_cache_def commit_usage_def Let_def
  by (intro headed; simp add: header_names_def)+

lemma headed_stages [headed]:
  "state_io_rel keeps_headers (authenticate p ctx headers ip)"
  "state_io_rel keeps_headers (authorize p ctx ident summary)"
  "state_io_rel keeps_headers (resolve_prompt p ctx ident ref req)"
  "state_io_rel keeps_headers (cache_lookup p e ctx ident ref rid req)"
  "state_io_rel keeps_headers (check_rate_limit p ctx ident ref est req)"
  "state_io_rel keeps_headers (choose_routes p ctx ident summary req)"
  unfolding authenticate_def authorize_def resolve_prompt_def cache_lookup_def check_rate_limit_def
    choose_routes_def
  by (intro headed; simp add: header_names_def)+

lemma headed_observers [headed]:
  "state_io_rel keeps_headers (blocking_observers e obs rid ident ref usage)"
  by (induction obs) (unfold blocking_observers.simps, (intro headed; assumption)+)

lemma headed_after [headed]:
  "state_io_rel keeps_headers (afterSuccess p e ctx ident req ref rid resp usage)"
  "state_io_rel keeps_headers next_try \<Longrightarrow>
     state_io_rel keeps_headers (upstream_failed e rid ident ref err next_try)"
  unfolding afterSuccess_def upstream_failed_def by (intro headed; assumption)+

lemma headed_nonstream_loop [headed]:
  "state_io_rel keeps_headers (nonstream_loop p e req ctx ident ref rid started rs i lastErr)"
proof (induction rs arbitrary: i lastErr)
  case (Cons r rs)
  show ?case unfolding nonstream_loop.simps by (intro headed Cons.IH; simp)
qed (simp add: headed)

lemma headed_stream_loop [headed]:
  "state_io_rel keeps_headers (stream_loop p e req ctx ident ref rid started rs i lastErr)"
proof (induction rs arbitrary: i lastErr)
  case (Cons r rs)
  show ?case unfolding stream_loop.simps by (intro headed Cons.IH; simp)
qed (simp add: headed)

lemma headed_finish_loop [headed]:
  "state_io_rel keeps_headers (finish_loop p e req ident ref rid started r)"
  by (cases r) (simp_all add: finish_loop_def headed)

lemma headed_admit [headed]:
  "state_io_rel keeps_headers (admit_and_execute p e req ctx ident ref summary rid started)"
  unfolding admit_and_execute_def route_and_execute_def executeStream_eq executeNonStream_eq
  by (intro headed)

definition good_headers :: "Result \<Rightarrow> bool" where
  "good_headers res \<longleftrightarrow> fmlookup (re_Headers res) ''X-Gateway-Request-Id'' = Some (re_RequestID res) \<and>
     fmdom (re_Headers res) |\<subseteq>| gateway_headers"

lemma good_kept: "good_headers (x_result s) \<Longrightarrow> keeps_headers s t \<Longrightarrow> good_headers (x_result t)"
  by (auto simp: good_headers_def keeps_headers_def Let_def)

lemma wp_headed: "state_io_rel keeps_headers m \<Longrightarrow> good_headers (x_result s) \<Longrightarrow>
    wp m (\<lambda>_ t. good_headers (x_result t)) s"
  by (intro wpI) (auto dest: headers.keeps_run good_kept)

lemma result_headers:
  assumes "run_state (ExecuteChat p e req headers ip) s = (r, t)"
  shows "good_headers (x_result t)"
proof -
  have good: "good_headers (initial_result rid)" for rid
    by (auto simp: good_headers_def initial_result_def header_names_def gateway_headers_def)
  have "wp (ExecuteChat p e req headers ip) (\<lambda>_ t. good_headers (x_result t)) s"
    unfolding ExecuteChat_def Let_def
  proof (rule wp_bind, rule wpI, rule wp_bind, rule wpI, rule wp_headed)
    fix rid u1 a u2
    assume "run_state (update_result (\<lambda>_. initial_result rid)) u1 = (a, u2)"
    then show "good_headers (x_result u2)" by (auto simp: update_result_def good)
  qed (intro headed)
  from wpD [OF this assms] show ?thesis .
qed

subsection \<open>What the writer sends\<close>

definition carries :: "Result \<Rightarrow> props \<Rightarrow> bool" where
  "carries res hs \<longleftrightarrow>
     (\<forall>k v. fmlookup (re_Headers res) k = Some v \<longrightarrow> fmlookup hs (CanonicalHeaderKey k) = Some v)"

lemma set_headers_other:
  "k \<notin> CanonicalHeaderKey ` fst ` set kvs \<Longrightarrow>
     fmlookup (hw_Header (set_headers kvs w)) k = fmlookup (hw_Header w) k"
  by (induction kvs w rule: set_headers.induct) (auto simp: SetHeader_def)

lemma set_headers_lookup:
  "inj_on CanonicalHeaderKey (fst ` set kvs) \<Longrightarrow> distinct (map fst kvs) \<Longrightarrow> (k, v) \<in> set kvs \<Longrightarrow>
     fmlookup (hw_Header (set_headers kvs w)) (CanonicalHeaderKey k) = Some v"
proof (induction kvs w rule: set_headers.induct)
  case (2 k' v' kvs w)
  show ?case
  proof (cases "(k, v) = (k', v')")
    case True
    with 2(2,3) have "CanonicalHeaderKey k \<notin> CanonicalHeaderKey ` fst ` set kvs"
      by (fastforce simp: inj_on_def)
    with True show ?thesis by (simp add: set_headers_other SetHeader_def)
  next
    case False
    with 2 show ?thesis by (auto simp: inj_on_def)
  qed
qed simp

lemma set_headers_unsent [simp]:
  "hw_sent (set_headers kvs w) = hw_sent w" "hw_body (set_headers kvs w) = hw_body w"
  by (induction kvs w rule: set_headers.induct) (simp_all add: SetHeader_def)

lemma canonical_inj: "inj_on CanonicalHeaderKey (set header_names)"
proof -
  have "distinct (map CanonicalHeaderKey header_names)" by code_simp
  then show ?thesis by (simp add: distinct_map)
qed

lemma canonical_other:
  assumes "k \<in> set header_names"
  shows "CanonicalHeaderKey k \<noteq> ''Content-Type'' \<and> CanonicalHeaderKey k \<noteq> ''Cache-Control''"
proof -
  have "list_all (\<lambda>k. CanonicalHeaderKey k \<noteq> ''Content-Type'' \<and> CanonicalHeaderKey k \<noteq> ''Cache-Control'') header_names"
    by code_simp
  with assms show ?thesis by (simp add: list_all_iff)
qed

abbreviation headed_writer :: "Result \<Rightarrow> http_writer" where
  "headed_writer res \<equiv> set_headers (sorted_list_of_fmap (re_Headers res)) new_writer"

lemma headed_writer_carries:
  assumes "good_headers res"
  shows "carries res (hw_Header (headed_writer res))"
  unfolding carries_def
proof (intro allI impI, rule set_headers_lookup)
  have "fst ` set (sorted_list_of_fmap (re_Headers res)) = fset (fmdom (re_Headers res))"
    by (simp add: sorted_list_of_fmap_def image_image)
  moreover have "fset (fmdom (re_Headers res)) \<subseteq> set header_names"
    using assms by (auto simp: good_headers_def)
  ultimately show "inj_on CanonicalHeaderKey (fst ` set (sorted_list_of_fmap (re_Headers res)))"
    using canonical_inj by (metis inj_on_subset)
  show "distinct (map fst (sorted_list_of_fmap (re_Headers res)))"
    by (simp add: sorted_list_of_fmap_def comp_def sorted_list_of_fset.rep_eq)
next
  fix k v
  assume "fmlookup (re_Headers res) k = Some v"
  then show "(k, v) \<in> set (sorted_list_of_fmap (re_Headers res))"
    by (force simp: sorted_list_of_fmap_def fmlookup_dom_iff)
qed

lemma carries_upd:
  assumes "good_headers res" and "carries res hs" and "k = ''Content-Type'' \<or> k = ''Cache-Control''"
  shows "carries res (fmupd k v hs)"
proof -
  have "k' \<in> set header_names" if "fmlookup (re_Headers res) k' = Some v'" for k' v'
    using assms(1) that by (auto simp: good_headers_def dest: fmdomI)
  then show ?thesis using assms(2,3) canonical_other by (auto simp: carries_def)
qed

lemma canonical_names [simp]:
  "CanonicalHeaderKey ''Content-Type'' = ''Content-Type''"
  "CanonicalHeaderKey ''Cache-Control'' = ''Cache-Control''"
  by (simp_all add: CanonicalHeaderKey_def header_byte_def between_def to_upper_char_def to_lower_char_def)

text \<open>A complete JSON response with the headers of a result.\<close>

definition sends :: "Result \<Rightarrow> int \<Rightarrow> json \<Rightarrow> chat_outcome \<Rightarrow> bool" where
  "sends res status body out \<longleftrightarrow>
     (\<exists>w hs. out = Responded w \<and> hw_sent w = Some (status, hs) \<and> hw_body w = encode_json body \<and>
        carries res hs \<and> fmlookup hs ''Content-Type'' = Some ''application/json'')"

lemma sends_json:
  assumes "good_headers res"
  shows "sends res status body (Responded (Write_body (encode_json body)
     (WriteHeader status (SetHeader ''Content-Type'' ''application/json'' (headed_writer res)))))"
  using carries_upd [OF assms headed_writer_carries [OF assms]]
  by (simp add: sends_def SetHeader_def WriteHeader_def Write_body_def new_writer_def Let_def)

lemma answer_chat_simps:
  assumes "good_headers res"
  shows "sends res (fst (error_object (re_RequestID res) err)) (json_error (snd (error_object (re_RequestID res) err)))
       (answer_chat req (Inl (Failed err)) res)"
    and "\<not> rq_Stream req \<Longrightarrow> sends res 200 (json_response (re_Response res)) (answer_chat req (Inr ()) res)"
  using sends_json [OF assms]
  by (auto simp: answer_chat_def Let_def writeError_def writeJSON_def split: prod.splits)

lemma chat_run:
  assumes "chat p e decode r s = (out, t)" and "decodeChatRequest decode (rh_Body r) = Inr req"
  obtains res where "run_state (ExecuteChat p e req (requestHeaders r) (sourceIP r)) s = (res, t)"
    and "out = answer_chat req res (x_result t)" and "good_headers (x_result t)"
  using assms result_headers by (fastforce simp: chat_def split: prod.splits)

subsection \<open>Properties\<close>

text \<open>
  C6: What a client that posts a chat request receives. A body that is not a request is answered
  400 with the reason, and nothing happens. Otherwise the handler never aborts, and every response
  carries the headers of the result, the request identifier among them. A pipeline that is not ready
  answers 503 with the missing capabilities. A ready one runs the request and answers by its
  outcome: 200 with the response collected or found in the cache, or the stream of the upstream
  invoked last with no byte sent yet, or the error the request returned, whatever it is. A gateway
  error has its own status (500 when that is 0), type, code, message and details; missing
  capabilities have 503 and their list; every other error is an internal error, 500, with its text.
\<close>

theorem chat_response:
  assumes "compile cfg reg mr = Inr p" and "queue_inv (x_queue s)" and "chat p e decode r s = (out, t)"
  shows "case decodeChatRequest decode (rh_Body r) of
       Inl err \<Rightarrow> t = s \<and> (\<exists>w hs. out = Responded w \<and> hw_sent w = Some (400, hs) \<and>
         hw_body w = encode_json (json_error \<lparr>eo_Type = ''invalid_request_error'', eo_Code = ''invalid_request'',
           eo_Message = err_text err, eo_RequestID = [], eo_Missing = [], eo_Details = []\<rparr>))
     | Inr req \<Rightarrow>
         let res = x_result t
         in fmlookup (re_Headers res) ''X-Gateway-Request-Id'' = Some (re_RequestID res) \<and>
            (if \<not> Ready p then x_trace t = x_trace s \<and>
               sends res 503 (json_error \<lparr>eo_Type = ''gateway_configuration_error'',
                 eo_Code = ''missing_required_capabilities'', eo_Message = missing_message (missing_caps cfg reg),
                 eo_RequestID = re_RequestID res, eo_Missing = missing_caps cfg reg, eo_Details = []\<rparr>) out
             else \<exists>ended. run_state (ExecuteChat p e req (requestHeaders r) (sourceIP r)) s = (ended, t) \<and>
               (case ended of
                  Inr u \<Rightarrow>
                    if rq_Stream req
                    then \<exists>w task. out = Streams w task \<and> hw_sent w = None \<and> carries res (hw_Header w) \<and>
                      re_Stream res = Some task \<and> stream_answer t
                    else sends res 200 (json_response (re_Response res)) out \<and>
                      (collected_answer req t \<or> cached_answer t)
                | Inl (Panicked msg) \<Rightarrow> False
                | Inl (Failed (EGateway ge)) \<Rightarrow>
                    sends res (if ge_Status ge = 0 then 500 else ge_Status ge)
                      (json_error \<lparr>eo_Type = ge_Type ge, eo_Code = ge_Code ge, eo_Message = ge_Message ge,
                        eo_RequestID = re_RequestID res, eo_Missing = [], eo_Details = ge_Details ge\<rparr>) out
                | Inl (Failed (EMissing ms)) \<Rightarrow>
                    sends res 503
                      (json_error \<lparr>eo_Type = ''gateway_configuration_error'',
                        eo_Code = ''missing_required_capabilities'', eo_Message = missing_message ms,
                        eo_RequestID = re_RequestID res, eo_Missing = ms, eo_Details = []\<rparr>) out
                | Inl (Failed err) \<Rightarrow>
                    sends res 500
                      (json_error \<lparr>eo_Type = ''gateway_error'', eo_Code = ''internal_error'',
                        eo_Message = err_text err, eo_RequestID = re_RequestID res, eo_Missing = [],
                        eo_Details = []\<rparr>) out))"
proof (cases "decodeChatRequest decode (rh_Body r)")
  case (Inl err)
  with assms(3) show ?thesis
    by (auto simp: chat_def writeError_def error_object_def invalid_request_def Write_body_def WriteHeader_def
        SetHeader_def new_writer_def Let_def)
next
  case (Inr req)
  from chat_run [OF assms(3) Inr] obtain res where
    run: "run_state (ExecuteChat p e req (requestHeaders r) (sourceIP r)) s = (res, t)"
    and out: "out = answer_chat req res (x_result t)" and good: "good_headers (x_result t)" .
  have rid: "fmlookup (re_Headers (x_result t)) ''X-Gateway-Request-Id'' = Some (re_RequestID (x_result t))"
    using good by (simp add: good_headers_def)
  show ?thesis
  proof (cases "Ready p")
    case False
    then have "\<not> pp_ready p" by (simp add: Ready_def)
    from wpD [OF run_not_ready [OF this] run] assms(1)
    have "res = Inl (Failed (EMissing (missing_caps cfg reg)))" "x_trace t = x_trace s"
      by (auto simp: compile_Inr_iff compiled_def Let_def)
    then show ?thesis
      using answer_chat_simps(1) [OF good, of "EMissing (missing_caps cfg reg)" req] rid False
      by (simp add: Inr out error_object_def capsToStrings_def Let_def)
  next
    case True
    have "(\<exists>err. res = Inl (Failed err)) \<or> res = Inr ()"
      by (rule run_accepted [OF assms(1) True assms(2) run]) (auto split: sum.splits)
    then consider err where "res = Inl (Failed err)" | "res = Inr ()" by blast
    then show ?thesis
    proof cases
      case (1 err)
      then show ?thesis using answer_chat_simps(1) [OF good, of err req] rid True run
        by (cases err) (simp_all add: Inr out error_object_def capsToStrings_def Let_def)
    next
      case 2
      with returnsD [OF returns_ExecuteChat TrueI run [unfolded 2]] have ok: "ok_answer req t" by simp
      show ?thesis
      proof (cases "rq_Stream req")
        case False
        then show ?thesis using answer_chat_simps(2) [OF good False] rid True ok run
          by (simp add: Inr out 2 ok_answer_def Let_def)
      next
        case stream: True
        then obtain task where "re_Stream (x_result t) = Some task" "stream_answer t"
          using ok by (auto simp: ok_answer_def stream_answer_def)
        then show ?thesis using stream rid True run
          using carries_upd [OF good carries_upd [OF good headed_writer_carries [OF good]]]
          by (simp add: Inr out 2 answer_chat_def write_stream_of_def stream_headers_def SetHeader_def
              new_writer_def Let_def)
      qed
    qed
  qed
qed

definition refusal_http :: "action \<Rightarrow> int" where
  "refusal_http a =
     (case a of
        ACallAuthn rq ans \<Rightarrow> 401
      | ACallAuthz rq ans \<Rightarrow> (case ans of Inl err \<Rightarrow> fst (error_object [] err) | Inr _ \<Rightarrow> 403)
      | ACallPrompt rq ans \<Rightarrow> (case ans of Inl err \<Rightarrow> fst (error_object [] err) | Inr _ \<Rightarrow> 500)
      | ACallCheck rq ans \<Rightarrow> (case ans of Inl err \<Rightarrow> fst (error_object [] err) | Inr _ \<Rightarrow> 429)
      | ACallRoute rq ans \<Rightarrow> (case ans of Inl err \<Rightarrow> fst (error_object [] err) | Inr _ \<Rightarrow> 503)
      | _ \<Rightarrow> 500)"

lemma refusal_http_status: "fst (error_object rid (refusal_error a)) = refusal_http a"
proof -
  have "fst (error_object rid err) = fst (error_object [] err)" for err
    by (simp add: error_object_def Let_def split: goerr.splits)
  then show ?thesis
    by (auto simp: refusal_http_def refusal_error_def error_object_def gateway_error_def rate_limit_error_def
        split: action.splits sum.splits)
qed

text \<open>
  C15: A request whose last action is a refusal is answered with the status of that refusal: 401 by
  the authenticator, 403 by the authorizer, 429 by the rate limiter, 503 when there is no route, 500
  by an observer, and by its type when a plugin fails with an error of its own. The body names the
  error and the request, and the response carries the headers of the result.
\<close>

theorem refused_chat_status:
  assumes "chat p e decode r s = (out, t)" and "decodeChatRequest decode (rh_Body r) = Inr req"
    and "x_trace t = x_trace s @ before @ [a]" and "refuses a"
  shows "sends (x_result t) (refusal_http a)
     (json_error (snd (error_object (re_RequestID (x_result t)) (refusal_error a)))) out"
proof -
  from chat_run [OF assms(1,2)] obtain res where
    run: "run_state (ExecuteChat p e req (requestHeaders r) (sourceIP r)) s = (res, t)"
    and out: "out = answer_chat req res (x_result t)" and good: "good_headers (x_result t)" .
  have "wp (ExecuteChat p e req (requestHeaders r) (sourceIP r))
      (\<lambda>r t. \<exists>acts. x_trace t = x_trace s @ acts \<and> explained acts r) s"
    using explains_ExecuteChat [of p e req "requestHeaders r" "sourceIP r"] by (simp add: explains_def)
  from wpD [OF this run] assms(3,4) have "res = Inl (Failed (refusal_error a))"
    by (auto simp: explained_def)
  with answer_chat_simps(1) [OF good, of "refusal_error a" req] out
  show ?thesis by (simp add: refusal_http_status)
qed

end
