(* ===== verification/Paths.thy ===== *)
theory Paths
  imports GoStrings
begin

text \<open>
  The lexical path functions of Go's \<open>path/filepath\<close> on Unix that the plugin sources call:
  \<open>IsAbs\<close>, \<open>Clean\<close>, \<open>Join\<close>, \<open>Dir\<close> and \<open>Rel\<close>. They are stated over the components of a path,
  the pieces between slashes.
\<close>

abbreviation slash :: char where
  "slash \<equiv> CHR ''/''"

subsection \<open>Splitting\<close>

fun Split :: "string \<Rightarrow> string list" where
  "Split [] = [[]]"
| "Split (c # s) = (if c = slash then [] # Split s else (c # hd (Split s)) # tl (Split s))"

lemma Split_nonempty [simp]: "Split s \<noteq> []"
  by (cases s) auto

lemma Split_append: "Split (s @ slash # t) = Split s @ Split t"
  by (induction s) auto

lemma Split_no_slash: "c \<in> set (Split s) \<Longrightarrow> slash \<notin> set c"
proof (induction s arbitrary: c)
  case (Cons a s)
  then show ?case by (cases "Split s") (auto split: if_splits)
qed simp

lemma Split_single: "slash \<notin> set s \<Longrightarrow> Split s = [s]"
  by (induction s) auto

lemma Split_Join: "cs \<noteq> [] \<Longrightarrow> (\<And>c. c \<in> set cs \<Longrightarrow> slash \<notin> set c) \<Longrightarrow> Split (Join cs ''/'') = cs"
  by (induction cs "''/''" rule: Join.induct) (simp_all add: Split_single Split_append)

subsection \<open>Cleaning\<close>

text \<open>
  The loop of \<open>Clean\<close> over the components, with the output so far in reverse. A \<open>..\<close> takes back
  the last component unless that is a \<open>..\<close> itself; at the root of a rooted path it is dropped.
\<close>

fun clean :: "bool \<Rightarrow> string list \<Rightarrow> string list \<Rightarrow> string list" where
  "clean rooted out [] = rev out"
| "clean rooted out (c # cs) =
     (if c = [] \<or> c = ''.'' then clean rooted out cs
      else if c = ''..'' then
        (case out of
           [] \<Rightarrow> clean rooted (if rooted then [] else [''..'']) cs
         | prev # rest \<Rightarrow> clean rooted (if prev = ''..'' then ''..'' # out else rest) cs)
      else clean rooted (c # out) cs)"

definition IsAbs :: "string \<Rightarrow> bool" where
  "IsAbs p = HasPrefix p ''/''"

definition comps :: "string \<Rightarrow> string list" where
  "comps p = clean (IsAbs p) [] (Split p)"

definition path_of :: "bool \<Rightarrow> string list \<Rightarrow> string" where
  "path_of rooted cs =
     (if rooted then slash # Join cs ''/'' else if cs = [] then ''.'' else Join cs ''/'')"

definition Clean :: "string \<Rightarrow> string" where
  "Clean p = path_of (IsAbs p) (comps p)"

definition Join_path :: "string list \<Rightarrow> string" where
  "Join_path es =
     (let es = dropWhile (\<lambda>e. e = []) es in if es = [] then [] else Clean (Join es ''/''))"

definition Dir :: "string \<Rightarrow> string" where
  "Dir p = Clean (rev (dropWhile (\<lambda>c. c \<noteq> slash) (rev p)))"

text \<open>\<open>Rel\<close> strips what the two cleaned paths share, and climbs out of what is left of the base.\<close>

fun strip_common :: "string list \<Rightarrow> string list \<Rightarrow> string list \<times> string list" where
  "strip_common (b # bs) (t # ts) = (if b = t then strip_common bs ts else (b # bs, t # ts))"
| "strip_common bs ts = (bs, ts)"

definition Rel :: "string \<Rightarrow> string \<Rightarrow> string option" where
  "Rel base targ =
     (if Clean targ = Clean base then Some ''.''
      else if IsAbs base \<noteq> IsAbs targ then None
      else let targ_comps = (if Clean targ = ''.'' then [''.''] else comps targ);
               (b, t) = strip_common (comps base) targ_comps
           in if b = [] then Some (Join t ''/'')
              else if hd b = ''..'' then None
              else Some (Join (map (\<lambda>_. ''..'') b @ t) ''/''))"

subsection \<open>Normal forms\<close>

definition proper :: "string \<Rightarrow> bool" where
  "proper c \<longleftrightarrow> c \<noteq> [] \<and> c \<noteq> ''.'' \<and> c \<noteq> ''..'' \<and> slash \<notin> set c"

text \<open>Normal components: some \<open>..\<close>, none when rooted, then proper names.\<close>

definition normal :: "bool \<Rightarrow> string list \<Rightarrow> bool" where
  "normal rooted cs \<longleftrightarrow> (\<exists>k ns. cs = replicate k ''..'' @ ns \<and> list_all proper ns \<and> (rooted \<longrightarrow> k = 0))"

lemma normal_Nil [simp]: "normal r []"
  by (auto simp: normal_def)

lemma normalI: "list_all proper ns \<Longrightarrow> (r \<Longrightarrow> k = 0) \<Longrightarrow> normal r (replicate k ''..'' @ ns)"
  unfolding normal_def by blast

lemma normal_dotdots: "\<not> r \<Longrightarrow> normal r (replicate k ''..'')"
  using normalI [of "[]" r k] by simp

lemma normal_snoc:
  assumes "normal r cs" and "proper c" shows "normal r (cs @ [c])"
proof -
  obtain k ns where "cs = replicate k ''..'' @ ns" "list_all proper ns" "r \<longrightarrow> k = 0"
    using assms(1) by (auto simp: normal_def)
  with assms(2) normalI [of "ns @ [c]" r k] show ?thesis by simp
qed

lemma normal_butlast:
  assumes "normal r (cs @ [c])" shows "normal r cs"
proof -
  obtain k ns where c: "cs @ [c] = replicate k ''..'' @ ns" "list_all proper ns" "r \<longrightarrow> k = 0"
    using assms by (auto simp: normal_def)
  show ?thesis
  proof (cases ns rule: rev_cases)
    case Nil
    with c(1) have "cs @ [c] = replicate k ''..''" by simp
    then have "cs = butlast (replicate k ''..'')" by (metis butlast_snoc)
    then have "cs = replicate (k - 1) ''..''" by (simp add: butlast_conv_take)
    with c Nil show ?thesis by (cases r) (simp_all add: normal_dotdots)
  next
    case (snoc ms m)
    with c show ?thesis by (auto simp: normal_def)
  qed
qed

lemma normal_dotdot:
  assumes "normal r (cs @ [''..''])" shows "normal r (cs @ [''..'', ''..''])"
proof -
  obtain k ns where c: "cs @ [''..''] = replicate k ''..'' @ ns" "list_all proper ns" "r \<longrightarrow> k = 0"
    using assms by (auto simp: normal_def)
  have "ns = []"
    using c by (cases ns rule: rev_cases) (auto simp: proper_def)
  then have "cs @ [''..'', ''..''] = replicate (Suc k) ''..'' @ []"
    using c(1) by (metis append.assoc append_Cons append_Nil append_Nil2 replicate_append_same replicate_Suc)
  moreover have "\<not> r" using c \<open>ns = []\<close> by auto
  ultimately show ?thesis unfolding normal_def by (intro exI [of _ "Suc k"] exI [of _ "[]"]) simp
qed

lemma clean_normal:
  "normal r (rev out) \<Longrightarrow> (\<And>c. c \<in> set cs \<Longrightarrow> slash \<notin> set c) \<Longrightarrow> normal r (clean r out cs)"
proof (induction r out cs rule: clean.induct)
  case (2 r out c cs)
  consider "c = [] \<or> c = ''.''" | (dd) "c = ''..''" | (name) "proper c"
    using 2(6) by (auto simp: proper_def)
  then show ?case
  proof cases
    case dd
    have one: "normal r (rev (if r then [] else [''..'']))"
      by (auto simp: normal_def intro!: exI [of _ "1::nat"])
    show ?thesis
    proof (cases out)
      case Nil
      with dd 2 one show ?thesis by (cases r) auto
    next
      case (Cons l ls)
      with dd 2 show ?thesis using normal_dotdot [of r "rev ls"] normal_butlast [of r "rev ls" l] by auto
    qed
  qed (use 2 normal_snoc in \<open>auto simp: proper_def\<close>)
qed simp

lemma clean_append: "clean r out (xs @ ys) = clean r (rev (clean r out xs)) ys"
  by (induction r out xs rule: clean.induct) (auto split: list.splits)

lemma clean_proper: "list_all proper cs \<Longrightarrow> clean r out cs = rev out @ cs"
  by (induction cs arbitrary: out) (auto simp: proper_def)

lemma clean_dotdots: "clean False (replicate j ''..'') (replicate k ''..'' @ cs) = clean False (replicate (k + j) ''..'') cs"
proof (induction k arbitrary: j)
  case (Suc k)
  from Suc [of "Suc j"] show ?case by (cases j) (auto simp: replicate_app_Cons_same)
qed simp

lemma clean_of_normal: "normal r cs \<Longrightarrow> clean r [] cs = cs"
  using clean_dotdots [of 0] by (cases r) (auto simp: normal_def clean_proper)

lemma comps_normal: "normal (IsAbs p) (comps p)"
  unfolding comps_def by (rule clean_normal) (auto dest: Split_no_slash)

lemma normal_elem:
  assumes "normal r cs" and "c \<in> set cs"
  shows "c = ''..'' \<or> proper c"
  using assms by (auto simp: normal_def list_all_iff simp del: set_replicate dest: in_set_replicate [THEN iffD1])

lemma normal_no_slash:
  assumes "normal r cs" and "c \<in> set cs"
  shows "slash \<notin> set c \<and> c \<noteq> [] \<and> c \<noteq> ''.''"
  using normal_elem [OF assms] by (elim disjE) (simp_all add: proper_def)

lemma clean_rooted_no_dotdot: "normal True cs \<Longrightarrow> ''..'' \<notin> set cs"
  by (auto simp: normal_def proper_def list_all_iff)

subsection \<open>Paths and their components\<close>

lemma IsAbs_Cons: "IsAbs p \<longleftrightarrow> (\<exists>q. p = slash # q)"
  by (auto simp: IsAbs_def HasPrefix_iff)

lemma IsAbs_append: "p \<noteq> [] \<Longrightarrow> IsAbs (p @ q) = IsAbs p"
  by (cases p) (simp_all add: IsAbs_Cons)

lemma hd_Join: "cs \<noteq> [] \<Longrightarrow> hd cs \<noteq> [] \<Longrightarrow> \<exists>w. Join cs ''/'' = hd cs @ w"
  by (cases cs rule: remdups_adj.cases) auto

lemma path_of_abs: "normal r cs \<Longrightarrow> IsAbs (path_of r cs) = r"
proof (cases "r \<or> cs = []")
  case False
  assume n: "normal r cs"
  from False obtain c cs' where cs: "cs = c # cs'" by (cases cs) auto
  with n normal_no_slash [OF n, of c] obtain w where "Join cs ''/'' = c @ w" using hd_Join [of cs] by auto
  with False normal_no_slash [OF n, of c] cs show ?thesis
    by (cases c) (auto simp: path_of_def IsAbs_Cons)
qed (auto simp: path_of_def IsAbs_Cons)

lemma comps_path_of:
  assumes n: "normal r cs" shows "comps (path_of r cs) = cs"
proof (cases "cs = []")
  case True
  then show ?thesis by (cases r) (simp_all add: path_of_def comps_def IsAbs_Cons)
next
  case False
  have split: "Split (Join cs ''/'') = cs"
    using False normal_no_slash [OF n] by (intro Split_Join) auto
  have "clean r [] (Split (path_of r cs)) = clean r [] cs"
    using False by (simp add: path_of_def split)
  then show ?thesis
    by (simp add: comps_def path_of_abs [OF n] clean_of_normal [OF n])
qed

lemma IsAbs_Clean [simp]: "IsAbs (Clean p) = IsAbs p"
  by (simp add: Clean_def path_of_abs comps_normal)

lemma comps_Clean [simp]: "comps (Clean p) = comps p"
  by (simp add: Clean_def comps_path_of comps_normal)

lemma Clean_Clean [simp]: "Clean (Clean p) = Clean p"
  by (simp add: Clean_def [of "Clean p"]) (simp add: Clean_def)

lemma Clean_eqD: "Clean p = Clean q \<Longrightarrow> IsAbs p = IsAbs q \<and> comps p = comps q"
  by (drule arg_cong [of _ _ "\<lambda>p. (IsAbs p, comps p)"]) simp

lemma Clean_eq_iff: "Clean p = Clean q \<longleftrightarrow> IsAbs p = IsAbs q \<and> comps p = comps q"
proof
  assume "IsAbs p = IsAbs q \<and> comps p = comps q"
  then show "Clean p = Clean q" unfolding Clean_def by simp
qed (rule Clean_eqD)

lemma Clean_nonempty [simp]: "Clean p \<noteq> []"
proof
  assume e: "Clean p = []"
  have "comps p = comps (Clean p)" by simp
  then have "comps p = []" unfolding e by (simp add: comps_def IsAbs_Cons)
  with e show False by (cases "IsAbs p") (simp_all add: Clean_def path_of_def)
qed

text \<open>Joining a relative path appends its components, when it does not climb.\<close>

lemma comps_below:
  assumes "\<not> IsAbs q" and "''..'' \<notin> set (comps q)" and "p \<noteq> []"
  shows "comps (p @ slash # Clean q) = comps p @ comps q"
proof -
  have proper: "list_all proper (comps q)"
    using normal_elem [OF comps_normal, of _ q] assms(2) by (auto simp: list_all_iff)
  have "clean r out (Split (Clean q)) = rev out @ comps q" for r out
  proof (cases "comps q = []")
    case True
    with assms(1) show ?thesis by (simp add: Clean_def path_of_def)
  next
    case False
    have "Split (Join (comps q) ''/'') = comps q"
      using False normal_no_slash [OF comps_normal] by (intro Split_Join) auto
    with False assms(1) show ?thesis by (simp add: Clean_def path_of_def clean_proper [OF proper])
  qed
  then show ?thesis
    by (simp add: comps_def [of "p @ slash # Clean q"] IsAbs_append [OF assms(3)] Split_append clean_append
        comps_def [of p, symmetric] del: Split.simps)
qed

lemma IsAbs_Join_path: "IsAbs (Join_path [dest, Clean q]) = (if dest = [] then IsAbs q else IsAbs dest)"
  using IsAbs_append [of dest "slash # Clean q"] by (simp add: Join_path_def)

lemma comps_Join_path:
  assumes "\<not> IsAbs q" and "''..'' \<notin> set (comps q)"
  shows "comps (Join_path [dest, Clean q]) = comps dest @ comps q"
proof (cases "dest = []")
  case True
  then have "comps dest = []" by (simp add: comps_def IsAbs_Cons)
  with True show ?thesis by (simp add: Join_path_def)
next
  case False
  with comps_below [OF assms False] show ?thesis by (simp add: Join_path_def)
qed

lemma strip_common_prefix: "strip_common bs (bs @ ts) = ([], ts)"
  by (induction bs) (cases ts, auto)

text \<open>\<open>under dest p\<close>: the path \<open>p\<close> is \<open>dest\<close>, or reached from it by names only.\<close>

definition under :: "string \<Rightarrow> string \<Rightarrow> bool" where
  "under dest p \<longleftrightarrow>
     IsAbs p = IsAbs dest \<and> take (length (comps dest)) (comps p) = comps dest \<and>
     ''..'' \<notin> set (drop (length (comps dest)) (comps p))"

lemma underI: "IsAbs p = IsAbs dest \<Longrightarrow> comps p = comps dest @ cs \<Longrightarrow> ''..'' \<notin> set cs \<Longrightarrow> under dest p"
  by (simp add: under_def)

end
