(* ===== verification/Sources.thy ===== *)
theory Sources
  imports Paths Config "HOL-Library.Word"
begin

text \<open>
  Where plugin binaries come from (\<open>internal/plugins/filesystem.go\<close>, \<open>internal/plugins/github.go\<close>):
  a file that is already there, or the asset of a GitHub release that is downloaded, checked
  against its digest, unpacked into a cache directory and marked executable.

  The operating system, the HTTP client and the archive readers are code outside the repository.
  \<open>os\<close> holds their operations, as functions of the request and of the world \<open>'w\<close> they act on;
  \<open>o_trace\<close> is the history of the operations performed, which no step reads.
\<close>

unbundle bit_operations_syntax

subsection \<open>The operating system\<close>

type_synonym FileMode = "32 word"
type_synonym handle = nat

definition ModeDir :: FileMode where
  "ModeDir = push_bit 31 1"

definition ModeSymlink :: FileMode where
  "ModeSymlink = push_bit 27 1"

text \<open>The octal constants \<open>0111\<close> and \<open>0o755\<close>.\<close>

definition execute_bits :: FileMode where
  "execute_bits = 1 * 8 * 8 + 1 * 8 + 1"

definition rwxr_xr_x :: FileMode where
  "rwxr_xr_x = 7 * 8 * 8 + 5 * 8 + 5"

definition IsDir :: "FileMode \<Rightarrow> bool" where
  "IsDir m \<longleftrightarrow> m AND ModeDir \<noteq> 0"

definition executable :: "FileMode \<Rightarrow> bool" where
  "executable m \<longleftrightarrow> m AND execute_bits \<noteq> 0"

text \<open>A reader delivers its bytes and then ends, or fails.\<close>

record reader =
  rd_data :: string
  rd_err :: "goerr option"

record HttpResponse =
  hr_StatusCode :: int
  hr_Status :: string
  hr_Body :: reader

text \<open>An entry of a zip archive; \<open>ze_Open\<close> is what opening it gives.\<close>

record zip_entry =
  ze_Name :: string
  ze_Mode :: FileMode
  ze_Open :: "goerr + reader"

record tar_entry =
  te_Name :: string
  te_Typeflag :: char
  te_Mode :: int
  te_Data :: reader

text \<open>The entries \<open>tar.Reader.Next\<close> yields, and the error it ends with (\<open>None\<close> for \<open>io.EOF\<close>).\<close>

record tar_stream =
  ts_entries :: "tar_entry list"
  ts_end :: "goerr option"

record 'w os =
  os_Stat :: "('w, string, FileMode) answering"
  os_Open :: "('w, string, handle) answering"
  os_ReadAll :: "('w, handle, string) answering"
  os_Close :: "('w, handle, unit) answering"
  os_MkdirAll :: "('w, string \<times> FileMode, unit) answering"
  os_OpenFile :: "('w, string \<times> FileMode, handle) answering"
  os_Write :: "('w, handle \<times> string, unit) answering"
  os_CreateTemp :: "('w, string \<times> string, string \<times> handle) answering"
  os_Remove :: "('w, string, unit) answering"
  os_Chmod :: "('w, string \<times> FileMode, unit) answering"
  os_Getenv :: "'w \<Rightarrow> string \<Rightarrow> string"
  os_UserHomeDir :: "'w \<Rightarrow> goerr + string"
  os_TempDir :: "'w \<Rightarrow> string"
  os_NewRequest :: "string \<Rightarrow> goerr option"
  os_Do :: "('w, string \<times> (string \<times> string) list, HttpResponse) answering"
  os_ZipOpen :: "('w, string, zip_entry list) answering"
  os_TarOpen :: "('w, handle, tar_stream) answering"
  os_sha256_hex :: "string \<Rightarrow> string"

datatype os_action =
    OStat string
  | OOpen string
  | ORead handle
  | OClose handle
  | OMkdirAll string FileMode
  | OOpenFile string FileMode
  | OWrite handle string
  | OCreateTemp string
  | ORemove string
  | OChmod string FileMode
  | ODownload string "goerr + reader"
  | OZipOpen string
  | OTarOpen handle
  | OLaunch string "string list"
  | ODialSocket string
  | OInterrupt nat
  | OKill nat

record 'w ostate =
  o_world :: 'w
  o_trace :: "os_action list"

type_synonym ('w, 'a) oexec = "('w ostate, goerr, 'a) prog"

definition sys :: "('a \<Rightarrow> goerr + 'b \<Rightarrow> os_action) \<Rightarrow> ('w, 'a, 'b) answering \<Rightarrow> 'a \<Rightarrow> ('w, 'b) oexec" where
  "sys mk f a = State (\<lambda>s.
     case f a (o_world s) of (r, w) \<Rightarrow> (r, s\<lparr>o_world := w, o_trace := o_trace s @ [mk a r]\<rparr>))"

definition Stat :: "'w os \<Rightarrow> string \<Rightarrow> ('w, FileMode) oexec" where
  "Stat os = sys (\<lambda>p _. OStat p) (os_Stat os)"

definition Open :: "'w os \<Rightarrow> string \<Rightarrow> ('w, handle) oexec" where
  "Open os = sys (\<lambda>p _. OOpen p) (os_Open os)"

definition ReadAll :: "'w os \<Rightarrow> handle \<Rightarrow> ('w, string) oexec" where
  "ReadAll os = sys (\<lambda>h _. ORead h) (os_ReadAll os)"

definition Close :: "'w os \<Rightarrow> handle \<Rightarrow> ('w, unit) oexec" where
  "Close os = sys (\<lambda>h _. OClose h) (os_Close os)"

definition MkdirAll :: "'w os \<Rightarrow> string \<Rightarrow> FileMode \<Rightarrow> ('w, unit) oexec" where
  "MkdirAll os p m = sys (\<lambda>(p, m) _. OMkdirAll p m) (os_MkdirAll os) (p, m)"

definition OpenFile :: "'w os \<Rightarrow> string \<Rightarrow> FileMode \<Rightarrow> ('w, handle) oexec" where
  "OpenFile os p m = sys (\<lambda>(p, m) _. OOpenFile p m) (os_OpenFile os) (p, m)"

definition CreateTemp :: "'w os \<Rightarrow> string \<Rightarrow> string \<Rightarrow> ('w, string \<times> handle) oexec" where
  "CreateTemp os dir pat = sys (\<lambda>(d, p) _. OCreateTemp p) (os_CreateTemp os) (dir, pat)"

definition Remove :: "'w os \<Rightarrow> string \<Rightarrow> ('w, unit) oexec" where
  "Remove os = sys (\<lambda>p _. ORemove p) (os_Remove os)"

definition Chmod :: "'w os \<Rightarrow> string \<Rightarrow> FileMode \<Rightarrow> ('w, unit) oexec" where
  "Chmod os p m = sys (\<lambda>(p, m) _. OChmod p m) (os_Chmod os) (p, m)"

definition ZipOpen :: "'w os \<Rightarrow> string \<Rightarrow> ('w, zip_entry list) oexec" where
  "ZipOpen os = sys (\<lambda>p _. OZipOpen p) (os_ZipOpen os)"

definition TarOpen :: "'w os \<Rightarrow> handle \<Rightarrow> ('w, tar_stream) oexec" where
  "TarOpen os = sys (\<lambda>h _. OTarOpen h) (os_TarOpen os)"

text \<open>\<open>io.Copy(out, r)\<close>: a write error first, else the error the reader ended with.\<close>

definition Copy :: "'w os \<Rightarrow> handle \<Rightarrow> reader \<Rightarrow> ('w, unit) oexec" where
  "Copy os h r = and_then (sys (\<lambda>(h, d) _. OWrite h d) (os_Write os) (h, rd_data r))
     (\<lambda>_. case rd_err r of None \<Rightarrow> done_with () | Some e \<Rightarrow> raise e)"

lemmas sys_defs = Stat_def Open_def ReadAll_def Close_def MkdirAll_def OpenFile_def CreateTemp_def
  Remove_def Chmod_def ZipOpen_def TarOpen_def

text \<open>A step followed by a deferred call, whose result is ignored.\<close>

definition deferring :: "('s, 'e, 'a) prog \<Rightarrow> ('s, 'e, 'b) prog \<Rightarrow> ('s, 'e, 'a) prog" where
  "deferring m d = do { r \<leftarrow> m; _ \<leftarrow> d; State_Monad.return r }"

text \<open>\<open>if err != nil { return fmt.Errorf("...: %w", err) }\<close>\<close>

definition wrapping :: "string \<Rightarrow> ('s, goerr, 'a) prog \<Rightarrow> ('s, goerr, 'a) prog" where
  "wrapping msg m = do { r \<leftarrow> m;
     State_Monad.return (case r of Inl e \<Rightarrow> Inl (EWrapped msg e) | Inr a \<Rightarrow> Inr a) }"

subsection \<open>Files that are there\<close>

record ResolvedPlugin =
  rp_Path :: string
  rp_SHA256 :: string

definition fileSHA256 :: "'w os \<Rightarrow> string \<Rightarrow> ('w, string) oexec" where
  "fileSHA256 os path =
     and_then (wrapping (''open '' @ path @ '': '') (Open os path)) (\<lambda>f.
       deferring
         (and_then (wrapping (''hash '' @ path @ '': '') (ReadAll os f)) (\<lambda>d.
            done_with (os_sha256_hex os d)))
         (Close os f))"

definition ResolveFilesystem :: "'w os \<Rightarrow> string \<Rightarrow> string \<Rightarrow> ('w, ResolvedPlugin) oexec" where
  "ResolveFilesystem os path checksum =
     and_then (wrapping (''plugin binary '' @ path @ '' not found: '') (Stat os path)) (\<lambda>st.
       if IsDir st
       then raise (EText (''plugin path '' @ path @ '' is a directory; expected executable file''))
       else if \<not> executable st
       then raise (EText (''plugin binary '' @ path @ '' is not executable''))
       else and_then (fileSHA256 os path) (\<lambda>h.
         if checksum \<noteq> [] \<and> \<not> EqualFold (TrimPrefix checksum ''sha256:'') h
         then raise (EText (''plugin checksum mismatch for '' @ path @ '': got sha256:'' @ h @ '' want '' @ checksum))
         else done_with \<lparr>rp_Path = path, rp_SHA256 = h\<rparr>))"

subsection \<open>Extraction\<close>

definition unsafe_path :: "string \<Rightarrow> goerr" where
  "unsafe_path name = EText (''unsafe archive path '' @ Quote name)"

definition safeJoin :: "string \<Rightarrow> string \<Rightarrow> goerr + string" where
  "safeJoin dest name =
     (let c = Clean name
      in if IsAbs c \<or> HasPrefix c ''../'' \<or> c = ''..'' then Inl (unsafe_path name)
         else let p = Join_path [dest, c]
              in case Rel dest p of
                   None \<Rightarrow> Inl (unsafe_path name)
                 | Some rel \<Rightarrow> if HasPrefix rel ''..'' then Inl (unsafe_path name) else Inr p)"

text \<open>Write one file: open, copy, close; a copy error wins over a close error.\<close>

definition write_out :: "'w os \<Rightarrow> string \<Rightarrow> FileMode \<Rightarrow> reader \<Rightarrow> ('w, unit) oexec" where
  "write_out os p mode r =
     and_then (OpenFile os p mode) (\<lambda>out.
       do { cpErr \<leftarrow> Copy os out r;
            closeErr \<leftarrow> Close os out;
            State_Monad.return (case cpErr of Inl e \<Rightarrow> Inl e | Inr _ \<Rightarrow> closeErr) })"

fun zip_loop :: "'w os \<Rightarrow> string \<Rightarrow> zip_entry list \<Rightarrow> ('w, unit) oexec" where
  "zip_loop os dest [] = done_with ()"
| "zip_loop os dest (f # fs) =
     (if ze_Mode f AND ModeSymlink \<noteq> 0 then raise (EText (''refusing symlink '' @ Quote (ze_Name f)))
      else case safeJoin dest (ze_Name f) of
        Inl e \<Rightarrow> raise e
      | Inr p \<Rightarrow>
          if IsDir (ze_Mode f)
          then and_then (MkdirAll os p rwxr_xr_x) (\<lambda>_. zip_loop os dest fs)
          else and_then (MkdirAll os (Dir p) rwxr_xr_x) (\<lambda>_.
               case ze_Open f of
                 Inl e \<Rightarrow> raise e
               | Inr r \<Rightarrow> and_then (write_out os p (ze_Mode f) r) (\<lambda>_. zip_loop os dest fs)))"

definition safeExtractZip :: "'w os \<Rightarrow> string \<Rightarrow> string \<Rightarrow> ('w, unit) oexec" where
  "safeExtractZip os path dest = and_then (ZipOpen os path) (zip_loop os dest)"

definition TypeReg :: char where "TypeReg = CHR ''0''"
definition TypeLink :: char where "TypeLink = CHR ''1''"
definition TypeSymlink :: char where "TypeSymlink = CHR ''2''"
definition TypeDir :: char where "TypeDir = CHR ''5''"

text \<open>\<open>os.FileMode(h.Mode)\<close> keeps the low 32 bits of the header's 64-bit mode.\<close>

fun tar_loop :: "'w os \<Rightarrow> string \<Rightarrow> tar_entry list \<Rightarrow> goerr option \<Rightarrow> ('w, unit) oexec" where
  "tar_loop os dest [] final = (case final of None \<Rightarrow> done_with () | Some e \<Rightarrow> raise e)"
| "tar_loop os dest (h # hs) final =
     (if te_Typeflag h = TypeSymlink \<or> te_Typeflag h = TypeLink
      then raise (EText (''refusing link '' @ Quote (te_Name h)))
      else case safeJoin dest (te_Name h) of
        Inl e \<Rightarrow> raise e
      | Inr p \<Rightarrow>
          if te_Typeflag h = TypeDir
          then and_then (MkdirAll os p (word_of_int (te_Mode h))) (\<lambda>_. tar_loop os dest hs final)
          else if te_Typeflag h = TypeReg
          then and_then (MkdirAll os (Dir p) rwxr_xr_x) (\<lambda>_.
               and_then (write_out os p (word_of_int (te_Mode h)) (te_Data h)) (\<lambda>_. tar_loop os dest hs final))
          else raise (EText (''unsupported archive entry '' @ Quote (te_Name h))))"

definition safeExtractTarGz :: "'w os \<Rightarrow> string \<Rightarrow> string \<Rightarrow> ('w, unit) oexec" where
  "safeExtractTarGz os path dest =
     and_then (Open os path) (\<lambda>f.
       deferring (and_then (TarOpen os f) (\<lambda>ts. tar_loop os dest (ts_entries ts) (ts_end ts)))
         (Close os f))"

definition SafeExtract :: "'w os \<Rightarrow> string \<Rightarrow> string \<Rightarrow> ('w, unit) oexec" where
  "SafeExtract os archivePath dest =
     (if HasSuffix (ToLower archivePath) ''.zip'' then safeExtractZip os archivePath dest
      else safeExtractTarGz os archivePath dest)"

subsection \<open>GitHub releases\<close>

record 'w Downloader =
  Download :: "('w, string, reader) answering"

definition GitHubReleaseURL :: "string \<Rightarrow> string \<Rightarrow> string \<Rightarrow> string" where
  "GitHubReleaseURL repository release asset =
     ''https://github.com/'' @ repository @ ''/releases/download/'' @ release @ ''/'' @ asset"

definition GitHubCacheDir :: "string \<Rightarrow> string \<Rightarrow> string \<Rightarrow> string \<Rightarrow> string \<Rightarrow> string" where
  "GitHubCacheDir home repository release asset sha =
     (let parts = Split repository;
          (owner, repo) = (if length parts = 2 then (parts ! 0, parts ! 1) else (''unknown'', repository))
      in Join_path [home, ''.llm-gateway'', ''plugins'', ''github'', owner, repo, release, asset, sha])"

record GitHubSource =
  gs_Repository :: string
  gs_Release :: string
  gs_Asset :: string
  gs_Binary :: string
  gs_Checksum :: string

definition http_headers :: "'w os \<Rightarrow> 'w \<Rightarrow> (string \<times> string) list" where
  "http_headers os w =
     (let tok = os_Getenv os w ''GITHUB_TOKEN''
      in if tok \<noteq> [] then [(''Authorization'', ''Bearer '' @ tok)] else [])"

definition HTTPDownloader :: "'w os \<Rightarrow> 'w Downloader" where
  "HTTPDownloader os = \<lparr>Download = (\<lambda>url w.
     case os_NewRequest os url of
       Some err \<Rightarrow> (Inl err, w)
     | None \<Rightarrow>
         (case os_Do os (url, http_headers os w) w of
            (Inl err, w) \<Rightarrow> (Inl err, w)
          | (Inr resp, w) \<Rightarrow>
              if hr_StatusCode resp < 200 \<or> 299 < hr_StatusCode resp
              then (Inl (EText (''download '' @ url @ '': status '' @ hr_Status resp)), w)
              else (Inr (hr_Body resp), w)))\<rparr>"

definition temp_pattern :: string where
  "temp_pattern = ''llm-gateway-plugin-*''"

definition cache_dir :: "GitHubSource \<Rightarrow> string \<Rightarrow> string \<Rightarrow> string" where
  "cache_dir src cacheHome sha =
     GitHubCacheDir cacheHome (gs_Repository src) (gs_Release src) (gs_Asset src) sha"

text \<open>The binary of a cached extraction, when it is there and executable.\<close>

definition cached_binary :: "'w os \<Rightarrow> GitHubSource \<Rightarrow> string \<Rightarrow> string \<Rightarrow> ('w ostate, ResolvedPlugin option) state" where
  "cached_binary os src cacheHome want =
     (if want = [] then State_Monad.return None
      else let cached = Join_path [cache_dir src cacheHome want, gs_Binary src]
           in do { st \<leftarrow> Stat os cached;
                   State_Monad.return (case st of
                     Inl _ \<Rightarrow> None
                   | Inr m \<Rightarrow> if \<not> IsDir m \<and> executable m
                               then Some \<lparr>rp_Path = cached, rp_SHA256 = want\<rparr> else None) })"

text \<open>From the downloaded archive to the binary, when the digest is the wanted one.\<close>

definition install :: "'w os \<Rightarrow> GitHubSource \<Rightarrow> string \<Rightarrow> string \<Rightarrow> ('w, ResolvedPlugin) oexec" where
  "install os src dir tmp =
     and_then (MkdirAll os dir rwxr_xr_x) (\<lambda>_.
     and_then (SafeExtract os tmp dir) (\<lambda>_.
       let bin = Join_path [dir, gs_Binary src]
       in and_then (wrapping ''mark binary executable: '' (Chmod os bin rwxr_xr_x)) (\<lambda>_.
            ResolveFilesystem os bin [])))"

definition fetch :: "'w os \<Rightarrow> GitHubSource \<Rightarrow> string \<Rightarrow> string \<Rightarrow> reader \<Rightarrow> string \<Rightarrow> handle
    \<Rightarrow> ('w, ResolvedPlugin) oexec" where
  "fetch os src cacheHome want r tmp h =
     do { copied \<leftarrow> Copy os h r;
          case copied of
            Inl e \<Rightarrow> do { _ \<leftarrow> Close os h; raise e }
          | Inr _ \<Rightarrow>
              and_then (Close os h) (\<lambda>_.
                let got = os_sha256_hex os (rd_data r)
                in if want \<noteq> [] \<and> \<not> EqualFold want got
                   then raise (EText (''github asset checksum mismatch: got sha256:'' @ got @ '' want ''
                          @ gs_Checksum src))
                   else let sha = (if want \<noteq> [] then want else got)
                        in install os src (cache_dir src cacheHome sha) tmp) }"

definition ResolveGitHub ::
  "'w os \<Rightarrow> GitHubSource \<Rightarrow> string \<Rightarrow> 'w Downloader option \<Rightarrow> ('w, ResolvedPlugin) oexec" where
  "ResolveGitHub os src cacheHome d =
     (let d = (case d of None \<Rightarrow> HTTPDownloader os | Some d \<Rightarrow> d);
          want = TrimPrefix (gs_Checksum src) ''sha256:''
      in do { cached \<leftarrow> cached_binary os src cacheHome want;
              case cached of
                Some rp \<Rightarrow> done_with rp
              | None \<Rightarrow>
                  and_then (sys ODownload (Download d)
                      (GitHubReleaseURL (gs_Repository src) (gs_Release src) (gs_Asset src))) (\<lambda>r.
                  and_then (CreateTemp os [] temp_pattern) (\<lambda>(tmp, h).
                    deferring (fetch os src cacheHome want r tmp h) (Remove os tmp))) })"

subsection \<open>Lemmas on paths\<close>

lemma Clean_relative:
  assumes "\<not> IsAbs q"
  shows "Clean q = (if comps q = [] then ''.'' else Join (comps q) ''/'')"
  using assms by (simp add: Clean_def path_of_def)

text \<open>A relative path climbs exactly when its cleaned text starts with \<open>..\<close> and a separator.\<close>

lemma climbs_iff:
  assumes "\<not> IsAbs q"
  shows "HasPrefix (Clean q) ''../'' \<or> Clean q = ''..'' \<longleftrightarrow> (\<exists>cs. comps q = ''..'' # cs)"
proof (cases "comps q" rule: remdups_adj.cases)
  case (2 c)
  have "slash \<notin> set c" "c \<noteq> []" using normal_no_slash [OF comps_normal, of c q] 2 by auto
  moreover have "HasPrefix c ''../'' \<Longrightarrow> slash \<in> set c" by (auto simp: HasPrefix_iff)
  ultimately show ?thesis using assms 2 by (auto simp: Clean_relative)
next
  case (3 c d cs)
  have c: "slash \<notin> set c" using normal_no_slash [OF comps_normal, of c q] 3 by auto
  have "HasPrefix (c @ slash # w) ''../'' \<longleftrightarrow> c = ''..''" "c @ slash # w \<noteq> ''..''" for w
    using c by (auto simp: HasPrefix_iff Cons_eq_append_conv append_eq_Cons_conv)
  then show ?thesis using assms 3 by (simp add: Clean_relative)
qed (use assms in \<open>auto simp: Clean_relative HasPrefix_def\<close>)

lemma not_climbing:
  assumes "\<nexists>cs. comps q = ''..'' # cs"
  shows "''..'' \<notin> set (comps q)"
proof -
  obtain k ns where "comps q = replicate k ''..'' @ ns" "list_all proper ns"
    using comps_normal [of q] by (auto simp: normal_def)
  with assms show ?thesis by (cases k) (auto simp: proper_def list_all_iff)
qed

text \<open>The joined path is clean, and its components are those of the two parts.\<close>

lemma Join_path_clean: "Join_path [dest, Clean q] = path_of (IsAbs (Join_path [dest, Clean q])) (comps (Join_path [dest, Clean q]))"
proof -
  have "Clean (Join_path [dest, Clean q]) = Join_path [dest, Clean q]"
    by (cases "dest = []") (simp_all add: Join_path_def)
  then show ?thesis by (metis Clean_def)
qed

lemma Dir_path_of:
  assumes n: "normal r (cs @ [c])" shows "Dir (path_of r (cs @ [c])) = path_of r cs"
proof -
  let ?up = "\<lambda>p. rev (dropWhile (\<lambda>c. c \<noteq> slash) (rev p))"
  have c: "slash \<notin> set c" using normal_no_slash [OF n] by simp
  have ncs: "normal r cs" by (rule normal_butlast [OF n])
  have up: "?up (p @ slash # c) = p @ [slash]" for p
  proof -
    have "dropWhile (\<lambda>c. c \<noteq> slash) (rev c @ slash # rev p) = dropWhile (\<lambda>c. c \<noteq> slash) (slash # rev p)"
      by (rule dropWhile_append2) (use c in auto)
    then show ?thesis by simp
  qed
  have up_c: "dropWhile (\<lambda>c. c \<noteq> slash) (rev c) = []" using c by (auto simp: dropWhile_eq_Nil_conv)
  show ?thesis
  proof (cases "cs = []")
    case True
    have "?up (slash # c) = [slash]" using up [of "[]"] by (simp del: rev.simps)
    then have upc: "?up (path_of r (cs @ [c])) = (if r then [slash] else [])"
      using True up_c by (simp add: path_of_def del: rev.simps)
    show ?thesis unfolding Dir_def upc using True
      by (cases r) (simp_all add: path_of_def Clean_def comps_def IsAbs_Cons)
  next
    case False
    have "Join (cs @ [c]) ''/'' = Join cs ''/'' @ slash # c"
      using False by (induction cs "''/''" rule: Join.induct) auto
    then have dir: "?up (path_of r (cs @ [c])) = path_of r cs @ [slash]"
      using False up [of "Join cs ''/''"] up [of "slash # Join cs ''/''"] by (simp add: path_of_def)
    have "path_of r cs \<noteq> []" using Clean_nonempty [of "path_of r cs"] comps_path_of [OF ncs] path_of_abs [OF ncs]
      by (simp add: Clean_def)
    from IsAbs_append [OF this] have abs: "IsAbs (path_of r cs @ [slash]) = r" using path_of_abs [OF ncs] by simp
    have "comps (path_of r cs @ [slash]) = clean r (rev (comps (path_of r cs))) [[]]"
      unfolding comps_def abs path_of_abs [OF ncs] using Split_append [of "path_of r cs" "[]"]
      by (simp add: clean_append)
    then have "comps (path_of r cs @ [slash]) = cs" by (simp add: comps_path_of [OF ncs])
    then show ?thesis unfolding Dir_def dir by (simp add: Clean_def abs)
  qed
qed

subsection \<open>What \<open>safeJoin\<close> accepts\<close>

definition accepted_name :: "string \<Rightarrow> bool" where
  "accepted_name name \<longleftrightarrow>
     \<not> IsAbs name \<and> (case comps name of [] \<Rightarrow> True | c # _ \<Rightarrow> \<not> HasPrefix c ''..'')"

lemma accepted_no_dotdot: "accepted_name name \<Longrightarrow> ''..'' \<notin> set (comps name)"
  by (rule not_climbing) (auto simp: accepted_name_def HasPrefix_def)

lemma Join_dotdot:
  assumes "slash \<notin> set c" and "c \<noteq> []" and "c \<noteq> ''.''"
  shows "HasPrefix (Join (c # cs) ''/'') ''..'' = HasPrefix c ''..''"
proof (cases cs)
  case (Cons d ds)
  obtain a w where c: "c = a # w" using assms(2) by (cases c) auto
  with assms Cons show ?thesis by (cases w) (auto simp: HasPrefix_def)
qed simp

lemma IsAbs_joined: "\<not> IsAbs name \<Longrightarrow> IsAbs (Join_path [dest, Clean name]) = IsAbs dest"
  by (cases "dest = []") (simp_all add: IsAbs_Join_path, simp add: IsAbs_Cons)

lemma Rel_joined:
  assumes "\<not> IsAbs name" and "''..'' \<notin> set (comps name)"
  shows "Rel dest (Join_path [dest, Clean name]) =
     Some (if comps name = [] then ''.'' else Join (comps name) ''/'')"
proof -
  let ?p = "Join_path [dest, Clean name]"
  have abs: "IsAbs ?p = IsAbs dest" using assms(1) by (rule IsAbs_joined)
  have cs: "comps ?p = comps dest @ comps name" by (rule comps_Join_path [OF assms])
  have eq: "Clean ?p = Clean dest \<longleftrightarrow> comps name = []" by (simp add: Clean_eq_iff abs cs)
  have "Clean ?p \<noteq> ''.''" if "comps name \<noteq> []"
  proof
    assume d: "Clean ?p = ''.''"
    have "comps ?p = comps (Clean ?p)" by simp
    also have "\<dots> = []" unfolding d by (simp add: comps_def IsAbs_Cons)
    finally show False using cs that by simp
  qed
  then show ?thesis by (simp add: Rel_def eq abs cs strip_common_prefix Let_def)
qed

lemma safeJoin_eq:
  "safeJoin dest name =
     (if accepted_name name then Inr (Join_path [dest, Clean name]) else Inl (unsafe_path name))"
proof (cases "IsAbs name \<or> (\<exists>cs. comps name = ''..'' # cs)")
  case True
  then have "IsAbs (Clean name) \<or> HasPrefix (Clean name) ''../'' \<or> Clean name = ''..''"
    using climbs_iff [of name] by (cases "IsAbs name") auto
  then have "safeJoin dest name = Inl (unsafe_path name)" by (auto simp: safeJoin_def Let_def)
  moreover have "\<not> accepted_name name" using True by (auto simp: accepted_name_def HasPrefix_def)
  ultimately show ?thesis by simp
next
  case False
  then have rel: "\<not> IsAbs name" and dd: "''..'' \<notin> set (comps name)" using not_climbing by auto
  have "\<not> (HasPrefix (Clean name) ''../'' \<or> Clean name = ''..'')"
    using False climbs_iff [OF rel] by blast
  then have "safeJoin dest name =
      (if HasPrefix (if comps name = [] then ''.'' else Join (comps name) ''/'') ''..''
       then Inl (unsafe_path name) else Inr (Join_path [dest, Clean name]))"
    by (simp add: safeJoin_def rel Rel_joined [OF rel dd] Let_def)
  also have "HasPrefix (if comps name = [] then ''.'' else Join (comps name) ''/'') ''..'' \<longleftrightarrow> \<not> accepted_name name"
  proof (cases "comps name")
    case Nil
    with rel show ?thesis by (simp add: accepted_name_def HasPrefix_def)
  next
    case (Cons c cs)
    then have "slash \<notin> set c \<and> c \<noteq> [] \<and> c \<noteq> ''.''" using normal_no_slash [OF comps_normal, of c name] by simp
    with Cons Join_dotdot [of c cs] rel show ?thesis by (simp add: accepted_name_def)
  qed
  finally show ?thesis by simp
qed

lemma safeJoin_under:
  assumes "safeJoin dest name = Inr p"
  shows "under dest p" and "under dest (Dir p) \<or> Dir p = Dir (Clean dest)"
proof -
  have acc: "accepted_name name" and p: "p = Join_path [dest, Clean name]"
    using assms by (auto simp: safeJoin_eq split: if_splits)
  have rel: "\<not> IsAbs name" and dd: "''..'' \<notin> set (comps name)"
    using acc accepted_no_dotdot by (auto simp: accepted_name_def)
  have abs: "IsAbs p = IsAbs dest" unfolding p using rel by (rule IsAbs_joined)
  have cs: "comps p = comps dest @ comps name" unfolding p by (rule comps_Join_path [OF rel dd])
  show "under dest p" by (rule underI [OF abs cs dd])
  have norm: "normal (IsAbs dest) (comps p)" using comps_normal [of p] abs by simp
  have clean: "p = path_of (IsAbs dest) (comps p)" using Join_path_clean [of dest name] abs p by simp
  show "under dest (Dir p) \<or> Dir p = Dir (Clean dest)"
  proof (cases "comps name" rule: rev_cases)
    case Nil
    with cs clean have "p = Clean dest" by (simp add: Clean_def)
    then show ?thesis by simp
  next
    case (snoc ns n)
    then have n: "normal (IsAbs dest) ((comps dest @ ns) @ [n])" using norm cs by simp
    have "Dir p = path_of (IsAbs dest) (comps dest @ ns)"
      using clean Dir_path_of [OF n] cs snoc by (metis append.assoc)
    moreover have "normal (IsAbs dest) (comps dest @ ns)" by (rule normal_butlast [OF n])
    ultimately have "under dest (Dir p)"
      using dd snoc by (intro underI [where cs = ns]) (auto simp: path_of_abs comps_path_of)
    then show ?thesis ..
  qed
qed

end
