(* ===== verification/SourcesProps.thy ===== *)
theory SourcesProps
  imports Sources
begin

text \<open>
  What the plugin sources do to the file system: extraction stays below its destination, nothing
  is unpacked before the digest was checked, and a resolved binary is the file with that digest.
\<close>

subsection \<open>Recorded operations\<close>

definition performs :: "(os_action \<Rightarrow> bool) \<Rightarrow> 'w ostate \<Rightarrow> 'w ostate \<Rightarrow> bool" where
  "performs P s t \<longleftrightarrow> (\<exists>acts. o_trace t = o_trace s @ acts \<and> list_all P acts)"

interpretation op: step_relation "performs P" for P
proof unfold_locales
  show "performs P s s" for s :: "'a ostate"
    by (simp add: performs_def)
  show "performs P s t \<Longrightarrow> performs P t u \<Longrightarrow> performs P s u" for s t u :: "'a ostate"
    by (fastforce simp: performs_def)
qed

named_theorems performed \<open>which operations a step performs\<close>

lemmas [performed] = op.keeps

lemma performed_sys: "(\<And>r. P (mk a r)) \<Longrightarrow> state_io_rel (performs P) (sys mk f a)"
  by (auto simp: state_io_rel_def sys_def performs_def split: prod.splits)

lemma performed_primitives [performed]:
  "P (OStat p) \<Longrightarrow> state_io_rel (performs P) (Stat os p)"
  "P (OOpen p) \<Longrightarrow> state_io_rel (performs P) (Open os p)"
  "P (ORead h) \<Longrightarrow> state_io_rel (performs P) (ReadAll os h)"
  "P (OClose h) \<Longrightarrow> state_io_rel (performs P) (Close os h)"
  "P (OMkdirAll p m) \<Longrightarrow> state_io_rel (performs P) (MkdirAll os p m)"
  "P (OOpenFile p m) \<Longrightarrow> state_io_rel (performs P) (OpenFile os p m)"
  "P (OCreateTemp q) \<Longrightarrow> state_io_rel (performs P) (CreateTemp os p q)"
  "P (ORemove p) \<Longrightarrow> state_io_rel (performs P) (Remove os p)"
  "P (OChmod p m) \<Longrightarrow> state_io_rel (performs P) (Chmod os p m)"
  "P (OZipOpen p) \<Longrightarrow> state_io_rel (performs P) (ZipOpen os p)"
  "P (OTarOpen h) \<Longrightarrow> state_io_rel (performs P) (TarOpen os h)"
  unfolding sys_defs by (rule performed_sys; simp)+

lemma performed_Copy [performed]:
  "P (OWrite h (rd_data r)) \<Longrightarrow> state_io_rel (performs P) (Copy os h r)"
  unfolding Copy_def by (intro performed performed_sys) auto

lemma performed_deferring [performed]:
  "state_io_rel (performs P) m \<Longrightarrow> state_io_rel (performs P) d \<Longrightarrow> state_io_rel (performs P) (deferring m d)"
  unfolding deferring_def by (intro performed)

lemma performed_wrapping [performed]:
  "state_io_rel (performs P) m \<Longrightarrow> state_io_rel (performs P) (wrapping msg m)"
  unfolding wrapping_def by (intro performed)

lemma performed_write_out:
  "(\<And>h. P (OWrite h (rd_data r))) \<Longrightarrow> (\<And>h. P (OClose h)) \<Longrightarrow> P (OOpenFile p m) \<Longrightarrow>
     state_io_rel (performs P) (write_out os p m r)"
  unfolding write_out_def by (intro performed)

lemma performs_run: "state_io_rel (performs P) m \<Longrightarrow>
    \<exists>acts. o_trace (snd (run_state m s)) = o_trace s @ acts \<and> list_all P acts"
  by (simp add: state_io_rel_def performs_def)

lemma performs_mono: "state_io_rel (performs P) m \<Longrightarrow> (\<And>a. P a \<Longrightarrow> Q a) \<Longrightarrow> state_io_rel (performs Q) m"
  by (fastforce simp: state_io_rel_def performs_def list_all_iff)

subsection \<open>Extraction\<close>

text \<open>
  An operation of an extraction into \<open>dest\<close>: files are opened for writing below \<open>dest\<close> only,
  directories created below it, or its parent, where \<open>dest\<close> itself is; nothing is removed,
  chmodded or created elsewhere.
\<close>

definition contained :: "string \<Rightarrow> os_action \<Rightarrow> bool" where
  "contained dest a =
     (case a of
        OOpenFile p m \<Rightarrow> under dest p
      | OMkdirAll p m \<Rightarrow> under dest p \<or> p = Dir (Clean dest)
      | OChmod p m \<Rightarrow> False
      | ORemove p \<Rightarrow> False
      | OCreateTemp p \<Rightarrow> False
      | OLaunch p env \<Rightarrow> False
      | _ \<Rightarrow> True)"

lemma contained_simps [simp]:
  "contained dest (OOpenFile p m) = under dest p"
  "contained dest (OMkdirAll p m) = (under dest p \<or> p = Dir (Clean dest))"
  "contained dest (OWrite h d)" "contained dest (OClose h)" "contained dest (OZipOpen p)"
  "contained dest (OOpen p)" "contained dest (OTarOpen h)"
  by (simp_all add: contained_def)

lemma zip_loop_contained: "state_io_rel (performs (contained dest)) (zip_loop os dest fs)"
proof (induction fs)
  case (Cons f fs)
  then show ?case
    by (cases "safeJoin dest (ze_Name f)")
      (auto intro!: performed performed_write_out split: sum.splits dest: safeJoin_under)
qed (auto intro!: performed)

lemma tar_loop_contained: "state_io_rel (performs (contained dest)) (tar_loop os dest hs final)"
proof (induction hs)
  case (Cons h hs)
  then show ?case
    by (cases "safeJoin dest (te_Name h)")
      (auto intro!: performed performed_write_out dest: safeJoin_under)
qed (auto intro!: performed split: option.splits)

lemma SafeExtract_contained: "state_io_rel (performs (contained dest)) (SafeExtract os archive dest)"
  unfolding SafeExtract_def safeExtractZip_def safeExtractTarGz_def
  by (intro performed zip_loop_contained tar_loop_contained) simp_all

text \<open>
  C39: \<open>safeJoin\<close> accepts exactly the relative names whose cleaned form does not begin with two
  dots, and answers the destination followed by the components of the name.
\<close>

theorem safeJoin_exact:
  "safeJoin dest name = Inr p \<longleftrightarrow>
     \<not> IsAbs name \<and> (case comps name of [] \<Rightarrow> True | c # _ \<Rightarrow> \<not> HasPrefix c ''..'') \<and>
     p = path_of (IsAbs dest) (comps dest @ comps name)"
proof -
  have "Join_path [dest, Clean name] = path_of (IsAbs dest) (comps dest @ comps name)" if "accepted_name name"
    using Join_path_clean [of dest name] IsAbs_joined [of name dest] that
      comps_Join_path [of name dest] accepted_no_dotdot [OF that]
    by (simp add: accepted_name_def)
  then show ?thesis
    by (auto simp: safeJoin_eq accepted_name_def)
qed

text \<open>
  C7: Whatever an archive holds and the operating system answers, extraction opens files for
  writing only at paths that lead from the destination downwards, and creates directories only
  there (or the destination's own parent); it never removes or chmods anything.
\<close>

theorem extraction_stays_below:
  "\<exists>acts. o_trace (snd (run_state (SafeExtract os archive dest) s)) = o_trace s @ acts \<and>
     list_all (contained dest) acts"
  by (rule performs_run) (rule SafeExtract_contained)

subsection \<open>Digests\<close>

text \<open>Operations that put something into the plugin cache.\<close>

definition installs :: "os_action \<Rightarrow> bool" where
  "installs a = (case a of OOpenFile p m \<Rightarrow> True | OMkdirAll p m \<Rightarrow> True | OChmod p m \<Rightarrow> True | _ \<Rightarrow> False)"

lemma installs_simps [simp]:
  "\<not> installs (OStat p)" "\<not> installs (OOpen p)" "\<not> installs (ORead h)" "\<not> installs (OClose h)"
  "\<not> installs (OWrite h d)" "\<not> installs (OCreateTemp p)" "\<not> installs (ORemove p)"
  "\<not> installs (ODownload u r)"
  by (simp_all add: installs_def)

definition digest_ok :: "'w os \<Rightarrow> string \<Rightarrow> reader \<Rightarrow> bool" where
  "digest_ok os want r \<longleftrightarrow> want = [] \<or> EqualFold want (os_sha256_hex os (rd_data r))"

lemma performed_anything: "state_io_rel (performs (contained dest)) m \<Longrightarrow> state_io_rel (performs (\<lambda>_. True)) m"
  by (erule performs_mono) simp

lemma performed_install: "state_io_rel (performs (\<lambda>_. True)) (install os src dir tmp)"
  unfolding install_def ResolveFilesystem_def fileSHA256_def Let_def
  by (intro performed performed_anything [OF SafeExtract_contained]) simp_all

lemma performed_fetch:
  "state_io_rel (performs (\<lambda>a. installs a \<longrightarrow> digest_ok os want r)) (fetch os src home want r tmp h)"
proof (cases "digest_ok os want r")
  case True
  then show ?thesis unfolding fetch_def Let_def
    by (intro performed) (auto intro: performs_mono [OF performed_install])
next
  case False
  then have "want \<noteq> [] \<and> \<not> EqualFold want (os_sha256_hex os (rd_data r))" by (simp add: digest_ok_def)
  then show ?thesis unfolding fetch_def Let_def
    by (simp only: if_True simp_thms) (intro performed; simp)
qed

text \<open>The digest of whatever was downloaded, whenever something is installed.\<close>

definition verified :: "'w os \<Rightarrow> string \<Rightarrow> os_action list \<Rightarrow> bool" where
  "verified os want acts \<longleftrightarrow>
     (list_ex installs acts \<longrightarrow> (\<exists>url r. ODownload url (Inr r) \<in> set acts \<and> digest_ok os want r))"

lemma cached_binary_reads: "state_io_rel (performs (\<lambda>a. \<not> installs a)) (cached_binary os src home want)"
  unfolding cached_binary_def Let_def by (intro performed) simp_all

lemma installing_fetch:
  "state_io_rel (performs (\<lambda>a. installs a \<longrightarrow> digest_ok os want r))
     (and_then (CreateTemp os d q) (\<lambda>(tmp, h). deferring (fetch os src home want r tmp h) (Remove os tmp)))"
  by (intro performed performed_fetch) simp_all

lemma performs_from:
  assumes "state_io_rel (performs P) m" and "run_state m s = (r, t)"
  obtains acts where "o_trace t = o_trace s @ acts" "list_all P acts"
  using performs_run [OF assms(1), of s] assms(2) by auto

lemma verified_append:
  assumes "list_all (\<lambda>a. \<not> installs a) xs" and "list_all (\<lambda>a. installs a \<longrightarrow> digest_ok os want r) ys"
  shows "verified os want xs" and "verified os want (xs @ ODownload url (Inr r) # ys)"
  using assms by (auto simp: verified_def list_all_iff list_ex_iff)

text \<open>
  C8: A GitHub release gets into the plugin cache only after it was downloaded in this call and
  its digest compared with the configured one: without a checksum any download is accepted, with
  one only a download that has it, whatever the server delivers and the operating system answers.
\<close>

theorem nothing_installed_unverified:
  "\<exists>acts. o_trace (snd (run_state (ResolveGitHub os src home d) s)) = o_trace s @ acts \<and>
     verified os (TrimPrefix (gs_Checksum src) ''sha256:'') acts"
proof -
  let ?want = "TrimPrefix (gs_Checksum src) ''sha256:''"
  let ?d = "case d of None \<Rightarrow> HTTPDownloader os | Some d \<Rightarrow> d"
  let ?url = "GitHubReleaseURL (gs_Repository src) (gs_Release src) (gs_Asset src)"
  obtain c s1 where c: "run_state (cached_binary os src home ?want) s = (c, s1)" by force
  obtain acts where acts: "o_trace s1 = o_trace s @ acts" "list_all (\<lambda>a. \<not> installs a) acts"
    using performs_from [OF cached_binary_reads c] .
  obtain r w where dl: "Download ?d ?url (o_world s1) = (r, w)" by force
  let ?s2 = "s1\<lparr>o_world := w, o_trace := o_trace s1 @ [ODownload ?url r]\<rparr>"
  show ?thesis
  proof (cases c)
    case (Some rp)
    with c acts verified_append [OF acts(2), where ys = "[]"] show ?thesis
      by (simp add: ResolveGitHub_def Let_def)
  next
    case None
    show ?thesis
    proof (cases r)
      case (Inl e)
      have "o_trace (snd (run_state (ResolveGitHub os src home d) s)) = o_trace s @ acts @ [ODownload ?url r]"
        using None c dl Inl acts(1) by (simp add: ResolveGitHub_def Let_def sys_def)
      with acts(2) Inl show ?thesis
        by (auto simp: verified_def list_all_iff list_ex_iff)
    next
      case (Inr body)
      let ?m = "and_then (CreateTemp os [] temp_pattern)
        (\<lambda>(tmp, h). deferring (fetch os src home ?want body tmp h) (Remove os tmp))"
      obtain later where later: "o_trace (snd (run_state ?m ?s2)) = o_trace ?s2 @ later"
        "list_all (\<lambda>a. installs a \<longrightarrow> digest_ok os ?want body) later"
        using performs_run [OF installing_fetch] by blast
      have "snd (run_state (ResolveGitHub os src home d) s) = snd (run_state ?m ?s2)"
        using None c dl Inr by (simp add: ResolveGitHub_def Let_def sys_def)
      then have "o_trace (snd (run_state (ResolveGitHub os src home d) s)) =
          o_trace s @ acts @ ODownload ?url (Inr body) # later"
        using later(1) acts(1) Inr by simp
      with verified_append(2) [OF acts(2) later(2)] show ?thesis by blast
    qed
  qed
qed

text \<open>
  A file is resolved exactly when it exists, is no directory, has an execute bit, can be read,
  and, when a checksum is configured, its content has that digest up to the case of the hex digits
  and an optional \<open>sha256:\<close> in front; the answer carries the path and the digest of what was read.
\<close>

theorem ResolveFilesystem_exact:
  "fst (run_state (ResolveFilesystem os path checksum) s) = Inr rp \<longleftrightarrow>
     (\<exists>mode h content w w' w''.
        os_Stat os path (o_world s) = (Inr mode, w) \<and> \<not> IsDir mode \<and> executable mode \<and>
        os_Open os path w = (Inr h, w') \<and> os_ReadAll os h w' = (Inr content, w'') \<and>
        (checksum = [] \<or> EqualFold (TrimPrefix checksum ''sha256:'') (os_sha256_hex os content)) \<and>
        rp = \<lparr>rp_Path = path, rp_SHA256 = os_sha256_hex os content\<rparr>)"
  by (auto simp: ResolveFilesystem_def fileSHA256_def wrapping_def deferring_def sys_defs sys_def
      split: prod.splits sum.splits)

text \<open>The temporary file has the name \<open>os.CreateTemp\<close> documents: a random number for the star.\<close>

definition temp_named :: "'w os \<Rightarrow> bool" where
  "temp_named os \<longleftrightarrow> (\<forall>w name h w'. os_CreateTemp os ([], temp_pattern) w = (Inr (name, h), w') \<longrightarrow>
     (\<exists>dir n. name = dir @ ''/llm-gateway-plugin-'' @ show_nat n))"

lemma show_nat_last: "last (show_nat n) = digit_char (n mod 10)"
  by (subst show_nat.simps) simp

lemma temp_not_zip: "\<not> HasSuffix (ToLower (w @ show_nat n)) ''.zip''"
proof
  assume "HasSuffix (ToLower (w @ show_nat n)) ''.zip''"
  then obtain u where "ToLower (w @ show_nat n) = u @ ''.zip''"
    unfolding HasSuffix_def by (metis append_take_drop_id)
  then have "last (ToLower (w @ show_nat n)) = CHR ''p''" by simp
  moreover have "last (ToLower (w @ show_nat n)) = to_lower_char (digit_char (n mod 10))"
    by (simp add: ToLower_def last_map show_nat_last)
  moreover have "to_lower_char (digit_char d) = digit_char d \<and> digit_char d \<noteq> CHR ''p''" if "d < 10" for d
    using that by (auto simp: to_lower_char_def digit_char_def char_of_eq_iff take_bit_eq_mod)
  ultimately show False by (metis mod_less_divisor zero_less_numeral)
qed

definition no_unzip :: "os_action \<Rightarrow> bool" where
  "no_unzip a = (case a of OZipOpen p \<Rightarrow> False | _ \<Rightarrow> True)"

lemma no_unzip_simps [simp]:
  "no_unzip (OStat p)" "no_unzip (OOpen p)" "no_unzip (ORead h)" "no_unzip (OClose h)"
  "no_unzip (OMkdirAll p m)" "no_unzip (OOpenFile p m)" "no_unzip (OWrite h d)"
  "no_unzip (OCreateTemp p)" "no_unzip (ORemove p)" "no_unzip (OChmod p m)"
  "no_unzip (ODownload u r)" "no_unzip (OTarOpen h)"
  by (simp_all add: no_unzip_def)

lemma tar_loop_no_unzip: "state_io_rel (performs no_unzip) (tar_loop os dest hs final)"
proof (induction hs)
  case (Cons h hs)
  then show ?case
    by (cases "safeJoin dest (te_Name h)") (auto intro!: performed performed_write_out)
qed (auto intro!: performed split: option.splits)

lemma fetch_no_unzip:
  assumes "\<not> HasSuffix (ToLower tmp) ''.zip''"
  shows "state_io_rel (performs no_unzip) (fetch os src home want r tmp h)"
  unfolding fetch_def install_def SafeExtract_def safeExtractTarGz_def ResolveFilesystem_def fileSHA256_def Let_def
  using assms by (simp only: if_False) (intro performed tar_loop_no_unzip; simp)

lemma CreateTemp_then:
  assumes "temp_named os"
    and "\<And>tmp h. \<not> HasSuffix (ToLower tmp) ''.zip'' \<Longrightarrow> state_io_rel (performs no_unzip) (k (tmp, h))"
  shows "state_io_rel (performs no_unzip) (and_then (CreateTemp os [] temp_pattern) k)"
proof (rule state_io_relI)
  fix s a t
  assume run: "run_state (and_then (CreateTemp os [] temp_pattern) k) s = (a, t)"
  obtain r u where r: "run_state (CreateTemp os [] temp_pattern) s = (r, u)" by force
  have first: "performs no_unzip s u"
    using op.keeps_run [OF _ r] by (intro op.keeps_run [OF _ r] performed) simp
  show "performs no_unzip s t"
  proof (cases r)
    case (Inl e)
    with run r first show ?thesis by simp
  next
    case (Inr x)
    obtain tmp h where x: "x = (tmp, h)" by force
    from r Inr x have "\<exists>w'. os_CreateTemp os ([], temp_pattern) (o_world s) = (Inr (tmp, h), w')"
      by (auto simp: CreateTemp_def sys_def split: prod.splits)
    with assms(1) obtain dir n where "tmp = (dir @ ''/llm-gateway-plugin-'') @ show_nat n"
      unfolding temp_named_def by (metis append.assoc)
    then have "\<not> HasSuffix (ToLower tmp) ''.zip''" by (metis temp_not_zip)
    from op.keeps_run [OF assms(2) [OF this]] run r Inr x first show ?thesis
      by (simp add: op.R_trans)
  qed
qed

text \<open>
  With the names \<open>os.CreateTemp\<close> gives, a downloaded asset is never opened as a zip archive:
  the temporary file never ends in \<open>.zip\<close>, so a release asset that is a zip file is read as a
  gzipped tar archive.
\<close>

theorem downloads_never_unzipped:
  assumes "temp_named os"
  shows "\<exists>acts. o_trace (snd (run_state (ResolveGitHub os src home d) s)) = o_trace s @ acts \<and>
     list_all no_unzip acts"
proof (rule performs_run)
  let ?want = "TrimPrefix (gs_Checksum src) ''sha256:''"
  have cached: "state_io_rel (performs no_unzip) (cached_binary os src home ?want)"
    unfolding cached_binary_def Let_def by (intro performed) simp_all
  have rest: "state_io_rel (performs no_unzip) (and_then (CreateTemp os [] temp_pattern)
      (\<lambda>(tmp, h). deferring (fetch os src home ?want r tmp h) (Remove os tmp)))" for r
    by (rule CreateTemp_then [OF assms]) (simp add: performed fetch_no_unzip)
  show "state_io_rel (performs no_unzip) (ResolveGitHub os src home d)"
    unfolding ResolveGitHub_def Let_def
    by (rule op.keeps_bind [OF cached], rule op.keeps_option,
        rule op.keeps_and_then [OF performed_sys rest]) (simp_all add: performed)
qed

end
