(* ===== verification/Process.thy ===== *)
theory Process
  imports SourcesProps
begin

text \<open>
  The operating system process of a plugin (\<open>internal/plugins/process.go\<close>): launching it with the
  path of the socket it is to serve, waiting for that socket, and stopping it.

  Launching, the clock, dialling and waiting are outside the repository. \<open>px_Sleep\<close> is the select
  between the context and 50 milliseconds of time, \<open>px_Wait\<close> the select of \<open>Stop\<close> between the
  context, three seconds, and the end of the process.
\<close>

type_synonym pid = nat

datatype stop_event =
    Context_done goerr
  | Timed_out
  | Exited "goerr option"

record 'w px =
  px_Now :: "'w \<Rightarrow> int \<times> 'w"
  px_Deadline :: "int option"
  px_Launch :: "('w, string \<times> string list, pid) answering"
  px_DialSocket :: "('w, string, unit) answering"
  px_Sleep :: "('w, unit, unit) answering"
  px_Interrupt :: "('w, pid, unit) answering"
  px_Kill :: "('w, pid, unit) answering"
  px_Wait :: "pid \<Rightarrow> 'w \<Rightarrow> stop_event \<times> 'w"

record Process =
  pr_Name :: string
  pr_Path :: string
  pr_Socket :: string
  pr_cmd :: "pid option"
  pr_launches :: int

definition NewProcess :: "string \<Rightarrow> string \<Rightarrow> Process" where
  "NewProcess name path =
     \<lparr>pr_Name = name, pr_Path = path, pr_Socket = [], pr_cmd = None, pr_launches = 0\<rparr>"

definition LaunchCount :: "Process \<Rightarrow> int" where
  "LaunchCount p = pr_launches p"

subsection \<open>Waiting for the socket\<close>

definition record_op :: "os_action \<Rightarrow> 'w \<Rightarrow> 'w ostate \<Rightarrow> 'w ostate" where
  "record_op a w s = s\<lparr>o_world := w, o_trace := o_trace s @ [a]\<rparr>"

text \<open>
  The polling loop of \<open>Start\<close>: \<open>None\<close> when it does not end, otherwise an error of the context, or
  whether the socket answered before the deadline.
\<close>

partial_function (option) wait_socket ::
  "'w px \<Rightarrow> string \<Rightarrow> int \<Rightarrow> 'w ostate \<Rightarrow> ((goerr + bool) \<times> 'w ostate) option" where
  "wait_socket px socket deadline s =
     (case px_Now px (o_world s) of (t, w) \<Rightarrow>
        if deadline \<le> t then Some (Inr False, s\<lparr>o_world := w\<rparr>)
        else (case px_DialSocket px socket w of
            (Inr _, w) \<Rightarrow> Some (Inr True, record_op (ODialSocket socket) w s)
          | (Inl _, w) \<Rightarrow>
              (case px_Sleep px () w of
                 (Inl err, w) \<Rightarrow> Some (Inl err, record_op (ODialSocket socket) w s)
               | (Inr _, w) \<Rightarrow> wait_socket px socket deadline (record_op (ODialSocket socket) w s))))"

subsection \<open>Start\<close>

definition default_wait :: int where
  "default_wait = 5 * 1000000000"

definition socket_dir :: "'w os \<Rightarrow> 'w \<Rightarrow> string" where
  "socket_dir os w = Join_path [os_TempDir os w, ''llm-gateway'', ''plugins'']"

definition plugin_env :: "'w os \<Rightarrow> 'w \<Rightarrow> Process \<Rightarrow> string list" where
  "plugin_env os w p =
     [''PATH='' @ os_Getenv os w ''PATH'', ''GATEWAY_PLUGIN_SOCKET='' @ pr_Socket p,
      ''GATEWAY_PLUGIN_INSTANCE='' @ pr_Name p, ''GATEWAY_PLUGIN_PROTOCOL_VERSION=1'']"

definition unix_nano :: "'w px \<Rightarrow> ('w ostate, int) state" where
  "unix_nano px = State (\<lambda>s. case px_Now px (o_world s) of (t, w) \<Rightarrow> (t, s\<lparr>o_world := w\<rparr>))"

text \<open>Up to the launch: the process with its socket and command.\<close>

definition launch :: "'w os \<Rightarrow> 'w px \<Rightarrow> Process \<Rightarrow> ('w, Process) oexec" where
  "launch os px p =
     do { dir \<leftarrow> reads (\<lambda>s. socket_dir os (o_world s));
          and_then (MkdirAll os dir rwxr_xr_x) (\<lambda>_.
            do { t \<leftarrow> unix_nano px;
                 let p = p\<lparr>pr_Socket := Join_path [dir, pr_Name p @ ''-'' @ show_int t @ ''.sock'']\<rparr>;
                 _ \<leftarrow> Remove os (pr_Socket p);
                 env \<leftarrow> reads (\<lambda>s. plugin_env os (o_world s) p);
                 and_then (wrapping (''start plugin '' @ pr_Name p @ '': '')
                     (sys (\<lambda>(path, env) _. OLaunch path env) (px_Launch px) (pr_Path p, env)))
                   (\<lambda>pid. done_with (p\<lparr>pr_cmd := Some pid, pr_launches := pr_launches p + 1\<rparr>)) }) }"

definition no_socket :: "Process \<Rightarrow> goerr" where
  "no_socket p = EText (''plugin '' @ pr_Name p @ '' did not create socket '' @ pr_Socket p)"

definition Start_process :: "'w os \<Rightarrow> 'w px \<Rightarrow> Process \<Rightarrow> 'w ostate \<Rightarrow> ((goerr + Process) \<times> 'w ostate) option" where
  "Start_process os px p s =
     (case run_state (launch os px p) s of
        (Inl err, s) \<Rightarrow> Some (Inl err, s)
      | (Inr p, s) \<Rightarrow>
          (let (deadline, s) = (case px_Deadline px of
                 Some d \<Rightarrow> (d, s)
               | None \<Rightarrow> (case run_state (unix_nano px) s of (t, s) \<Rightarrow> (t + default_wait, s)))
           in case wait_socket px (pr_Socket p) deadline s of
                None \<Rightarrow> None
              | Some (Inl err, s) \<Rightarrow> Some (Inl err, s)
              | Some (Inr connected, s) \<Rightarrow> Some (if connected then Inr p else Inl (no_socket p), s)))"

subsection \<open>Stop\<close>

definition Stop_process :: "'w px \<Rightarrow> Process \<Rightarrow> ('w, unit) oexec" where
  "Stop_process px p =
     (case pr_cmd p of
        None \<Rightarrow> done_with ()
      | Some pid \<Rightarrow>
          do { _ \<leftarrow> sys (\<lambda>pid _. OInterrupt pid) (px_Interrupt px) pid;
               ev \<leftarrow> State (\<lambda>s. case px_Wait px pid (o_world s) of (e, w) \<Rightarrow> (e, s\<lparr>o_world := w\<rparr>));
               case ev of
                 Context_done err \<Rightarrow> do { _ \<leftarrow> sys (\<lambda>pid _. OKill pid) (px_Kill px) pid; raise err }
               | Timed_out \<Rightarrow> do { _ \<leftarrow> sys (\<lambda>pid _. OKill pid) (px_Kill px) pid; done_with () }
               | Exited None \<Rightarrow> done_with ()
               | Exited (Some err) \<Rightarrow> raise err })"

subsection \<open>Termination\<close>

text \<open>The clock does not go back, and a sleep that ends without the context takes time.\<close>

definition clock_advances :: "'w px \<Rightarrow> bool" where
  "clock_advances px \<longleftrightarrow>
     (\<forall>w. fst (px_Now px w) \<le> fst (px_Now px (snd (px_Now px w)))) \<and>
     (\<forall>w socket. fst (px_Now px w) \<le> fst (px_Now px (snd (px_DialSocket px socket w)))) \<and>
     (\<forall>w. isl (fst (px_Sleep px () w)) \<or> fst (px_Now px w) < fst (px_Now px (snd (px_Sleep px () w))))"

lemma wait_socket_ends:
  assumes adv: "clock_advances px"
  shows "\<exists>r. wait_socket px socket deadline s = Some r"
proof (induction "nat (deadline - fst (px_Now px (o_world s)))" arbitrary: s rule: less_induct)
  case less
  obtain t w where now: "px_Now px (o_world s) = (t, w)" by force
  obtain r w1 where dial: "px_DialSocket px socket w = (r, w1)" by force
  obtain q w2 where sleep: "px_Sleep px () w1 = (q, w2)" by force
  have "t \<le> fst (px_Now px w)" using adv now unfolding clock_advances_def by (metis fst_conv snd_conv)
  also have "\<dots> \<le> fst (px_Now px w1)" using adv dial unfolding clock_advances_def by (metis snd_conv)
  finally have le: "t \<le> fst (px_Now px w1)" .
  show ?case
  proof (cases "t < deadline \<and> isl r \<and> \<not> isl q")
    case False
    then show ?thesis using now dial sleep
      by (subst wait_socket.simps) (auto split: sum.splits)
  next
    case True
    then have "fst (px_Now px w1) < fst (px_Now px w2)"
      using adv sleep unfolding clock_advances_def by (metis fst_conv snd_conv)
    with le True have "nat (deadline - fst (px_Now px w2)) < nat (deadline - t)" by simp
    with less [of "record_op (ODialSocket socket) w2 s"] now
    obtain x where "wait_socket px socket deadline (record_op (ODialSocket socket) w2 s) = Some x"
      by (auto simp: record_op_def)
    with True show ?thesis using now dial sleep
      by (subst wait_socket.simps) (auto split: sum.splits)
  qed
qed

text \<open>
  C38: When the clock advances, waiting for the socket of a plugin comes to an end: the process has
  answered, the context has ended, or the deadline has passed. So \<open>Start\<close> always returns.
\<close>

theorem Start_returns:
  assumes "clock_advances px"
  shows "\<exists>r t. Start_process os px p s = Some (r, t)"
proof -
  from wait_socket_ends [OF assms]
  have "\<exists>r t. wait_socket px socket deadline s = Some (r, t)" for socket deadline s
    by (metis surj_pair)
  then show ?thesis
    by (auto simp: Start_process_def split: sum.splits prod.splits option.splits)
      (metis option.distinct(1))+
qed

end
