(* ===== verification/Secrets.thy ===== *)
theory Secrets
  imports Capabilities
begin

text \<open>
  Secret references in plugin configurations (\<open>internal/secrets/provider.go\<close>): a string value of
  the form \<open>${secret:NAME}\<close> is replaced by the secret, provided the plugin's metadata declares the
  name. A Go map is an association list in the order Go iterates over it.
\<close>

subsection \<open>Trimming\<close>

text \<open>
  \<open>strings.TrimSpace\<close> on UTF-8 bytes: the ASCII spaces, and the encodings of the other runes
  \<open>unicode.IsSpace\<close> accepts.
\<close>

definition space_runes :: "string list" where
  "space_runes = map (map char_of)
     ([[9], [10], [11], [12], [13], [32], [194, 133], [194, 160], [225, 154, 128], [226, 128, 168],
       [226, 128, 169], [226, 128, 175], [226, 129, 159], [227, 128, 128]]
      @ map (\<lambda>n. [226, 128, 128 + n]) [0::nat, 1, 2, 3, 4, 5, 6, 7, 8, 9, 10])"

definition leading_space :: "string \<Rightarrow> nat" where
  "leading_space s = (case List.find (HasPrefix s) space_runes of None \<Rightarrow> 0 | Some r \<Rightarrow> length r)"

definition trailing_space :: "string \<Rightarrow> nat" where
  "trailing_space s = (case List.find (HasSuffix s) space_runes of None \<Rightarrow> 0 | Some r \<Rightarrow> length r)"

lemma leading_space_le: "leading_space s \<le> length s"
  by (auto simp: leading_space_def HasPrefix_iff find_Some_iff split: option.splits)

lemma trailing_space_le: "trailing_space s \<le> length s"
  by (auto simp: trailing_space_def HasSuffix_def find_Some_iff split: option.splits)

function TrimLeft :: "string \<Rightarrow> string" where
  "TrimLeft s = (if leading_space s = 0 then s else TrimLeft (drop (leading_space s) s))"
  by pat_completeness auto
termination
proof (relation "measure length")
  fix s :: string
  assume "leading_space s \<noteq> 0"
  with leading_space_le [of s] show "(drop (leading_space s) s, s) \<in> measure length" by auto
qed simp

function TrimRight :: "string \<Rightarrow> string" where
  "TrimRight s = (if trailing_space s = 0 then s else TrimRight (take (length s - trailing_space s) s))"
  by pat_completeness auto
termination
proof (relation "measure length")
  fix s :: string
  assume "trailing_space s \<noteq> 0"
  with trailing_space_le [of s] show "(take (length s - trailing_space s) s, s) \<in> measure length" by auto
qed simp

declare TrimLeft.simps [simp del] TrimRight.simps [simp del]

definition TrimSpace :: "string \<Rightarrow> string" where
  "TrimSpace s = TrimRight (TrimLeft s)"

subsection \<open>References\<close>

text \<open>The regular expression \<open>^\$\{secret:([A-Za-z0-9_./-]+)\}$\<close>.\<close>

definition ref_prefix :: string where
  "ref_prefix = ''${secret:''"

definition name_char :: "char \<Rightarrow> bool" where
  "name_char c \<longleftrightarrow> between 65 c 90 \<or> between 97 c 122 \<or> between 48 c 57 \<or> c \<in> set ''_./-''"

definition IsSecretRef :: "string \<Rightarrow> string option" where
  "IsSecretRef s =
     (let n = butlast (drop (length ref_prefix) s)
      in if HasPrefix s ref_prefix \<and> HasSuffix s ''}'' \<and> n \<noteq> [] \<and> list_all name_char n
         then Some n else None)"

subsection \<open>Providers\<close>

record Provider =
  Resolve :: "string \<Rightarrow> goerr + string"

record EnvProvider =
  ep_Enabled :: bool

text \<open>\<open>environ\<close> is the environment of the process, read by \<open>os.LookupEnv\<close>.\<close>

definition EnvProvider_Resolve :: "(string \<Rightarrow> string option) \<Rightarrow> EnvProvider \<Rightarrow> string \<Rightarrow> goerr + string" where
  "EnvProvider_Resolve environ p name =
     (if \<not> ep_Enabled p then Inl (EText ''environment secrets disabled'')
      else case environ name of
        None \<Rightarrow> Inl (EText (''secret '' @ name @ '' not found in environment''))
      | Some v \<Rightarrow> Inr v)"

subsection \<open>Resolution\<close>

type_synonym found_secrets = "(string, string) fmap"

text \<open>
  The recursion over the value; the map of the secrets found so far is threaded through it and
  kept as it is when an error ends the recursion.
\<close>

definition resolve_string ::
  "(string, bool) fmap \<Rightarrow> Provider \<Rightarrow> string \<Rightarrow> found_secrets \<Rightarrow> (goerr + any) \<times> found_secrets" where
  "resolve_string allowed p x secrets =
     (case IsSecretRef (TrimSpace x) of
        None \<Rightarrow> (Inr (AString x), secrets)
      | Some name \<Rightarrow>
          if \<not> lookup_or False allowed name
          then (Inl (EText (''secret '' @ name @ '' not permitted for plugin'')), secrets)
          else case Resolve p name of
            Inl err \<Rightarrow> (Inl err, secrets)
          | Inr val \<Rightarrow> (Inr (AString val), fmupd name val secrets))"

fun resolveValue ::
    "(string, bool) fmap \<Rightarrow> Provider \<Rightarrow> any \<Rightarrow> found_secrets \<Rightarrow> (goerr + any) \<times> found_secrets"
  and resolve_entries ::
    "(string, bool) fmap \<Rightarrow> Provider \<Rightarrow> (string \<times> any) list \<Rightarrow> found_secrets
       \<Rightarrow> (goerr + (string \<times> any) list) \<times> found_secrets"
  and resolve_elements ::
    "(string, bool) fmap \<Rightarrow> Provider \<Rightarrow> any list \<Rightarrow> found_secrets
       \<Rightarrow> (goerr + any list) \<times> found_secrets" where
  "resolveValue allowed p (AMap kvs) secrets =
     (case resolve_entries allowed p kvs secrets of
        (Inl err, s) \<Rightarrow> (Inl err, s) | (Inr out, s) \<Rightarrow> (Inr (AMap out), s))"
| "resolveValue allowed p (ASlice vs) secrets =
     (case resolve_elements allowed p vs secrets of
        (Inl err, s) \<Rightarrow> (Inl err, s) | (Inr out, s) \<Rightarrow> (Inr (ASlice out), s))"
| "resolveValue allowed p (AString x) secrets = resolve_string allowed p x secrets"
| "resolveValue allowed p ANil secrets = (Inr ANil, secrets)"
| "resolveValue allowed p (ABool b) secrets = (Inr (ABool b), secrets)"
| "resolveValue allowed p (AInt i) secrets = (Inr (AInt i), secrets)"
| "resolveValue allowed p (AFloat f) secrets = (Inr (AFloat f), secrets)"
| "resolve_entries allowed p [] secrets = (Inr [], secrets)"
| "resolve_entries allowed p ((k, v) # kvs) secrets =
     (case resolveValue allowed p v secrets of
        (Inl err, s) \<Rightarrow> (Inl err, s)
      | (Inr r, s) \<Rightarrow>
          (case resolve_entries allowed p kvs s of
             (Inl err, s) \<Rightarrow> (Inl err, s) | (Inr out, s) \<Rightarrow> (Inr ((k, r) # out), s)))"
| "resolve_elements allowed p [] secrets = (Inr [], secrets)"
| "resolve_elements allowed p (v # vs) secrets =
     (case resolveValue allowed p v secrets of
        (Inl err, s) \<Rightarrow> (Inl err, s)
      | (Inr r, s) \<Rightarrow>
          (case resolve_elements allowed p vs s of
             (Inl err, s) \<Rightarrow> (Inl err, s) | (Inr out, s) \<Rightarrow> (Inr (r # out), s)))"

definition permitted_map :: "string list \<Rightarrow> (string, bool) fmap" where
  "permitted_map permitted = fold (\<lambda>name m. fmupd name True m) permitted fmempty"

text \<open>The type assertion \<open>out.(map[string]any)\<close> gives the nil map for any other value.\<close>

definition as_map :: "any \<Rightarrow> (string \<times> any) list" where
  "as_map v = (case v of AMap kvs \<Rightarrow> kvs | _ \<Rightarrow> [])"

definition ResolvePluginSecrets ::
  "(string \<times> any) list \<Rightarrow> string list \<Rightarrow> Provider \<Rightarrow> goerr + (string \<times> any) list \<times> found_secrets" where
  "ResolvePluginSecrets config permitted p =
     (case resolveValue (permitted_map permitted) p (AMap config) fmempty of
        (Inl err, _) \<Rightarrow> Inl err
      | (Inr out, secrets) \<Rightarrow> Inr (as_map out, secrets))"

subsection \<open>What a resolution amounts to\<close>

text \<open>
  The names a configuration refers to, in the order of the traversal, and the configuration with
  every reference replaced.
\<close>

definition string_refs :: "string \<Rightarrow> string list" where
  "string_refs x = (case IsSecretRef (TrimSpace x) of None \<Rightarrow> [] | Some name \<Rightarrow> [name])"

fun secret_refs :: "any \<Rightarrow> string list" where
  "secret_refs (AString x) = string_refs x"
| "secret_refs (ASlice vs) = concat (map secret_refs vs)"
| "secret_refs (AMap kvs) = concat (map (\<lambda>kv. secret_refs (snd kv)) kvs)"
| "secret_refs _ = []"

definition secret_of :: "Provider \<Rightarrow> string \<Rightarrow> string" where
  "secret_of p name = (case Resolve p name of Inl e \<Rightarrow> [] | Inr v \<Rightarrow> v)"

definition knows :: "Provider \<Rightarrow> string \<Rightarrow> bool" where
  "knows p name \<longleftrightarrow> \<not> isl (Resolve p name)"

fun subst_secrets :: "Provider \<Rightarrow> any \<Rightarrow> any" where
  "subst_secrets p (AString x) =
     (case IsSecretRef (TrimSpace x) of None \<Rightarrow> AString x | Some name \<Rightarrow> AString (secret_of p name))"
| "subst_secrets p (ASlice vs) = ASlice (map (subst_secrets p) vs)"
| "subst_secrets p (AMap kvs) = AMap (map (\<lambda>kv. (fst kv, subst_secrets p (snd kv))) kvs)"
| "subst_secrets p v = v"

text \<open>The traversal asks for the names one after the other and stops at the first it cannot have.\<close>

definition ask :: "(string, bool) fmap \<Rightarrow> Provider \<Rightarrow> string \<Rightarrow> goerr + string" where
  "ask allowed p name =
     (if \<not> lookup_or False allowed name
      then Inl (EText (''secret '' @ name @ '' not permitted for plugin''))
      else Resolve p name)"

fun ask_all ::
  "(string, bool) fmap \<Rightarrow> Provider \<Rightarrow> string list \<Rightarrow> found_secrets \<Rightarrow> goerr option \<times> found_secrets" where
  "ask_all allowed p [] s = (None, s)"
| "ask_all allowed p (n # ns) s =
     (case ask allowed p n of Inl e \<Rightarrow> (Some e, s) | Inr v \<Rightarrow> ask_all allowed p ns (fmupd n v s))"

lemma ask_all_append:
  "ask_all allowed p (xs @ ys) s =
     (case ask_all allowed p xs s of (Some e, t) \<Rightarrow> (Some e, t) | (None, t) \<Rightarrow> ask_all allowed p ys t)"
  by (induction xs arbitrary: s) (auto split: sum.splits)

lemma resolveValue_asks:
  "resolveValue allowed p v s = (case ask_all allowed p (secret_refs v) s of
      (Some e, t) \<Rightarrow> (Inl e, t) | (None, t) \<Rightarrow> (Inr (subst_secrets p v), t))"
  "resolve_entries allowed p kvs s = (case ask_all allowed p (secret_refs (AMap kvs)) s of
      (Some e, t) \<Rightarrow> (Inl e, t)
    | (None, t) \<Rightarrow> (Inr (map (\<lambda>kv. (fst kv, subst_secrets p (snd kv))) kvs), t))"
  "resolve_elements allowed p vs s = (case ask_all allowed p (secret_refs (ASlice vs)) s of
      (Some e, t) \<Rightarrow> (Inl e, t) | (None, t) \<Rightarrow> (Inr (map (subst_secrets p) vs), t))"
proof (induction allowed p v s and allowed p kvs s and allowed p vs s
    rule: resolveValue_resolve_entries_resolve_elements.induct)
  case (3 allowed p x s)
  then show ?case
    by (auto simp: resolve_string_def string_refs_def ask_def secret_of_def split: option.splits sum.splits)
qed (auto simp: ask_all_append split: prod.splits option.splits sum.splits)

lemma permitted_map_lookup [simp]: "lookup_or False (permitted_map permitted) n \<longleftrightarrow> n \<in> set permitted"
proof -
  have "lookup_or False (fold (\<lambda>name m. fmupd name True m) ns m) n \<longleftrightarrow> n \<in> set ns \<or> lookup_or False m n" for ns m
    by (induction ns arbitrary: m) auto
  then show ?thesis by (simp add: permitted_map_def)
qed

lemma ask_all_None:
  "ask_all (permitted_map permitted) p ns s = (None, t) \<longleftrightarrow>
     list_all (\<lambda>n. n \<in> set permitted \<and> knows p n) ns \<and>
     t = s ++\<^sub>f fmap_of_list (rev (map (\<lambda>n. (n, secret_of p n)) ns))"
proof (induction ns arbitrary: s)
  case (Cons n ns)
  have "fmupd n v s ++\<^sub>f m = s ++\<^sub>f (fmupd n v fmempty ++\<^sub>f m)" for v m
    by (rule fmap_ext) (simp add: fmlookup_dom_iff)
  moreover have "fmap_of_list (xs @ [(n, v)]) = fmupd n v fmempty ++\<^sub>f fmap_of_list xs" for v xs
    by (rule fmap_ext) (auto simp: fmlookup_of_list fmlookup_dom_iff map_add_def split: option.splits)
  ultimately show ?case using Cons.IH
    by (cases "Resolve p n") (auto simp: ask_def secret_of_def knows_def)
qed auto

lemma ask_all_cong:
  "(\<And>n. n \<in> set permitted \<Longrightarrow> Resolve p n = Resolve q n) \<Longrightarrow>
     ask_all (permitted_map permitted) p ns s = ask_all (permitted_map permitted) q ns s"
  by (induction ns arbitrary: s) (auto simp: ask_def split: sum.splits)

lemma subst_secrets_cong:
  "(\<And>n. n \<in> set (secret_refs v) \<Longrightarrow> Resolve p n = Resolve q n) \<Longrightarrow> subst_secrets p v = subst_secrets q v"
  by (induction v) (fastforce simp: string_refs_def secret_of_def split: option.splits)+

lemma as_map_subst: "as_map (subst_secrets p (AMap config)) = m \<longleftrightarrow> subst_secrets p (AMap config) = AMap m"
  by (simp add: as_map_def)

lemma ResolvePluginSecrets_asks:
  "ResolvePluginSecrets config permitted p =
     (case ask_all (permitted_map permitted) p (secret_refs (AMap config)) fmempty of
        (Some e, t) \<Rightarrow> Inl e | (None, t) \<Rightarrow> Inr (as_map (subst_secrets p (AMap config)), t))"
  by (simp add: ResolvePluginSecrets_def resolveValue_asks del: resolveValue.simps secret_refs.simps
      subst_secrets.simps split: prod.splits option.splits)

subsection \<open>Properties\<close>

text \<open>
  A string is a secret reference exactly when it is \<open>${secret:NAME}\<close> with a non-empty name
  of letters, digits and \<open>_./-\<close>, and the name read off it is that NAME: formatting a name and
  reading it back is the identity.
\<close>

theorem secret_ref_roundtrip:
  "IsSecretRef s = Some n \<longleftrightarrow> s = ref_prefix @ n @ ''}'' \<and> n \<noteq> [] \<and> list_all name_char n"
proof -
  have "s = ref_prefix @ n @ ''}'' \<longleftrightarrow>
      n = butlast (drop (length ref_prefix) s) \<and> HasPrefix s ref_prefix \<and> HasSuffix s ''}''"
    if "n \<noteq> []"
  proof
    assume r: "n = butlast (drop (length ref_prefix) s) \<and> HasPrefix s ref_prefix \<and> HasSuffix s ''}''"
    then obtain u where u: "s = ref_prefix @ u" by (auto simp: HasPrefix_iff)
    from r u that have "u \<noteq> []" by auto
    then obtain w c where "u = w @ [c]" by (cases u rule: rev_cases) auto
    with r u have "last u = CHR ''}''" by (simp add: HasSuffix_def)
    with \<open>u \<noteq> []\<close> show "s = ref_prefix @ n @ ''}''"
      using r u \<open>u \<noteq> []\<close> by simp (metis append_butlast_last_id)
  qed (auto simp: HasSuffix_def butlast_append)
  then show ?thesis by (auto simp: IsSecretRef_def Let_def)
qed

text \<open>
  Resolution succeeds exactly when every secret the configuration refers to is declared by
  the plugin and known to the provider; then the configuration is the given one with every
  reference replaced, values of other kinds and other strings untouched, and the secrets handed
  over are those that were referred to.
\<close>

theorem ResolvePluginSecrets_exact:
  "ResolvePluginSecrets config permitted p = Inr (m, secrets) \<longleftrightarrow>
     list_all (\<lambda>n. n \<in> set permitted \<and> knows p n) (secret_refs (AMap config)) \<and>
     subst_secrets p (AMap config) = AMap m \<and>
     secrets = fmap_of_list (rev (map (\<lambda>n. (n, secret_of p n)) (secret_refs (AMap config))))"
proof -
  have "ResolvePluginSecrets config permitted p = Inr (m, secrets) \<longleftrightarrow>
      ask_all (permitted_map permitted) p (secret_refs (AMap config)) fmempty = (None, secrets) \<and>
      subst_secrets p (AMap config) = AMap m"
    unfolding ResolvePluginSecrets_asks as_map_subst [symmetric] by (auto split: prod.splits option.splits)
  then show ?thesis unfolding ask_all_None by auto
qed

text \<open>
  C9: A plugin learns nothing about a secret it does not declare: two providers that agree on
  the declared names give the same answer, the same error included. Only declared names occur
  among the secrets handed over.
\<close>

theorem undeclared_secrets_stay_hidden:
  assumes "list_all (\<lambda>n. Resolve p n = Resolve q n) permitted"
  shows "ResolvePluginSecrets config permitted p = ResolvePluginSecrets config permitted q \<and>
     (case ResolvePluginSecrets config permitted p of
        Inl e \<Rightarrow> True | Inr (m, secrets) \<Rightarrow> fset (fmdom secrets) \<subseteq> set permitted)"
proof -
  let ?asked = "\<lambda>p. ask_all (permitted_map permitted) p (secret_refs (AMap config)) fmempty"
  have agree: "\<And>n. n \<in> set permitted \<Longrightarrow> Resolve p n = Resolve q n"
    using assms by (auto simp: list_all_iff)
  have "subst_secrets p (AMap config) = subst_secrets q (AMap config)" if "?asked p = (None, t)" for t
    using that agree unfolding ask_all_None by (intro subst_secrets_cong) (auto simp: list_all_iff)
  moreover have asked: "?asked q = ?asked p" by (rule ask_all_cong) (simp add: agree)
  ultimately have "ResolvePluginSecrets config permitted p = ResolvePluginSecrets config permitted q"
    unfolding ResolvePluginSecrets_asks asked
    by (cases "?asked p" rule: prod.exhaust; cases "fst (?asked p)")
      (simp_all del: secret_refs.simps subst_secrets.simps)
  moreover have "fset (fmdom secrets) \<subseteq> set permitted" if "?asked p = (None, secrets)" for secrets
    using that unfolding ask_all_None
    by (force simp: list_all_iff fmdom_of_list fset_of_list.rep_eq)
  ultimately show ?thesis
    unfolding ResolvePluginSecrets_asks by (auto split: prod.splits option.splits)
qed

end
