(* ===== verification/Manager.thy ===== *)
theory Manager
  imports Process Rpc Secrets
begin

text \<open>
  The plugin manager (\<open>internal/plugins/manager.go\<close>): every configured plugin is resolved, launched,
  dialled, checked, configured and registered, one after the other, and the first failure ends it.

  The state joins what the parts act on: the world, the history of operating system operations, the
  clients and the manager's own maps. The JSON schema validator is a third-party package and a
  parameter; so is the JSON decoder it is fed from.
\<close>

record Manager =
  mn_cfg :: "PluginConfig list"
  mn_secretProvider :: Provider

record 'w mstate =
  ms_world :: 'w
  ms_trace :: "os_action list"
  ms_conns :: "RPCPluginClient list"
  ms_registry :: "'w rworld Registry"
  ms_processes :: "(string, Process) fmap"
  ms_clients :: "(string, client) fmap"

text \<open>A step fails with an error, or never returns.\<close>

datatype start_halt =
    Start_failed goerr
  | Hangs

type_synonym ('w, 'a) mexec = "('w mstate, start_halt, 'a) prog"

text \<open>The outside: operating system, processes, network and the schema validator.\<close>

record 'w outside =
  ou_os :: "'w os"
  ou_px :: "'w px"
  ou_net :: "'w net"
  ou_fuel :: nat
  ou_parse_json :: "string \<Rightarrow> goerr + any"
  ou_compile_schema :: "any \<Rightarrow> goerr + (any \<Rightarrow> goerr + unit)"

definition NewManager :: "PluginConfig list \<Rightarrow> Provider \<Rightarrow> Manager" where
  "NewManager cfg sp = \<lparr>mn_cfg = cfg, mn_secretProvider = sp\<rparr>"

definition initial_mstate :: "'w \<Rightarrow> 'w mstate" where
  "initial_mstate w = \<lparr>ms_world = w, ms_trace = [], ms_conns = [], ms_registry = NewRegistry,
     ms_processes = fmempty, ms_clients = fmempty\<rparr>"

subsection \<open>Steps of the parts\<close>

definition put_ostate :: "'w ostate \<Rightarrow> 'w mstate \<Rightarrow> 'w mstate" where
  "put_ostate q s = s\<lparr>ms_world := o_world q, ms_trace := o_trace q\<rparr>"

definition get_ostate :: "'w mstate \<Rightarrow> 'w ostate" where
  "get_ostate s = \<lparr>o_world = ms_world s, o_trace = ms_trace s\<rparr>"

definition mfail :: "goerr \<Rightarrow> ('w, 'a) mexec" where
  "mfail e = raise (Start_failed e)"

definition with_os :: "(goerr \<Rightarrow> goerr) \<Rightarrow> ('w, 'a) oexec \<Rightarrow> ('w, 'a) mexec" where
  "with_os wrap m = State (\<lambda>s. case run_state m (get_ostate s) of
     (Inl e, q) \<Rightarrow> (Inl (Start_failed (wrap e)), put_ostate q s) | (Inr a, q) \<Rightarrow> (Inr a, put_ostate q s))"

definition with_rpc :: "(goerr \<Rightarrow> goerr) \<Rightarrow> ('w, 'a) rexec \<Rightarrow> ('w, 'a) mexec" where
  "with_rpc wrap m = State (\<lambda>s.
     case run_state m \<lparr>rw_net = ms_world s, rw_clients = ms_conns s\<rparr> of
       (r, w) \<Rightarrow> ((case r of Inl e \<Rightarrow> Inl (Start_failed (wrap e)) | Inr a \<Rightarrow> Inr a),
         s\<lparr>ms_world := rw_net w, ms_conns := rw_clients w\<rparr>))"

definition with_process :: "(goerr \<Rightarrow> goerr) \<Rightarrow> ('w ostate \<Rightarrow> ((goerr + 'a) \<times> 'w ostate) option) \<Rightarrow> ('w, 'a) mexec" where
  "with_process wrap f = State (\<lambda>s.
     case f (get_ostate s) of
       None \<Rightarrow> (Inl Hangs, s)
     | Some (Inl e, q) \<Rightarrow> (Inl (Start_failed (wrap e)), put_ostate q s)
     | Some (Inr a, q) \<Rightarrow> (Inr a, put_ostate q s))"

definition of_sum :: "(goerr \<Rightarrow> goerr) \<Rightarrow> goerr + 'a \<Rightarrow> ('w, 'a) mexec" where
  "of_sum wrap r = (case r of Inl e \<Rightarrow> mfail (wrap e) | Inr a \<Rightarrow> done_with a)"

subsection \<open>Sources\<close>

definition effective_checksum :: "PluginConfig \<Rightarrow> string" where
  "effective_checksum pc =
     (if ps_Checksum (pc_Source pc) \<noteq> [] then ps_Checksum (pc_Source pc) else pc_Checksum pc)"

definition home_dir :: "'w os \<Rightarrow> 'w \<Rightarrow> string" where
  "home_dir os w = (case os_UserHomeDir os w of Inl _ \<Rightarrow> os_TempDir os w | Inr home \<Rightarrow> home)"

definition resolveSource :: "'w os \<Rightarrow> PluginConfig \<Rightarrow> ('w, ResolvedPlugin) oexec" where
  "resolveSource os pc =
     (let s = pc_Source pc
      in if ps_Type s = ''filesystem'' then ResolveFilesystem os (ps_Path s) (effective_checksum pc)
         else if ps_Type s = ''github'' then
           do { home \<leftarrow> reads (\<lambda>s. home_dir os (o_world s));
                ResolveGitHub os
                  \<lparr>gs_Repository = ps_Repository s, gs_Release = ps_Release s, gs_Asset = ps_Asset s,
                   gs_Binary = ps_Binary s, gs_Checksum = effective_checksum pc\<rparr> home None }
         else raise (EText (''unsupported plugin source '' @ Quote (ps_Type s))))"

subsection \<open>Schemas\<close>

definition validateJSONSchema :: "'w outside \<Rightarrow> string \<Rightarrow> (string \<times> any) list \<Rightarrow> goerr + unit" where
  "validateJSONSchema ou schemaJSON cfg =
     (if TrimSpace schemaJSON = [] then Inr ()
      else sum_bind (ou_parse_json ou schemaJSON) (\<lambda>schemaDoc.
           sum_bind (ou_compile_schema ou schemaDoc) (\<lambda>validate.
           sum_bind (ou_parse_json ou (json_text (json_of_any (AMap cfg)))) (\<lambda>v.
           validate v))))"

subsection \<open>Registration\<close>

definition metadataHasCapability :: "Metadata \<Rightarrow> CapabilityType \<Rightarrow> bool" where
  "metadataHasCapability md ct = list_ex (\<lambda>d. cd_Type d = ct) (md_Capabilities md)"

definition register_capability ::
  "'w net \<Rightarrow> nat \<Rightarrow> string \<Rightarrow> client \<Rightarrow> CapabilityType \<Rightarrow> 'w rworld Registry \<Rightarrow> 'w rworld Registry" where
  "register_capability nw fuel name c ct r =
     (if ct = AuthenticatorCap then AddAuthenticator name (client_Authenticator nw c) r
      else if ct = AuthorizerCap then AddAuthorizer name (client_Authorizer nw c) r
      else if ct = RateLimiterCap then AddRateLimiter name (client_RateLimiter nw c) r
      else if ct = RouterCap then AddRouter name (client_Router nw c) r
      else if ct = UpstreamProviderCap then AddUpstreamProvider name (client_UpstreamProvider nw fuel c) r
      else if ct = CacheProviderCap then AddCacheProvider name (client_CacheProvider nw c) r
      else if ct = ObserverCap then AddObserver name (client_Observer nw c) r
      else if ct = PromptProviderCap then AddPromptProvider name (client_PromptProvider nw c) r
      else if ct = CostProviderCap then AddCostProvider name (client_CostProvider nw c) r
      else if ct = ModelRegistryProviderCap
        then AddModelRegistryProvider name (client_ModelRegistryProvider nw c) r
      else r)"

fun register_all ::
  "'w net \<Rightarrow> nat \<Rightarrow> string \<Rightarrow> client \<Rightarrow> Metadata \<Rightarrow> string list \<Rightarrow> 'w rworld Registry \<Rightarrow> 'w rworld Registry" where
  "register_all nw fuel name c md [] r = r"
| "register_all nw fuel name c md (ct # cts) r =
     register_all nw fuel name c md cts
       (if \<not> metadataHasCapability md ct then r else register_capability nw fuel name c ct r)"

definition registerClient ::
  "'w net \<Rightarrow> nat \<Rightarrow> PluginConfig \<Rightarrow> client \<Rightarrow> Metadata \<Rightarrow> 'w rworld Registry \<Rightarrow> 'w rworld Registry" where
  "registerClient nw fuel pc c md r =
     register_all nw fuel (pc_Name pc) c md (pc_Capabilities pc) (AddMetadata (pc_Name pc) md r)"

subsection \<open>Start\<close>

definition refused_untrusted :: "PluginConfig \<Rightarrow> bool" where
  "refused_untrusted pc \<longleftrightarrow> pc_Trust pc = ''untrusted'' \<and> \<not> sb_Enabled (pc_Sandbox pc)"

definition refusal_of :: "PluginConfig \<Rightarrow> goerr" where
  "refusal_of pc = EText (''plugin '' @ pc_Name pc @ '' refused: untrusted plugins require sandbox'')"

text \<open>From the launched process to the configured client.\<close>

definition connect ::
  "'w outside \<Rightarrow> Provider \<Rightarrow> PluginConfig \<Rightarrow> Process \<Rightarrow> ('w, client \<times> Metadata) mexec" where
  "connect ou sp pc proc =
     (let nw = ou_net ou; name = pc_Name pc in
      and_then (with_rpc (EWrapped (''dial plugin '' @ name @ '': ''))
          (DialRPCPlugin nw ''unix'' (pr_Socket proc) name)) (\<lambda>c.
      and_then (with_rpc (EWrapped (''plugin_handshake_failed '' @ name @ '': '')) (Handshake nw c)) (\<lambda>_.
      and_then (with_rpc (EWrapped (''plugin metadata '' @ name @ '': '')) (GetMetadata nw c)) (\<lambda>md.
      and_then (with_rpc (EWrapped (''plugin config schema '' @ name @ '': '')) (GetConfigSchema nw c)) (\<lambda>schema.
      and_then (of_sum (EWrapped (''plugin '' @ name @ '' secret scoping: ''))
          (ResolvePluginSecrets (pc_Config pc) (pm_SecretNames (md_Permissions md)) sp)) (\<lambda>(config, secrets).
      and_then (of_sum (EWrapped (''plugin_config_invalid '' @ name @ '': ''))
          (validateJSONSchema ou schema config)) (\<lambda>_.
      and_then (with_rpc (EWrapped (''plugin configure '' @ name @ '': '')) (Configure nw c config secrets)) (\<lambda>_.
        done_with (c, md)))))))))"

definition enter_plugin ::
  "'w outside \<Rightarrow> PluginConfig \<Rightarrow> Process \<Rightarrow> client \<Rightarrow> Metadata \<Rightarrow> 'w mstate \<Rightarrow> 'w mstate" where
  "enter_plugin ou pc proc c md s = s\<lparr>
     ms_registry := registerClient (ou_net ou) (ou_fuel ou) pc c md (ms_registry s),
     ms_processes := fmupd (pc_Name pc) proc (ms_processes s),
     ms_clients := fmupd (pc_Name pc) c (ms_clients s)\<rparr>"

text \<open>The context a process is started in ends after five seconds, or with the one around it.\<close>

definition start_context :: "'w px \<Rightarrow> ('w ostate, 'w px) state" where
  "start_context px =
     do { t \<leftarrow> unix_nano px;
          State_Monad.return (px\<lparr>px_Deadline := Some (case px_Deadline px of
            None \<Rightarrow> t + default_wait | Some d \<Rightarrow> min d (t + default_wait))\<rparr>) }"

definition start_in_context ::
  "'w os \<Rightarrow> 'w px \<Rightarrow> Process \<Rightarrow> 'w ostate \<Rightarrow> ((goerr + Process) \<times> 'w ostate) option" where
  "start_in_context os px p s = (case run_state (start_context px) s of (px, s) \<Rightarrow> Start_process os px p s)"

definition start_plugin :: "'w outside \<Rightarrow> Provider \<Rightarrow> PluginConfig \<Rightarrow> ('w, unit) mexec" where
  "start_plugin ou sp pc =
     (if refused_untrusted pc then mfail (refusal_of pc)
      else and_then (with_os id (resolveSource (ou_os ou) pc)) (\<lambda>resolved.
           and_then (with_process (EWrapped (''plugin_start_failed '' @ pc_Name pc @ '': ''))
               (start_in_context (ou_os ou) (ou_px ou) (NewProcess (pc_Name pc) (rp_Path resolved)))) (\<lambda>proc.
           and_then (connect ou sp pc proc) (\<lambda>(c, md).
             do { modify (enter_plugin ou pc proc c md); done_with () }))))"

fun start_all :: "'w outside \<Rightarrow> Provider \<Rightarrow> PluginConfig list \<Rightarrow> ('w, unit) mexec" where
  "start_all ou sp [] = done_with ()"
| "start_all ou sp (pc # pcs) = and_then (start_plugin ou sp pc) (\<lambda>_. start_all ou sp pcs)"

definition Start_manager :: "'w outside \<Rightarrow> Manager \<Rightarrow> ('w, unit) mexec" where
  "Start_manager ou m = start_all ou (mn_secretProvider m) (mn_cfg m)"

subsection \<open>Stop\<close>

text \<open>The two loops of \<open>Stop\<close>; the lists are the orders in which Go iterates over the maps.\<close>

fun close_all :: "'w net \<Rightarrow> client list \<Rightarrow> ('w mstate, unit) state" where
  "close_all nw [] = State_Monad.return ()"
| "close_all nw (c # cs) = do { _ \<leftarrow> with_rpc id (Close_client nw c); close_all nw cs }"

fun stop_all :: "'w px \<Rightarrow> Process list \<Rightarrow> ('w mstate, start_halt list) state" where
  "stop_all px [] = State_Monad.return []"
| "stop_all px (p # ps) =
     do { r \<leftarrow> with_os id (Stop_process px p);
          errs \<leftarrow> stop_all px ps;
          State_Monad.return (case r of Inl e \<Rightarrow> e # errs | Inr _ \<Rightarrow> errs) }"

definition halt_text :: "start_halt \<Rightarrow> string" where
  "halt_text h = (case h of Start_failed e \<Rightarrow> err_text e | Hangs \<Rightarrow> [])"

definition Stop_manager :: "'w outside \<Rightarrow> client list \<Rightarrow> Process list \<Rightarrow> ('w, unit) mexec" where
  "Stop_manager ou clients processes =
     do { close_all (ou_net ou) clients;
          errs \<leftarrow> stop_all (ou_px ou) processes;
          if errs \<noteq> []
          then mfail (EText (''stopping plugins: ['' @ Join (map halt_text errs) '' '' @ '']''))
          else done_with () }"

end
