(* ===== verification/ManagerProps.thy ===== *)
theory ManagerProps
  imports Manager
begin

text \<open>
  What the plugin manager guarantees: which plugins get started, what the registry holds
  afterwards, which processes a failed start and a stop leave running.
\<close>

subsection \<open>Registration\<close>

lemma Has_register_capability:
  "Has (register_capability nw fuel name c ct r) m cap \<longleftrightarrow>
     m = name \<and> cap = ct \<and> ct \<in> set all_caps \<or> Has r m cap"
proof (cases "ct = cap")
  case True
  then show ?thesis
    unfolding register_capability_def
    by (simp add: authn_table.has_add authz_table.has_add ratelimit_table.has_add router_table.has_add
        upstream_table.has_add cache_table.has_add observer_table.has_add prompt_table.has_add
        cost_table.has_add modelregistry_table.has_add all_caps_def)
next
  case False
  then show ?thesis unfolding register_capability_def by (simp add: Has_other_table)
qed

lemma Metadata_register_capability:
  "Metadata_of (register_capability nw fuel name c ct r) m = Metadata_of r m"
  by (simp add: register_capability_def Metadata_of_def add_defs)

lemma register_all_effect:
  "(Has (register_all nw fuel name c md cts r) m cap \<longleftrightarrow>
     m = name \<and> cap \<in> set cts \<and> cap \<in> set all_caps \<and> metadataHasCapability md cap \<or> Has r m cap) \<and>
   Metadata_of (register_all nw fuel name c md cts r) m = Metadata_of r m"
  by (induction nw fuel name c md cts r rule: register_all.induct)
    (auto simp: Has_register_capability Metadata_register_capability)

lemma Has_AddMetadata [simp]: "Has (AddMetadata n md r) = Has r"
  by (intro ext) (simp add: Has_def AddMetadata_def)

lemma registerClient_effect:
  "Has (registerClient nw fuel pc c md r) m cap \<longleftrightarrow>
     m = pc_Name pc \<and> cap \<in> set (pc_Capabilities pc) \<and> cap \<in> set all_caps \<and> metadataHasCapability md cap \<or>
     Has r m cap"
  "Metadata_of (registerClient nw fuel pc c md r) m = (if m = pc_Name pc then Some md else Metadata_of r m)"
  by (simp_all add: registerClient_def register_all_effect Metadata_of_AddMetadata)

subsection \<open>Steps that leave the manager's maps alone\<close>

definition unsignalled :: "os_action \<Rightarrow> bool" where
  "unsignalled a = (case a of OInterrupt p \<Rightarrow> False | OKill p \<Rightarrow> False | _ \<Rightarrow> True)"

text \<open>Only the world, the history and the clients change, and no process gets a signal.\<close>

definition quiet :: "'w mstate \<Rightarrow> 'w mstate \<Rightarrow> bool" where
  "quiet s t \<longleftrightarrow>
     ms_registry t = ms_registry s \<and> ms_processes t = ms_processes s \<and> ms_clients t = ms_clients s \<and>
     (\<exists>acts. ms_trace t = ms_trace s @ acts \<and> list_all unsignalled acts)"

interpretation quiet: step_relation quiet
proof unfold_locales
  show "quiet s s" for s :: "'a mstate"
    by (simp add: quiet_def)
  show "quiet s t \<Longrightarrow> quiet t u \<Longrightarrow> quiet s u" for s t u :: "'a mstate"
    by (fastforce simp: quiet_def)
qed

lemma quiet_of_sum: "state_io_rel quiet (of_sum wrap r)"
  by (auto simp: of_sum_def mfail_def intro!: quiet.keeps split: sum.splits)

lemma quiet_with_rpc: "state_io_rel quiet (with_rpc wrap m)"
  by (auto simp: state_io_rel_def with_rpc_def quiet_def split: prod.splits)

lemma quiet_with_os:
  assumes "state_io_rel (performs unsignalled) m" shows "state_io_rel quiet (with_os wrap m)"
proof (rule state_io_relI)
  fix s a t
  assume run: "run_state (with_os wrap m) s = (a, t)"
  obtain r q where q: "run_state m (get_ostate s) = (r, q)" by force
  from op.keeps_run [OF assms q] run q show "quiet s t"
    by (cases r) (auto simp: with_os_def performs_def quiet_def get_ostate_def put_ostate_def)
qed

lemma quiet_connect: "state_io_rel quiet (connect ou sp pc proc)"
  unfolding connect_def Let_def by (intro quiet.keeps quiet_with_rpc quiet_of_sum)

lemma unsignalled_simps [simp]:
  "unsignalled (OStat p)" "unsignalled (OOpen p)" "unsignalled (ORead h)" "unsignalled (OClose h)"
  "unsignalled (OMkdirAll p m)" "unsignalled (OOpenFile p m)" "unsignalled (OWrite h d)"
  "unsignalled (OCreateTemp p)" "unsignalled (ORemove p)" "unsignalled (OChmod p m)"
  "unsignalled (ODownload u r)" "unsignalled (OZipOpen p)" "unsignalled (OTarOpen h)"
  "unsignalled (OLaunch p env)" "unsignalled (ODialSocket p)"
  by (simp_all add: unsignalled_def)

lemma zip_loop_unsignalled: "state_io_rel (performs unsignalled) (zip_loop os dest fs)"
proof (induction fs)
  case (Cons f fs)
  then show ?case
    by (cases "safeJoin dest (ze_Name f)") (auto intro!: performed performed_write_out split: sum.splits)
qed (auto intro!: performed)

lemma tar_loop_unsignalled: "state_io_rel (performs unsignalled) (tar_loop os dest hs final)"
proof (induction hs)
  case (Cons h hs)
  then show ?case
    by (cases "safeJoin dest (te_Name h)") (auto intro!: performed performed_write_out)
qed (auto intro!: performed split: option.splits)

lemma ResolveFilesystem_unsignalled: "state_io_rel (performs unsignalled) (ResolveFilesystem os path checksum)"
  unfolding ResolveFilesystem_def fileSHA256_def Let_def by (intro performed; simp)

lemma SafeExtract_unsignalled: "state_io_rel (performs unsignalled) (SafeExtract os archive dest)"
  unfolding SafeExtract_def safeExtractZip_def safeExtractTarGz_def
  by (intro performed zip_loop_unsignalled tar_loop_unsignalled; simp)

lemma fetch_unsignalled: "state_io_rel (performs unsignalled) (fetch os src home want r tmp h)"
  unfolding fetch_def install_def Let_def
  by (intro performed SafeExtract_unsignalled ResolveFilesystem_unsignalled; simp)

lemma resolveSource_unsignalled: "state_io_rel (performs unsignalled) (resolveSource os pc)"
proof -
  have "state_io_rel (performs unsignalled) (ResolveGitHub os src home d)" for src home d
    unfolding ResolveGitHub_def cached_binary_def Let_def
    by (intro performed performed_sys fetch_unsignalled; simp)
  then show ?thesis
    unfolding resolveSource_def Let_def by (intro performed ResolveFilesystem_unsignalled) simp_all
qed

lemma launch_unsignalled: "state_io_rel (performs unsignalled) (launch os px p)"
proof -
  have "state_io_rel (performs unsignalled) (unix_nano px)"
    by (auto simp: state_io_rel_def unix_nano_def performs_def split: prod.splits)
  then show ?thesis
    unfolding launch_def Let_def by (intro performed performed_sys) (auto split: prod.splits)
qed

lemma wait_socket_unsignalled:
  assumes "wait_socket px socket deadline s = Some y"
  shows "performs unsignalled s (snd y)"
proof (rule wait_socket.raw_induct [where P = "\<lambda>px socket deadline s y. performs unsignalled s (snd y)", OF _ assms])
  fix wait and px :: "'a px" and socket deadline s y
  assume IH: "\<And>px socket deadline s y. wait px socket deadline s = Some y \<Longrightarrow> performs unsignalled s (snd y)"
    and body: "(case px_Now px (o_world s) of (t, w) \<Rightarrow>
        if deadline \<le> t then Some (Inr False, s\<lparr>o_world := w\<rparr>)
        else (case px_DialSocket px socket w of
            (Inl _, w) \<Rightarrow>
              (case px_Sleep px () w of
                 (Inl err, w) \<Rightarrow> Some (Inl err, record_op (ODialSocket socket) w s)
               | (Inr _, w) \<Rightarrow> wait px socket deadline (record_op (ODialSocket socket) w s))
          | (Inr _, w) \<Rightarrow> Some (Inr True, record_op (ODialSocket socket) w s))) = Some y"
  have step: "performs unsignalled s (record_op (ODialSocket sock) w s)" for sock w and s :: "'a ostate"
    by (simp add: performs_def record_op_def)
  have same: "performs unsignalled s (s\<lparr>o_world := w\<rparr>)" for w and s :: "'a ostate"
    by (simp add: performs_def)
  from body show "performs unsignalled s (snd y)"
    by (auto split: prod.splits sum.splits if_splits simp: step same intro: op.R_trans [OF step IH])
qed

lemma Start_process_unsignalled:
  assumes "Start_process os px p s = Some (r, t)" shows "performs unsignalled s t"
proof -
  obtain l s1 where l: "run_state (launch os px p) s = (l, s1)" by force
  have first: "performs unsignalled s s1" by (rule op.keeps_run [OF launch_unsignalled l])
  show ?thesis
  proof (cases l)
    case (Inl e)
    with assms l first show ?thesis by (simp add: Start_process_def)
  next
    case (Inr q)
    define ds where "ds = (case px_Deadline px of Some d \<Rightarrow> (d, s1)
       | None \<Rightarrow> (case run_state (unix_nano px) s1 of (t, s) \<Rightarrow> (t + default_wait, s)))"
    obtain d s2 where ds: "ds = (d, s2)" by force
    have second: "performs unsignalled s1 s2"
      using ds by (auto simp: ds_def unix_nano_def performs_def split: option.splits prod.splits)
    from assms l Inr ds obtain y where w: "wait_socket px (pr_Socket q) d s2 = Some y" and t: "t = snd y"
      by (auto simp: Start_process_def ds_def [symmetric] split: option.splits prod.splits sum.splits)
    from wait_socket_unsignalled [OF w] op.R_trans [OF first second] show ?thesis
      unfolding t by (rule op.R_trans [rotated])
  qed
qed

lemma start_in_context_unsignalled:
  assumes "start_in_context os px p s = Some (r, t)" shows "performs unsignalled s t"
proof -
  obtain px' u where u: "run_state (start_context px) s = (px', u)" by force
  then have "performs unsignalled s u"
    by (auto simp: start_context_def unix_nano_def performs_def split: prod.splits)
  moreover have "performs unsignalled u t"
    using assms u Start_process_unsignalled by (auto simp: start_in_context_def)
  ultimately show ?thesis by (rule op.R_trans)
qed

lemma quiet_with_process: "state_io_rel quiet (with_process wrap (start_in_context os px p))"
proof (rule state_io_relI)
  fix s a t
  assume run: "run_state (with_process wrap (start_in_context os px p)) s = (a, t)"
  show "quiet s t"
  proof (cases "start_in_context os px p (get_ostate s)")
    case None
    with run show ?thesis by (simp add: with_process_def quiet.R_refl)
  next
    case (Some y)
    obtain r q where y: "y = (r, q)" by force
    from start_in_context_unsignalled Some y have "performs unsignalled (get_ostate s) q" by blast
    with run Some y show ?thesis
      by (cases r) (auto simp: with_process_def performs_def quiet_def get_ostate_def put_ostate_def)
  qed
qed

subsection \<open>Starting\<close>

text \<open>A process that \<open>Start\<close> returns has been launched.\<close>

definition launched :: "Process \<Rightarrow> bool" where
  "launched p \<longleftrightarrow> pr_cmd p \<noteq> None"

lemma launch_launched: "run_state (launch os px p) s = (Inr q, t) \<Longrightarrow> launched q"
  by (auto simp: launch_def launched_def Let_def split: prod.splits sum.splits)

lemma with_process_launched:
  "run_state (with_process wrap (start_in_context os px p)) s = (Inr q, t) \<Longrightarrow> launched q"
  by (auto simp: with_process_def start_in_context_def Start_process_def Let_def launch_launched
      split: option.splits prod.splits sum.splits if_splits)

text \<open>One plugin: either it is entered, after quiet steps, or the maps are as before.\<close>

lemma start_plugin_cases:
  assumes "run_state (start_plugin ou sp pc) s = (r, t)"
  shows "(\<exists>h. r = Inl h) \<and> quiet s t \<or>
     (\<exists>u proc c md. r = Inr () \<and> quiet s u \<and> launched proc \<and> t = enter_plugin ou pc proc c md u)"
proof -
  define m where "m = and_then (with_os id (resolveSource (ou_os ou) pc)) (\<lambda>resolved.
      and_then (with_process (EWrapped (''plugin_start_failed '' @ pc_Name pc @ '': ''))
        (start_in_context (ou_os ou) (ou_px ou) (NewProcess (pc_Name pc) (rp_Path resolved)))) (\<lambda>proc.
      and_then (connect ou sp pc proc) (\<lambda>(c, md). done_with (proc, c, md))))"
  have q: "state_io_rel quiet m" unfolding m_def
    by (intro quiet.keeps quiet_with_os quiet_with_process quiet_connect resolveSource_unsignalled)
  have eq: "start_plugin ou sp pc = (if refused_untrusted pc then mfail (refusal_of pc)
      else and_then m (\<lambda>(proc, c, md). do { modify (enter_plugin ou pc proc c md); done_with () }))"
    unfolding m_def by (rule state_ext) (simp add: start_plugin_def split: prod.splits sum.splits)
  obtain x u where x: "run_state m s = (x, u)" by force
  have u: "quiet s u" by (rule quiet.keeps_run [OF q x])
  show ?thesis
  proof (cases "refused_untrusted pc")
    case True
    with assms show ?thesis by (auto simp: eq mfail_def quiet.R_refl)
  next
    case False
    show ?thesis
    proof (cases x)
      case (Inl h)
      with assms x u False show ?thesis by (auto simp: eq)
    next
      case (Inr y)
      obtain proc c md where y: "y = (proc, c, md)" by (cases y) auto
      with assms x False Inr have "r = Inr () \<and> t = enter_plugin ou pc proc c md u" by (simp add: eq)
      moreover have "launched proc" using x Inr y
        by (auto simp: m_def with_process_launched split: prod.splits sum.splits)
      ultimately show ?thesis using u by blast
    qed
  qed
qed

lemma start_all_append:
  "start_all ou sp (xs @ ys) = and_then (start_all ou sp xs) (\<lambda>_. start_all ou sp ys)"
  by (induction xs) (simp_all add: and_then_assoc)

text \<open>
  C16: An untrusted plugin without a sandbox is never started, nor is any plugin configured after
  it: \<open>Start\<close> does what it would do for the plugins before it and then fails with the refusal, so
  nothing of it is downloaded, launched or dialled.
\<close>

theorem untrusted_never_started:
  assumes "pc_Trust pc = ''untrusted'' \<and> \<not> sb_Enabled (pc_Sandbox pc)"
  shows "run_state (Start_manager ou \<lparr>mn_cfg = before @ pc # after, mn_secretProvider = sp\<rparr>) s =
     (case run_state (Start_manager ou \<lparr>mn_cfg = before, mn_secretProvider = sp\<rparr>) s of
        (Inl h, t) \<Rightarrow> (Inl h, t)
      | (Inr _, t) \<Rightarrow> (Inl (Start_failed (refusal_of pc)), t))"
  using assms by (simp add: Start_manager_def start_all_append start_plugin_def refused_untrusted_def mfail_def
      split: prod.splits sum.splits)

text \<open>What a successful run entered, in order.\<close>

record entered =
  et_pc :: PluginConfig
  et_proc :: Process
  et_client :: client
  et_md :: Metadata

abbreviation register_entered :: "'w outside \<Rightarrow> entered \<Rightarrow> 'w rworld Registry \<Rightarrow> 'w rworld Registry" where
  "register_entered ou x \<equiv> registerClient (ou_net ou) (ou_fuel ou) (et_pc x) (et_client x) (et_md x)"

lemma start_all_entered:
  "run_state (start_all ou sp pcs) s = (Inr (), t) \<Longrightarrow>
     \<exists>xs. map et_pc xs = pcs \<and> list_all (\<lambda>x. launched (et_proc x)) xs \<and>
       ms_registry t = fold (register_entered ou) xs (ms_registry s) \<and>
       ms_processes t = fold (\<lambda>x. fmupd (pc_Name (et_pc x)) (et_proc x)) xs (ms_processes s)"
proof (induction pcs arbitrary: s)
  case (Cons pc pcs)
  then obtain u where one: "run_state (start_plugin ou sp pc) s = (Inr (), u)"
    and rest: "run_state (start_all ou sp pcs) u = (Inr (), t)"
    by (auto split: prod.splits sum.splits)
  from start_plugin_cases [OF one] obtain v proc c md where v: "quiet s v" "launched proc"
    "u = enter_plugin ou pc proc c md v" by auto
  from Cons.IH [OF rest] obtain xs where "map et_pc xs = pcs" "list_all (\<lambda>x. launched (et_proc x)) xs"
    "ms_registry t = fold (register_entered ou) xs (ms_registry u)"
    "ms_processes t = fold (\<lambda>x. fmupd (pc_Name (et_pc x)) (et_proc x)) xs (ms_processes u)" by blast
  with v show ?case
    by (intro exI [of _ "\<lparr>et_pc = pc, et_proc = proc, et_client = c, et_md = md\<rparr> # xs"])
      (simp add: quiet_def enter_plugin_def)
qed auto

definition provides :: "entered \<Rightarrow> string \<Rightarrow> CapabilityType \<Rightarrow> bool" where
  "provides x m cap \<longleftrightarrow> pc_Name (et_pc x) = m \<and> cap \<in> set (pc_Capabilities (et_pc x)) \<and>
     cap \<in> set all_caps \<and> metadataHasCapability (et_md x) cap"

lemma registered_fold:
  "Has (fold (register_entered ou) xs r) m cap \<longleftrightarrow> list_ex (\<lambda>x. provides x m cap) xs \<or> Has r m cap"
  by (induction xs arbitrary: r) (auto simp: registerClient_effect provides_def)

lemma metadata_fold:
  "distinct (map (pc_Name \<circ> et_pc) xs) \<Longrightarrow>
     Metadata_of (fold (register_entered ou) xs r) m =
       (case List.find (\<lambda>x. pc_Name (et_pc x) = m) xs of Some x \<Rightarrow> Some (et_md x) | None \<Rightarrow> Metadata_of r m)"
proof (induction xs arbitrary: r)
  case (Cons x xs)
  then have "List.find (\<lambda>y. pc_Name (et_pc y) = pc_Name (et_pc x)) xs = None"
    by (auto simp: find_None_iff image_iff)
  with Cons show ?case by (auto simp: registerClient_effect split: option.splits)
qed simp

lemma processes_fold:
  "fset (fmdom (fold (\<lambda>x. fmupd (pc_Name (et_pc x)) (et_proc x)) xs m)) =
     fset (fmdom m) \<union> set (map (pc_Name \<circ> et_pc) xs)"
  by (induction xs arbitrary: m) auto

text \<open>The capabilities that the configuration asks for and the plugins' own metadata confirm.\<close>

definition confirmed :: "PluginConfig list \<Rightarrow> 'w Registry \<Rightarrow> string \<Rightarrow> CapabilityType \<Rightarrow> bool" where
  "confirmed cfg reg name cap \<longleftrightarrow>
     (\<exists>pc md. pc \<in> set cfg \<and> pc_Name pc = name \<and> cap \<in> set (pc_Capabilities pc) \<and> cap \<in> set all_caps \<and>
        Metadata_of reg name = Some md \<and> metadataHasCapability md cap)"

lemma started:
  assumes "distinct (map pc_Name cfg)"
    and "run_state (Start_manager ou \<lparr>mn_cfg = cfg, mn_secretProvider = sp\<rparr>) (initial_mstate w) = (Inr (), t)"
  shows "Has (ms_registry t) name cap \<longleftrightarrow> confirmed cfg (ms_registry t) name cap"
    and "fset (fmdom (ms_processes t)) = pc_Name ` set cfg"
    and "fmpred (\<lambda>_ p. launched p) (ms_processes t)"
proof -
  from assms(2) have "run_state (start_all ou sp cfg) (initial_mstate w) = (Inr (), t)"
    by (simp add: Start_manager_def)
  from start_all_entered [OF this] obtain xs where xs: "map et_pc xs = cfg"
    "ms_registry t = fold (register_entered ou) xs NewRegistry"
    "ms_processes t = fold (\<lambda>x. fmupd (pc_Name (et_pc x)) (et_proc x)) xs fmempty"
    and run: "list_all (\<lambda>x. launched (et_proc x)) xs"
    by (auto simp: initial_mstate_def)
  have dist: "distinct (map (pc_Name \<circ> et_pc) xs)"
    using assms(1) unfolding xs(1) [symmetric] by simp
  have md: "Metadata_of (ms_registry t) (pc_Name (et_pc x)) = Some (et_md x)" if "x \<in> set xs" for x
  proof -
    from that obtain i where i: "i < length xs" "xs ! i = x" by (auto simp: in_set_conv_nth)
    have "\<And>j. j < i \<Longrightarrow> pc_Name (et_pc (xs ! j)) \<noteq> pc_Name (et_pc x)"
      using dist i by (auto simp: distinct_conv_nth)
    with i have "List.find (\<lambda>y. pc_Name (et_pc y) = pc_Name (et_pc x)) xs = Some x"
      by (auto simp: find_Some_iff)
    then show ?thesis unfolding xs(2) metadata_fold [OF dist] by simp
  qed
  have "\<not> Has (NewRegistry :: 'a rworld Registry) name cap" by (simp add: Has_def NewRegistry_def)
  then have "Has (ms_registry t) name cap \<longleftrightarrow> (\<exists>x \<in> set xs. provides x name cap)"
    by (simp add: xs(2) registered_fold list_ex_iff)
  also have "\<dots> \<longleftrightarrow> confirmed cfg (ms_registry t) name cap"
    unfolding xs(1) [symmetric] provides_def confirmed_def using md by fastforce
  finally show "Has (ms_registry t) name cap \<longleftrightarrow> confirmed cfg (ms_registry t) name cap" .
  show "fset (fmdom (ms_processes t)) = pc_Name ` set cfg"
    using xs(1) by (auto simp: xs(3) processes_fold)
  have "fmpred (\<lambda>_ p. launched p) m \<Longrightarrow>
      fmpred (\<lambda>_ p. launched p) (fold (\<lambda>x. fmupd (pc_Name (et_pc x)) (et_proc x)) xs m)" for m
    using run by (induction xs arbitrary: m) auto
  from this [of fmempty] show "fmpred (\<lambda>_ p. launched p) (ms_processes t)"
    unfolding xs(3) by simp
qed

text \<open>
  After a successful start the registry offers exactly the capabilities that a configured
  plugin lists, that the gateway knows, and that the plugin's own metadata confirms, each under the
  plugin's name; and a launched process is kept for every plugin.
\<close>

theorem registry_after_start:
  assumes "distinct (map pc_Name cfg)"
    and "run_state (Start_manager ou \<lparr>mn_cfg = cfg, mn_secretProvider = sp\<rparr>) (initial_mstate w) = (Inr (), t)"
  shows "(Has (ms_registry t) name cap \<longleftrightarrow>
       (\<exists>pc md. pc \<in> set cfg \<and> pc_Name pc = name \<and> cap \<in> set (pc_Capabilities pc) \<and> cap \<in> set all_caps \<and>
          Metadata_of (ms_registry t) name = Some md \<and> metadataHasCapability md cap)) \<and>
     fset (fmdom (ms_processes t)) = pc_Name ` set cfg \<and>
     fmpred (\<lambda>_ p. pr_cmd p \<noteq> None) (ms_processes t)"
  using started [OF assms] unfolding confirmed_def launched_def by blast

subsection \<open>What is left running\<close>

definition names_of :: "(string, 'a) fmap \<Rightarrow> string set" where
  "names_of m = fset (fmdom m)"

text \<open>
  C17: A start, successful or not, gives no process a signal, and keeps a process only for the
  plugins it completed, a prefix of the configured ones. So when a plugin fails after its process
  was launched, the process is kept nowhere and goes on running.
\<close>

theorem start_keeps_completed_only:
  assumes "run_state (Start_manager ou m) s = (r, t)"
  shows "\<exists>k acts. k \<le> length (mn_cfg m) \<and> (isl r \<longleftrightarrow> k < length (mn_cfg m)) \<and>
     names_of (ms_processes t) = names_of (ms_processes s) \<union> pc_Name ` set (take k (mn_cfg m)) \<and>
     ms_trace t = ms_trace s @ acts \<and> list_all unsignalled acts"
proof -
  obtain pcs sp where m: "m = \<lparr>mn_cfg = pcs, mn_secretProvider = sp\<rparr>" by (cases m)
  from assms have "run_state (start_all ou sp pcs) s = (r, t)" by (simp add: m Start_manager_def)
  then have "\<exists>k acts. k \<le> length pcs \<and> (isl r \<longleftrightarrow> k < length pcs) \<and>
     names_of (ms_processes t) = names_of (ms_processes s) \<union> pc_Name ` set (take k pcs) \<and>
     ms_trace t = ms_trace s @ acts \<and> list_all unsignalled acts"
  proof (induction pcs arbitrary: s)
    case (Cons pc pcs)
    obtain q u where one: "run_state (start_plugin ou sp pc) s = (q, u)" by force
    from start_plugin_cases [OF one] show ?case
    proof (elim disjE exE conjE)
      fix h assume q: "q = Inl h" "quiet s u"
      with Cons.prems one have "r = Inl h \<and> t = u" by simp
      with q show ?thesis by (intro exI [of _ "0::nat"]) (auto simp: quiet_def)
    next
      fix v proc c md assume q: "q = Inr ()" "quiet s v" "u = enter_plugin ou pc proc c md v"
      with Cons.prems one have "run_state (start_all ou sp pcs) u = (r, t)" by simp
      from Cons.IH [OF this] obtain k acts where k: "k \<le> length pcs" "isl r \<longleftrightarrow> k < length pcs"
        "names_of (ms_processes t) = names_of (ms_processes u) \<union> pc_Name ` set (take k pcs)"
        "ms_trace t = ms_trace u @ acts" "list_all unsignalled acts" by blast
      from q obtain acts' where "ms_trace u = ms_trace s @ acts'" "list_all unsignalled acts'"
        by (auto simp: quiet_def enter_plugin_def)
      moreover have "names_of (ms_processes u) = insert (pc_Name pc) (names_of (ms_processes s))"
        using q by (simp add: quiet_def enter_plugin_def names_of_def)
      ultimately show ?thesis using k
        by (intro exI [of _ "Suc k"] exI [of _ "acts' @ acts"]) auto
    qed
  qed auto
  then show ?thesis by (simp add: m)
qed

definition interrupted :: "os_action \<Rightarrow> pid option" where
  "interrupted a = (case a of OInterrupt pid \<Rightarrow> Some pid | _ \<Rightarrow> None)"

lemma interrupted_simps [simp]:
  "interrupted (OInterrupt pid) = Some pid" "interrupted (OKill pid) = None"
  by (simp_all add: interrupted_def)

lemma map_filter_append: "List.map_filter f (xs @ ys) = List.map_filter f xs @ List.map_filter f ys"
  by (simp add: List.map_filter_def)

lemma Stop_process_interrupts:
  assumes "run_state (with_os id (Stop_process px p)) s = (r, t)"
  shows "\<exists>acts. ms_trace t = ms_trace s @ acts \<and>
     List.map_filter interrupted acts = (case pr_cmd p of None \<Rightarrow> [] | Some pid \<Rightarrow> [pid])"
proof (cases "pr_cmd p")
  case None
  with assms show ?thesis
    by (simp add: with_os_def Stop_process_def put_ostate_def get_ostate_def List.map_filter_simps)
next
  case (Some pid)
  let ?P = "\<lambda>acts. List.map_filter interrupted acts = [pid]"
  have "\<exists>acts. o_trace (snd (run_state (Stop_process px p) q)) = o_trace q @ acts \<and> ?P acts" for q
    using Some by (auto simp: Stop_process_def sys_def List.map_filter_simps split: prod.splits stop_event.splits option.splits)
  from this [of "get_ostate s"] assms Some show ?thesis
    by (auto simp: with_os_def put_ostate_def get_ostate_def split: prod.splits sum.splits)
qed

lemma stop_all_interrupts:
  "run_state (stop_all px ps) s = (errs, t) \<Longrightarrow>
     \<exists>acts. ms_trace t = ms_trace s @ acts \<and> List.map_filter interrupted acts = List.map_filter pr_cmd ps"
proof (induction ps arbitrary: s errs)
  case (Cons p ps)
  then obtain r u errs' where one: "run_state (with_os id (Stop_process px p)) s = (r, u)"
    and rest: "run_state (stop_all px ps) u = (errs', t)"
    by (auto split: prod.splits)
  from Stop_process_interrupts [OF one] Cons.IH [OF rest] obtain xs ys where
    "ms_trace t = ms_trace s @ xs @ ys" "List.map_filter interrupted ys = List.map_filter pr_cmd ps"
    "List.map_filter interrupted xs = (case pr_cmd p of None \<Rightarrow> [] | Some pid \<Rightarrow> [pid])" by auto
  then show ?case
    by (intro exI [of _ "xs @ ys"])
      (cases "pr_cmd p"; simp add: List.map_filter_simps map_filter_append)
qed (auto simp: List.map_filter_simps)

lemma close_all_trace: "run_state (close_all nw cs) s = ((), t) \<Longrightarrow> ms_trace t = ms_trace s"
  by (induction cs arbitrary: s) (auto simp: with_rpc_def split: prod.splits)

lemma Stop_trace:
  assumes "run_state (Stop_manager ou clients processes) s = (r, t)"
  obtains acts where "ms_trace t = ms_trace s @ acts" "List.map_filter interrupted acts = List.map_filter pr_cmd processes"
proof -
  obtain u where u: "run_state (close_all (ou_net ou) clients) s = ((), u)"
    by (metis (full_types) old.unit.exhaust surj_pair)
  obtain errs v where v: "run_state (stop_all (ou_px ou) processes) u = (errs, v)" by force
  have "t = v" using assms u v by (auto simp: Stop_manager_def mfail_def split: if_splits)
  with stop_all_interrupts [OF v] close_all_trace [OF u] that show ?thesis by auto
qed

text \<open>
  \<open>Stop\<close> interrupts every process it is given that was launched, each once and in the order of
  the map, whatever errors the others give.
\<close>

theorem stop_interrupts_all:
  "\<exists>acts. ms_trace (snd (run_state (Stop_manager ou clients processes) s)) = ms_trace s @ acts \<and>
     List.map_filter interrupted acts = List.map_filter pr_cmd processes"
  by (rule Stop_trace [OF surjective_pairing]) blast

end
