(* ===== verification/App.thy ===== *)
theory App
  imports ManagerProps HttpApi ModelRegistry
begin

text \<open>
  The gateway as a whole (\<open>internal/app/app.go\<close>, \<open>cmd/gateway/main.go\<close>): loading the
  configuration, starting the plugins, compiling the pipeline, serving until the context or the
  listener ends, and the exit status.

  Logging is not modelled. The flags, the listener and the signals are outside: which of the two
  channels of \<open>Run\<close> answers is an argument, and so are the orders in which Go iterates over maps.
\<close>

record http_server =
  hs_Addr :: string
  hs_ReadHeaderTimeout :: Duration
  hs_ReadTimeout :: Duration
  hs_WriteTimeout :: Duration

definition NewHTTPServer :: "string \<Rightarrow> Duration \<Rightarrow> http_server" where
  "NewHTTPServer addr timeout = \<lparr>hs_Addr = addr, hs_ReadHeaderTimeout = seconds 10,
     hs_ReadTimeout = timeout, hs_WriteTimeout = timeout\<rparr>"

text \<open>The maps of the plugin manager are part of the state; its handler is the one of the pipeline.\<close>

record 'w App =
  ap_Config :: Config
  ap_Plugins :: Manager
  ap_Pipeline :: "'w rworld Pipeline"
  ap_Server :: http_server

text \<open>
  What is outside: the plugin manager's surroundings, the environment, the orders of the maps, the
  shutdown of the listener.
\<close>

record 'w surroundings =
  su_plugins :: "'w outside"
  su_environ :: "string \<Rightarrow> string option"
  su_aliases :: "Config \<Rightarrow> (string \<times> ModelAlias) list"
  su_clients :: "(string, client) fmap \<Rightarrow> (string \<times> client) list"
  su_processes :: "(string, Process) fmap \<Rightarrow> (string \<times> Process) list"
  su_Shutdown :: "Duration \<Rightarrow> 'w \<Rightarrow> 'w"

definition secret_provider :: "'w surroundings \<Rightarrow> Config \<Rightarrow> Provider" where
  "secret_provider su cfg =
     \<lparr>Resolve = EnvProvider_Resolve (su_environ su) \<lparr>ep_Enabled = es_Enabled (sc_Env (cf_Secrets cfg))\<rparr>\<rparr>"

definition start_plugins :: "'w surroundings \<Rightarrow> Config \<Rightarrow> ('w, Manager) mexec" where
  "start_plugins su cfg =
     (let pm = NewManager (cf_Plugins cfg) (secret_provider su cfg)
      in if cf_Plugins cfg \<noteq> []
         then and_then (Start_manager (su_plugins su) pm) (\<lambda>_. done_with pm)
         else done_with pm)"

definition New_app :: "'w surroundings \<Rightarrow> Config \<Rightarrow> ('w, 'w App) mexec" where
  "New_app su cfg =
     and_then (start_plugins su cfg) (\<lambda>pm.
     do { reg \<leftarrow> reads ms_registry;
          and_then (of_sum (EWrapped ''compile pipeline: '')
              (compile cfg reg (NewModelRegistry (su_aliases su cfg))))
            (\<lambda>pl. done_with \<lparr>ap_Config = cfg, ap_Plugins = pm, ap_Pipeline = pl,
               ap_Server = NewHTTPServer (sv_Listen (cf_Server cfg)) (sv_RequestTimeout (cf_Server cfg))\<rparr>) })"

subsection \<open>Run\<close>

text \<open>What \<open>Run\<close> waits for: the end of the context, or of \<open>ListenAndServe\<close>.\<close>

datatype run_event =
    Ctx_done goerr
  | Server_closed
  | Server_failed goerr

definition Run_app :: "'w surroundings \<Rightarrow> run_event \<Rightarrow> 'w App \<Rightarrow> ('w, unit) mexec" where
  "Run_app su ev a =
     (case ev of
        Ctx_done err \<Rightarrow>
          do { modify (\<lambda>s. s\<lparr>ms_world :=
                 su_Shutdown su (sv_RequestTimeout (cf_Server (ap_Config a))) (ms_world s)\<rparr>);
               clients \<leftarrow> reads (\<lambda>s. map snd (su_clients su (ms_clients s)));
               processes \<leftarrow> reads (\<lambda>s. map snd (su_processes su (ms_processes s)));
               _ \<leftarrow> Stop_manager (su_plugins su) clients processes;
               mfail err }
      | Server_closed \<Rightarrow> done_with ()
      | Server_failed err \<Rightarrow> mfail err)"

text \<open>
  \<open>main\<close>: the exit status, \<open>None\<close> when a start never ends. \<open>cancelled\<close> tells whether the context
  has ended by the time \<open>Run\<close> returns.
\<close>

definition main ::
  "'w surroundings \<Rightarrow> (string \<Rightarrow> goerr + string) \<Rightarrow> (string \<Rightarrow> goerr + Config) \<Rightarrow> run_event \<Rightarrow> bool
     \<Rightarrow> string \<Rightarrow> 'w mstate \<Rightarrow> int option \<times> 'w mstate" where
  "main su read_file unmarshal ev cancelled path s =
     (case Load read_file unmarshal path of
        Inl _ \<Rightarrow> (Some 1, s)
      | Inr cfg \<Rightarrow>
          (case run_state (New_app su cfg) s of
             (Inl Hangs, s) \<Rightarrow> (None, s)
           | (Inl (Start_failed _), s) \<Rightarrow> (Some 1, s)
           | (Inr a, s) \<Rightarrow>
               (case run_state (Run_app su ev a) s of
                  (Inl _, s) \<Rightarrow> (Some (if cancelled then 0 else 1), s)
                | (Inr _, s) \<Rightarrow> (Some 0, s))))"

end
