(* ===== verification/AppProps.thy ===== *)
theory AppProps
  imports App
begin

text \<open>
  The gateway from its configuration to its shutdown: the plugin manager, the registry, the
  compiler and the application composed.
\<close>

subsection \<open>From the configuration to the registry\<close>

lemma valid_names:
  assumes "Validate cfg = Inr ()"
  shows "distinct (map pc_Name (cf_Plugins cfg))" and "\<not> confirmed (cf_Plugins cfg) reg [] cap"
  using assms by (auto simp: Validate_iff config_ok_def confirmed_def plugin_ok_def list_all_iff)

lemma start_plugins_started:
  assumes "Validate cfg = Inr ()" and "run_state (start_plugins su cfg) (initial_mstate w) = (Inr pm, t)"
  shows "Has (ms_registry t) name cap \<longleftrightarrow> confirmed (cf_Plugins cfg) (ms_registry t) name cap"
    and "fset (fmdom (ms_processes t)) = pc_Name ` set (cf_Plugins cfg)"
    and "fmpred (\<lambda>_ p. launched p) (ms_processes t)"
proof -
  have "(Has (ms_registry t) name cap \<longleftrightarrow> confirmed (cf_Plugins cfg) (ms_registry t) name cap) \<and>
    fset (fmdom (ms_processes t)) = pc_Name ` set (cf_Plugins cfg) \<and> fmpred (\<lambda>_ p. launched p) (ms_processes t)"
  proof (cases "cf_Plugins cfg")
    case Nil
    with assms(2) have "t = initial_mstate w" by (simp add: start_plugins_def)
    with Nil show ?thesis by (simp add: initial_mstate_def confirmed_def Has_def NewRegistry_def)
  next
    case (Cons pc pcs)
    with assms(2) have "run_state (Start_manager (su_plugins su) (NewManager (cf_Plugins cfg) (secret_provider su cfg)))
        (initial_mstate w) = (Inr (), t)"
      by (auto simp: start_plugins_def Let_def split: prod.splits sum.splits)
    from started [OF valid_names(1) [OF assms(1)] this [unfolded NewManager_def]] show ?thesis by simp
  qed
  then show "Has (ms_registry t) name cap \<longleftrightarrow> confirmed (cf_Plugins cfg) (ms_registry t) name cap"
    and "fset (fmdom (ms_processes t)) = pc_Name ` set (cf_Plugins cfg)"
    and "fmpred (\<lambda>_ p. launched p) (ms_processes t)" by blast+
qed

text \<open>What \<open>New\<close> returns: the started plugins and the pipeline compiled over their registry.\<close>

lemma New_app_parts:
  assumes "run_state (New_app su cfg) s = (Inr a, t)"
  obtains pm where "run_state (start_plugins su cfg) s = (Inr pm, t)"
    and "compile cfg (ms_registry t) (NewModelRegistry (su_aliases su cfg)) = Inr (ap_Pipeline a)"
    and "ap_Config a = cfg" and "ap_Plugins a = pm"
    and "ap_Server a = NewHTTPServer (sv_Listen (cf_Server cfg)) (sv_RequestTimeout (cf_Server cfg))"
  using assms by (auto simp: New_app_def of_sum_def mfail_def split: prod.splits sum.splits)

lemma resolves_confirmed:
  assumes "Validate cfg = Inr ()" and "run_state (start_plugins su cfg) (initial_mstate w) = (Inr pm, t)"
    and "\<And>n. Has (ms_registry t) n cap \<longleftrightarrow> (\<exists>v. look n = Inr v)"
  shows "resolves look name \<longleftrightarrow> confirmed (cf_Plugins cfg) (ms_registry t) name cap"
  using start_plugins_started(1) [OF assms(1,2), of name cap] assms(3) valid_names(2) [OF assms(1)]
  by (auto simp: resolves_def)

subsection \<open>Properties\<close>

text \<open>
  C10: A gateway that starts from a valid configuration is ready for chat completions exactly when
  it is anonymous or its authenticator is confirmed, its router is confirmed, and an upstream is named;
  every upstream and observer that is named is then confirmed too. Confirmed means: offered by the configured
  plugin of that name, which lists the capability and whose own metadata confirms it. The server
  has the configured address and timeouts.
\<close>

theorem gateway_ready_iff:
  assumes "Validate cfg = Inr ()" and "run_state (New_app su cfg) (initial_mstate w) = (Inr a, t)"
  shows "let pl = cf_Pipeline cfg; offers = confirmed (cf_Plugins cfg) (ms_registry t)
    in (Ready (ap_Pipeline a) \<longleftrightarrow>
          (au_Anonymous (cf_Auth cfg) \<or> offers (pl_Authenticator pl) AuthenticatorCap) \<and>
          offers (pl_Router pl) RouterCap \<and> pl_UpstreamProviders pl \<noteq> []) \<and>
       list_all (\<lambda>n. offers n UpstreamProviderCap) (pl_UpstreamProviders pl) \<and>
       list_all (\<lambda>n. offers n ObserverCap) (pl_Observers pl @ pl_BlockingObservers pl) \<and>
       ap_Server a = \<lparr>hs_Addr = sv_Listen (cf_Server cfg), hs_ReadHeaderTimeout = seconds 10,
         hs_ReadTimeout = sv_RequestTimeout (cf_Server cfg), hs_WriteTimeout = sv_RequestTimeout (cf_Server cfg)\<rparr>"
proof -
  from assms(2) obtain pm where pm: "run_state (start_plugins su cfg) (initial_mstate w) = (Inr pm, t)"
    and comp: "compile cfg (ms_registry t) (NewModelRegistry (su_aliases su cfg)) = Inr (ap_Pipeline a)"
    and srv: "ap_Server a = NewHTTPServer (sv_Listen (cf_Server cfg)) (sv_RequestTimeout (cf_Server cfg))"
    by (rule New_app_parts)
  note offers = resolves_confirmed [OF assms(1) pm] and has = start_plugins_started(1) [OF assms(1) pm]
  from comp have ok: "compilable cfg (ms_registry t)"
    and p: "ap_Pipeline a = compiled cfg (ms_registry t) (NewModelRegistry (su_aliases su cfg))"
    by (simp_all add: compile_Inr_iff)
  have named: "confirmed (cf_Plugins cfg) (ms_registry t) n UpstreamProviderCap"
    if "n \<in> set (pl_UpstreamProviders (cf_Pipeline cfg))" for n
    using that ok has [of n UpstreamProviderCap] by (auto simp: compilable_def Let_def upstream_table.has_find)
  have obs: "confirmed (cf_Plugins cfg) (ms_registry t) n ObserverCap"
    if "n \<in> set (pl_Observers (cf_Pipeline cfg)) \<union> set (pl_BlockingObservers (cf_Pipeline cfg))" for n
    using that ok has [of n ObserverCap] by (auto simp: compilable_def Let_def observer_table.has_find)
  show ?thesis
    using offers [OF authn_table.has_find] offers [OF router_table.has_find] named obs
    by (auto simp: p Ready_def compiled_def missing_caps_def Let_def srv NewHTTPServer_def list_all_iff)
qed

lemma filtered_launched: "list_all launched ps \<Longrightarrow> length (List.map_filter pr_cmd ps) = length ps"
  by (induction ps) (auto simp: launched_def List.map_filter_simps)

text \<open>
  C18: When the context ends, \<open>Run\<close> returns its error after interrupting the process of every
  configured plugin, and no other, each exactly once. When the listener fails instead, \<open>Run\<close>
  interrupts none of them.
\<close>

theorem shutdown_stops_plugins:
  assumes "Validate cfg = Inr ()" and "run_state (New_app su cfg) (initial_mstate w) = (Inr a, t)"
    and "enumerates (su_processes su (ms_processes t)) (ms_processes t)"
    and "run_state (Run_app su (Ctx_done err) a) t = (r, u)"
  shows "r = Inl (Start_failed err) \<and>
     (\<exists>acts. ms_trace u = ms_trace t @ acts \<and>
        length (List.map_filter interrupted acts) = length (cf_Plugins cfg) \<and>
        set (map Some (List.map_filter interrupted acts)) =
          (\<lambda>pc. Option.bind (fmlookup (ms_processes t) (pc_Name pc)) pr_cmd) ` set (cf_Plugins cfg)) \<and>
     run_state (Run_app su (Server_failed err) a) t = (Inl (Start_failed err), t)"
proof -
  from assms(2) obtain pm where pm: "run_state (start_plugins su cfg) (initial_mstate w) = (Inr pm, t)"
    by (rule New_app_parts)
  note started = start_plugins_started [OF assms(1) pm]
  define ps where "ps = su_processes su (ms_processes t)"
  let ?procs = "map snd ps"
  have enum: "distinct (map fst ps)" "fmap_of_list ps = ms_processes t"
    using assms(3) by (simp_all add: ps_def enumerates_def)
  then have look: "(n, p) \<in> set ps \<longleftrightarrow> fmlookup (ms_processes t) n = Some p" for n p
    by (metis fmap_of_list.rep_eq map_of_eq_Some_iff)
  have names: "fst ` set ps = pc_Name ` set (cf_Plugins cfg)"
    using started(2) enum(2) by (metis fmdom_fmap_of_list fset_of_list.rep_eq list.set_map)
  have run: "list_all launched ?procs"
    using started(3) look by (auto simp: list_all_iff fmpred_iff)
  obtain v acts where r: "r = Inl (Start_failed err)" and acts: "ms_trace u = ms_trace t @ acts"
    "List.map_filter interrupted acts = List.map_filter pr_cmd ?procs"
    using assms(4)
    by (auto simp: Run_app_def mfail_def ps_def split: prod.splits elim!: Stop_trace)
  have "length (List.map_filter interrupted acts) = length (cf_Plugins cfg)"
  proof -
    have "length (List.map_filter interrupted acts) = length (map fst ps)"
      using acts(2) filtered_launched [OF run] by simp
    also have "\<dots> = card (pc_Name ` set (cf_Plugins cfg))"
      using enum(1) names by (metis distinct_card list.set_map)
    also have "\<dots> = length (cf_Plugins cfg)"
      using valid_names(1) [OF assms(1)] by (metis distinct_card length_map list.set_map)
    finally show ?thesis .
  qed
  moreover have "set (map Some (List.map_filter interrupted acts)) =
      (\<lambda>pc. Option.bind (fmlookup (ms_processes t) (pc_Name pc)) pr_cmd) ` set (cf_Plugins cfg)"
  proof -
    have "set (map Some (List.map_filter pr_cmd qs)) = pr_cmd ` set qs" if "list_all launched qs" for qs
      using that
    proof (induction qs)
      case (Cons q qs)
      then have "set (map Some (List.map_filter pr_cmd qs)) = pr_cmd ` set qs" by simp
      with Cons.prems show ?case by (auto simp: launched_def List.map_filter_simps simp del: set_map)
    qed (simp add: List.map_filter_simps)
    from this [OF run] have "set (map Some (List.map_filter interrupted acts)) = (pr_cmd \<circ> snd) ` set ps"
      unfolding acts(2) by (simp add: image_comp)
    also have "\<dots> = (\<lambda>n. Option.bind (fmlookup (ms_processes t) n) pr_cmd) ` fst ` set ps"
      using look by (force simp: image_iff)
    finally show ?thesis unfolding names by (simp add: image_comp comp_def)
  qed
  ultimately show ?thesis using r acts(1) by (auto simp: Run_app_def mfail_def)
qed

end
