(* ===== verification/Durations.thy ===== *)
theory Durations
  imports ChatDecode Config
begin

text \<open>
  Durations in the configuration file (\<open>internal/config/duration.go\<close>): \<open>UnmarshalYAML\<close>, with
  \<open>time.ParseDuration\<close> of the standard library written out. A YAML node comes from a third-party
  package; what the code reads of it is a record.

  The digits after a decimal point are combined with the unit in floating point; that one
  expression, \<open>uint64(float64(f) * (float64(unit) / scale))\<close>, is the argument \<open>fraction\<close>.
\<close>

subsection \<open>Parsing\<close>

definition two_63 :: nat where
  "two_63 = 2 ^ 63"

text \<open>The microsecond, in ASCII and with the two characters for the Greek letter.\<close>

definition micro_units :: "string list" where
  "micro_units = [''us'', map char_of [194::nat, 181, 115], map char_of [206::nat, 188, 115]]"

definition unit_of :: "string \<Rightarrow> nat option" where
  "unit_of u =
     (if u = ''ns'' then Some 1
      else if u \<in> set micro_units then Some 1000
      else if u = ''ms'' then Some 1000000
      else if u = ''s'' then Some 1000000000
      else if u = ''m'' then Some 60000000000
      else if u = ''h'' then Some 3600000000000
      else None)"

text \<open>Leading digits with the overflow check of the source; \<open>None\<close> on overflow.\<close>

fun leading_int :: "nat \<Rightarrow> string \<Rightarrow> (nat \<times> string) option" where
  "leading_int x [] = Some (x, [])"
| "leading_int x (c # s) =
     (if \<not> is_digit c then Some (x, c # s)
      else if two_63 div 10 < x then None
      else let y = x * 10 + digit_val c
           in if two_63 < y then None else leading_int y s)"

text \<open>The digits of a fraction and its scale; digits that would overflow are dropped.\<close>

fun leading_fraction :: "bool \<Rightarrow> nat \<Rightarrow> nat \<Rightarrow> string \<Rightarrow> nat \<times> nat \<times> string" where
  "leading_fraction over x scale [] = (x, scale, [])"
| "leading_fraction over x scale (c # s) =
     (if \<not> is_digit c then (x, scale, c # s)
      else if over then leading_fraction True x scale s
      else if (two_63 - 1) div 10 < x then leading_fraction True x scale s
      else let y = x * 10 + digit_val c
           in if two_63 < y then leading_fraction True x scale s
              else leading_fraction False y (scale * 10) s)"

definition invalid_duration :: "string \<Rightarrow> goerr" where
  "invalid_duration orig = EText (''time: invalid duration '' @ Quote orig)"

definition unit_char :: "char \<Rightarrow> bool" where
  "unit_char c \<longleftrightarrow> c \<noteq> CHR ''.'' \<and> \<not> is_digit c"

text \<open>One number with its unit: its nanoseconds, and what follows.\<close>

definition duration_part :: "(nat \<Rightarrow> nat \<Rightarrow> nat \<Rightarrow> nat) \<Rightarrow> string \<Rightarrow> string \<Rightarrow> goerr + (nat \<times> string)" where
  "duration_part fraction orig s =
     (if \<not> (take 1 s = ''.'' \<or> list_ex is_digit (take 1 s)) then Inl (invalid_duration orig)
      else case leading_int 0 s of
        None \<Rightarrow> Inl (invalid_duration orig)
      | Some (v, s1) \<Rightarrow>
          (let pre = (length s1 \<noteq> length s);
               (f, scale, s2) = (if take 1 s1 = ''.'' then leading_fraction False 0 1 (drop 1 s1) else (0, 1, s1));
               post = (take 1 s1 = ''.'' \<and> length s2 \<noteq> length (drop 1 s1));
               u = takeWhile unit_char s2; rest = dropWhile unit_char s2
           in if \<not> pre \<and> \<not> post then Inl (invalid_duration orig)
              else if u = [] then Inl (EText (''time: missing unit in duration '' @ Quote orig))
              else case unit_of u of
                None \<Rightarrow> Inl (EText (''time: unknown unit '' @ Quote u @ '' in duration '' @ Quote orig))
              | Some unit \<Rightarrow>
                  if two_63 div unit < v then Inl (invalid_duration orig)
                  else let n = v * unit + (if 0 < f then fraction f unit scale else 0)
                       in if 0 < f \<and> two_63 < n then Inl (invalid_duration orig) else Inr (n, rest)))"

lemma leading_int_shorter: "leading_int x s = Some (v, t) \<Longrightarrow> length t \<le> length s"
  by (induction x s rule: leading_int.induct) (auto simp: Let_def split: if_splits)

lemma leading_fraction_shorter: "length (snd (snd (leading_fraction over x scale s))) \<le> length s"
  by (induction over x scale s rule: leading_fraction.induct) (auto simp: Let_def intro: le_SucI)

lemma duration_part_shorter:
  assumes "duration_part fraction orig s = Inr (n, rest)" shows "length rest < length s"
proof -
  from assms obtain v s1 where s1: "leading_int 0 s = Some (v, s1)"
    by (auto simp: duration_part_def split: if_splits option.splits)
  obtain f scale s2 where s2: "(if take 1 s1 = ''.'' then leading_fraction False 0 1 (drop 1 s1) else (0, 1, s1)) = (f, scale, s2)"
    by (metis surj_pair)
  have "length s2 \<le> length s1"
    using s2 leading_fraction_shorter [of False 0 1 "drop 1 s1"] by (auto split: if_splits)
  moreover have "takeWhile unit_char s2 \<noteq> []" and "rest = dropWhile unit_char s2"
    using assms s1 s2 by (auto simp: duration_part_def Let_def split: if_splits option.splits)
  moreover have "length (takeWhile unit_char s2) + length (dropWhile unit_char s2) = length s2"
    by (metis length_append takeWhile_dropWhile_id)
  ultimately show ?thesis using leading_int_shorter [OF s1] by (cases "takeWhile unit_char s2") auto
qed

function duration_parts :: "(nat \<Rightarrow> nat \<Rightarrow> nat \<Rightarrow> nat) \<Rightarrow> string \<Rightarrow> nat \<Rightarrow> string \<Rightarrow> goerr + nat" where
  "duration_parts fraction orig d s =
     (if s = [] then Inr d
      else case duration_part fraction orig s of
        Inl err \<Rightarrow> Inl err
      | Inr (n, rest) \<Rightarrow>
          (let d = (d + n) mod 2 ^ 64
           in if two_63 < d then Inl (invalid_duration orig)
              else duration_parts fraction orig d rest))"
  by pat_completeness auto
termination
  by (relation "measure (\<lambda>(_, _, _, s). length s)") (auto dest: duration_part_shorter)

declare duration_parts.simps [simp del]

definition ParseDuration :: "(nat \<Rightarrow> nat \<Rightarrow> nat \<Rightarrow> nat) \<Rightarrow> string \<Rightarrow> goerr + Duration" where
  "ParseDuration fraction s =
     (let neg = (take 1 s = ''-''); body = (if take 1 s \<in> {''-'', ''+''} then drop 1 s else s)
      in if body = ''0'' then Inr 0
         else if body = [] then Inl (invalid_duration s)
         else sum_bind (duration_parts fraction s 0 body) (\<lambda>d.
              if neg then Inr (Duration (- int d))
              else if two_63 - 1 < d then Inl (invalid_duration s)
              else Inr (Duration (int d))))"

subsection \<open>YAML\<close>

record yaml_node =
  yn_scalar :: bool
  yn_Tag :: string
  yn_Value :: string

definition parse_int_error :: "string \<Rightarrow> goerr" where
  "parse_int_error s =
     (let digits = (if take 1 s \<in> {''-'', ''+''} then drop 1 s else s)
      in EText (''strconv.ParseInt: parsing '' @ Quote s @ '': ''
           @ (if digits \<noteq> [] \<and> list_all is_digit digits then ''value out of range'' else ''invalid syntax'')))"

definition UnmarshalYAML :: "(nat \<Rightarrow> nat \<Rightarrow> nat \<Rightarrow> nat) \<Rightarrow> yaml_node \<Rightarrow> goerr + Duration" where
  "UnmarshalYAML fraction node =
     (if yn_scalar node then
        (if yn_Tag node = ''!!str'' then ParseDuration fraction (yn_Value node)
         else case ParseInt (yn_Value node) of
           None \<Rightarrow> Inl (parse_int_error (yn_Value node))
         | Some n \<Rightarrow> Inr (Duration n))
      else Inl (EText (''invalid duration node '' @ yn_Value node)))"

subsection \<open>Whole durations\<close>

lemma digit_char_is_digit [simp]: "d < 10 \<Longrightarrow> is_digit (digit_char d)"
  by (simp add: is_digit_def digit_char_def between_def)

lemma leading_int_digit:
  "d < 10 \<Longrightarrow> x * 10 + d \<le> two_63 \<Longrightarrow> leading_int x (digit_char d # t) = leading_int (x * 10 + d) t"
  by (auto simp: Let_def two_63_def)

lemma leading_int_show: "n \<le> two_63 \<Longrightarrow> leading_int 0 (show_nat n @ t) = leading_int n t"
proof (induction n arbitrary: t rule: show_nat.induct)
  case (1 n)
  show ?case
  proof (cases "n < 10")
    case True
    with 1(2) show ?thesis using leading_int_digit [of n 0 t] by (simp add: show_nat.simps [of n])
  next
    case False
    with 1(2) have "leading_int 0 (show_nat n @ t) = leading_int (n div 10) (digit_char (n mod 10) # t)"
      by (subst show_nat.simps) (simp add: 1(1) [OF False])
    also have "\<dots> = leading_int n t"
      using leading_int_digit [of "n mod 10" "n div 10" t] 1(2) by simp
    finally show ?thesis .
  qed
qed

text \<open>A list of amounts with their units, as \<open>1h30m\<close> is written.\<close>

definition show_parts :: "(nat \<times> string) list \<Rightarrow> string" where
  "show_parts ps = concat (map (\<lambda>(n, u). show_nat n @ u) ps)"

definition total :: "(nat \<times> string) list \<Rightarrow> nat" where
  "total ps = sum_list (map (\<lambda>(n, u). n * (case unit_of u of None \<Rightarrow> 0 | Some k \<Rightarrow> k)) ps)"

lemma micro_chars: "u \<in> set micro_units \<Longrightarrow> u \<noteq> [] \<and> list_all unit_char u"
proof -
  have "list_all (\<lambda>u. u \<noteq> [] \<and> list_all unit_char u) micro_units" by code_simp
  then show "u \<in> set micro_units \<Longrightarrow> u \<noteq> [] \<and> list_all unit_char u" by (simp add: list_all_iff)
qed

lemma unit_chars: "unit_of u = Some k \<Longrightarrow> u \<noteq> [] \<and> list_all unit_char u \<and> 0 < k"
  using micro_chars [of u]
  by (auto simp: unit_of_def unit_char_def is_digit_def between_def split: if_splits)

lemma show_nat_first: "is_digit (hd (show_nat n))"
  using show_nat_digits [of "hd (show_nat n)" n] by (simp add: is_digit_def between_def)

lemma show_parts_first: "show_parts ps = [] \<or> \<not> unit_char (hd (show_parts ps))" if "list_all (\<lambda>(n, u). unit_of u \<noteq> None) ps"
  by (cases ps) (auto simp: show_parts_def unit_char_def show_nat_first)

lemma duration_part_show:
  assumes "unit_of u = Some k" and "n * k < two_63" and "rest = [] \<or> \<not> unit_char (hd rest)"
  shows "duration_part fraction orig (show_nat n @ u @ rest) = Inr (n * k, rest)"
proof -
  from unit_chars [OF assms(1)] obtain c u' where u: "u = c # u'" "unit_char c" "0 < k"
    by (cases u) auto
  have "n \<le> n * k" using u(3) by simp
  then have n: "n \<le> two_63" using assms(2) by linarith
  have lead: "leading_int 0 (show_nat n @ u @ rest) = Some (n, u @ rest)"
    using u(1,2) by (simp add: leading_int_show [OF n] unit_char_def)
  have first: "list_ex is_digit (take 1 (show_nat n @ u @ rest))"
    using show_nat_first [of n] by (cases "show_nat n") auto
  have tk: "takeWhile unit_char (u @ rest) = u" "dropWhile unit_char (u @ rest) = rest"
    using unit_chars [OF assms(1)] assms(3)
    by (cases rest; auto simp: list_all_iff takeWhile_append dropWhile_append takeWhile_eq_all_conv)+
  have "\<not> two_63 div k < n"
    using assms(2) u(3) by (metis less_mult_imp_div_less not_less order.strict_implies_order div_le_mono nonzero_mult_div_cancel_right not_gr0)
  then show ?thesis
    using lead first u(2) tk unfolding duration_part_def
    by (simp add: u(1) unit_char_def assms(1) [unfolded u(1)])
qed

lemma duration_parts_show:
  assumes "list_all (\<lambda>(n, u). unit_of u \<noteq> None) ps" and "d + total ps < two_63"
  shows "duration_parts fraction orig d (show_parts ps) = Inr (d + total ps)"
  using assms
proof (induction ps arbitrary: d)
  case (Cons p ps)
  obtain n u where p: "p = (n, u)" by force
  with Cons.prems obtain k where k: "unit_of u = Some k" by auto
  have total: "total (p # ps) = n * k + total ps" by (simp add: total_def p k)
  with Cons.prems(2) have small: "n * k < two_63" "d + n * k < two_63" "d + n * k + total ps < two_63" by auto
  have shown: "show_parts (p # ps) = show_nat n @ u @ show_parts ps" by (simp add: show_parts_def p)
  have "show_parts ps = [] \<or> \<not> unit_char (hd (show_parts ps))"
    using Cons.prems(1) by (intro show_parts_first) simp
  from duration_part_show [OF k small(1) this]
  have "duration_part fraction orig (show_parts (p # ps)) = Inr (n * k, show_parts ps)"
    unfolding shown .
  moreover have "(d + n * k) mod 2 ^ 64 = d + n * k" using small(2) by (simp add: two_63_def)
  ultimately show ?case
    using Cons.IH [of "d + n * k"] Cons.prems(1) small
    by (subst duration_parts.simps) (simp add: total Let_def add.assoc shown)
qed (simp add: duration_parts.simps show_parts_def total_def)

text \<open>
  C40: A duration that is written as whole amounts with units, such as \<open>1h30m\<close>, is read as their
  sum, with the sign in front; and a plain number is read as that many nanoseconds.
\<close>

theorem durations_read_back:
  assumes "ps \<noteq> []" and "list_all (\<lambda>(n, u). unit_of u \<noteq> None) ps" and "total ps < two_63"
  shows "UnmarshalYAML fraction \<lparr>yn_scalar = True, yn_Tag = ''!!str'', yn_Value = show_parts ps\<rparr> =
       Inr (Duration (int (total ps))) \<and>
     UnmarshalYAML fraction \<lparr>yn_scalar = True, yn_Tag = ''!!str'', yn_Value = CHR ''-'' # show_parts ps\<rparr> =
       Inr (Duration (- int (total ps))) \<and>
     UnmarshalYAML fraction \<lparr>yn_scalar = True, yn_Tag = ''!!int'', yn_Value = show_nat (total ps)\<rparr> =
       Inr (Duration (int (total ps)))"
proof -
  obtain n u qs where ps: "ps = (n, u) # qs" using assms(1) by (cases ps) auto
  with assms(2) obtain k where k: "unit_of u = Some k" by auto
  then obtain c u' where u: "u = c # u'" "unit_char c" using unit_chars [OF k] by (cases u) auto
  have shown: "show_parts ps = show_nat n @ u @ show_parts qs" by (simp add: show_parts_def ps)
  have ne: "show_parts ps \<noteq> [] \<and> show_parts ps \<noteq> ''0''"
  proof (intro conjI notI)
    assume "show_parts ps = ''0''"
    moreover have "show_nat n \<noteq> []" by simp
    ultimately show False unfolding shown u(1) by (cases "show_nat n") auto
  qed (simp add: shown)
  have first: "is_digit (hd (show_parts m))" if "m = ps" for m
    using that show_nat_first [of n] by (cases "show_nat n") (auto simp: shown)
  have sign: "take 1 (show_parts ps) \<notin> {''-'', ''+''}"
    using first [OF refl] ne by (cases "show_parts ps") (auto simp: is_digit_def between_def)
  have digits: "show_nat (total ps) \<noteq> [] \<and> list_all is_digit (show_nat (total ps))"
    using show_nat_digits [of _ "total ps"] by (auto simp: list_all_iff is_digit_def between_def)
  have sign': "take 1 (show_nat (total ps)) \<notin> {''-'', ''+''}"
    using show_nat_first [of "total ps"]
    by (cases "show_nat (total ps)") (auto simp: is_digit_def between_def)
  have "ParseInt (show_nat (total ps)) = Some (int (total ps))"
    using digits sign' assms(3) by (simp add: ParseInt_def signed_def read_show_nat two_63_def Let_def)
  moreover have "duration_parts fraction orig 0 (show_parts ps) = Inr (total ps)" for orig
    using duration_parts_show [of ps 0] assms(2,3) by simp
  moreover have "\<not> two_63 - 1 < total ps" using assms(3) by simp
  ultimately show ?thesis
    using ne sign by (simp add: UnmarshalYAML_def ParseDuration_def Let_def)
qed

end
