(* ===== verification/SystemWitnesses.thy ===== *)
theory SystemWitnesses
  imports Witnesses RpcProps HttpProps AppProps Durations
begin

text \<open>
  The properties of the HTTP interface, the plugin manager and the application at concrete inputs.
  The operating system, the processes and the network of the example answer every operation at
  once; its world is a clock.
\<close>

subsection \<open>Secrets and durations\<close>

lemma undeclared_secrets_stay_hidden_witness:
  "ResolvePluginSecrets [(''key'', AString ''${secret:KEY}''), (''other'', AString ''${secret:OTHER}'')] [''KEY'']
       \<lparr>Resolve = (\<lambda>n. Inr ''v'')\<rparr> =
     ResolvePluginSecrets [(''key'', AString ''${secret:KEY}''), (''other'', AString ''${secret:OTHER}'')] [''KEY'']
       \<lparr>Resolve = (\<lambda>n. if n = ''KEY'' then Inr ''v'' else Inr ''w'')\<rparr>"
  using undeclared_secrets_stay_hidden [of "\<lparr>Resolve = (\<lambda>n. Inr ''v'')\<rparr>"
      "\<lparr>Resolve = (\<lambda>n. if n = ''KEY'' then Inr ''v'' else Inr ''w'')\<rparr>" "[''KEY'']"]
  by simp

lemma durations_read_back_witness:
  "UnmarshalYAML (\<lambda>_ _ _. 0) \<lparr>yn_scalar = True, yn_Tag = ''!!str'', yn_Value = ''2h30m''\<rparr> =
     Inr (Duration 9000000000000)"
proof -
  have "show_parts [(2, ''h''), (30, ''m'')] = ''2h30m''" by code_simp
  moreover have "total [(2, ''h''), (30, ''m'')] = 9000000000000"
    by (simp add: total_def unit_of_def micro_units_def)
  moreover note parts = calculation
  from durations_read_back [of "[(2, ''h''), (30, ''m'')]" "\<lambda>_ _ _. 0"] show ?thesis
    by (simp add: parts two_63_def unit_of_def micro_units_def)
qed

subsection \<open>Requests\<close>

definition example_fields :: "(string \<times> any) list" where
  "example_fields = map (\<lambda>kv. (fst kv, any_of_json (snd kv))) (request_fields example_request)"

lemma example_wire: "wire_request example_request" "rq_Model example_request \<noteq> []"
  by (simp_all add: wire_request_def example_request_def wire_message_def zero_message_def)

lemma request_roundtrip_witness:
  "decodeChatRequest (\<lambda>_. Inr example_fields) ''body'' = Inr example_request"
  by (rule request_roundtrip [OF example_wire]) (simp_all add: example_fields_def json_request_fields)

definition example_http :: http_request where
  "example_http = \<lparr>rh_Header = [], rh_RemoteAddr = ''ip'', rh_Body = ''body''\<rparr>"

lemma example_decodes:
  "decodeChatRequest (\<lambda>_. Inr example_fields) (rh_Body example_http) = Inr example_request"
  by (rule fields_decode [OF example_wire refl example_fields_def])

lemma example_caller: "requestHeaders example_http = []" "sourceIP example_http = ''ip''"
  by (simp add: example_http_def requestHeaders_def)
    (simp add: example_http_def sourceIP_def SplitHostPort_def last_colon_def)

lemmas example_http_parts = example_caller example_decodes

lemma chat_response_witness:
  "\<exists>out t. chat example_pipeline example_env (\<lambda>_. Inr example_fields) example_http example_start = (out, t) \<and>
     fmlookup (re_Headers (x_result t)) ''X-Gateway-Request-Id'' = Some (re_RequestID (x_result t))"
proof -
  obtain out t where c: "chat example_pipeline example_env (\<lambda>_. Inr example_fields) example_http example_start = (out, t)"
    by force
  from chat_response [OF example_compiles example_queue c] c show ?thesis
    by (auto simp: example_http_parts Let_def)
qed

lemma refused_chat_status_witness:
  "\<exists>w hs t. chat deny_pipeline example_env (\<lambda>_. Inr example_fields) example_http small_start = (Responded w, t) \<and>
     hw_sent w = Some (401, hs)"
proof -
  obtain out t where c: "chat deny_pipeline example_env (\<lambda>_. Inr example_fields) example_http small_start = (out, t)"
    by force
  then have "t = snd deny_run"
    by (auto simp: chat_def example_http_parts split: prod.splits)
  with deny_trace obtain rq where "x_trace t = x_trace small_start @ [] @ [ACallAuthn rq (Inr deny_answer)]"
    by blast
  from refused_chat_status [OF c example_http_parts(3) this refuses_deny] c show ?thesis
    by (auto simp: sends_def refusal_http_def)
qed

subsection \<open>A gateway with one plugin\<close>

definition tick :: "nat \<Rightarrow> 'b \<Rightarrow> (nat, 'a, 'b) answering" where
  "tick n b a w = (Inr b, w + n)"

definition refuse :: "(nat, 'a, 'b) answering" where
  "refuse a w = (Inl (EText ''refused''), w)"

definition example_os :: "nat os" where
  "example_os = \<lparr>os_Stat = tick 1 rwxr_xr_x, os_Open = tick 1 0, os_ReadAll = tick 1 [], os_Close = tick 1 (),
     os_MkdirAll = tick 1 (), os_OpenFile = tick 1 0, os_Write = tick 1 (), os_CreateTemp = tick 1 (''/tmp/t'', 1),
     os_Remove = tick 1 (), os_Chmod = tick 1 (), os_Getenv = (\<lambda>_ _. []), os_UserHomeDir = (\<lambda>_. Inr ''/home''),
     os_TempDir = (\<lambda>_. ''/tmp''), os_NewRequest = (\<lambda>_. None), os_Do = refuse, os_ZipOpen = refuse,
     os_TarOpen = refuse, os_sha256_hex = (\<lambda>s. s)\<rparr>"

definition example_px :: "nat px" where
  "example_px = \<lparr>px_Now = (\<lambda>w. (0, w)), px_Deadline = Some 1000, px_Launch = tick 1 7, px_DialSocket = tick 1 (),
     px_Sleep = refuse, px_Interrupt = tick 1 (), px_Kill = tick 1 (), px_Wait = (\<lambda>_ w. (Exited None, w))\<rparr>"

definition example_metadata :: Metadata where
  "example_metadata = zero_metadata\<lparr>md_Capabilities :=
     [\<lparr>cd_Type = RouterCap, cd_Name = [], cd_Version = []\<rparr>, \<lparr>cd_Type = UpstreamProviderCap, cd_Name = [], cd_Version = []\<rparr>]\<rparr>"

text \<open>\<open>version\<close> is the protocol version the plugin selects.\<close>

definition example_net :: "int \<Rightarrow> nat net" where
  "example_net version = \<lparr>nw_Dial = tick 1 0, nw_Close = tick 1 (),
     nw_Handshake = (\<lambda>_. tick 1 \<lparr>hs_SelectedProtocolVersion = version, hs_PluginName = [], hs_PluginVersion = [],
       hs_Diagnostics = []\<rparr>),
     nw_GetMetadata = (\<lambda>_. tick 1 example_metadata), nw_GetConfigSchema = (\<lambda>_. tick 1 \<lparr>gc_SchemaJSON = []\<rparr>),
     nw_Configure = (\<lambda>_. tick 1 \<lparr>cfr_Diagnostics = []\<rparr>), nw_Health = (\<lambda>_. refuse), nw_Authenticate = (\<lambda>_. refuse),
     nw_Authorize = (\<lambda>_. refuse), nw_CheckRateLimit = (\<lambda>_. refuse), nw_CommitUsage = (\<lambda>_. refuse),
     nw_Route = (\<lambda>_. refuse), nw_InvokeStart = (\<lambda>_. refuse),
     nw_InvokeNext = (\<lambda>_. tick 1 \<lparr>inr_Chunk = example_chunk, inr_EOF = True\<rparr>), nw_InvokeCancel = (\<lambda>_. refuse),
     nw_ListModels = (\<lambda>_. refuse), nw_CacheLookup = (\<lambda>_. refuse), nw_CacheStore = (\<lambda>_. refuse), nw_Emit = (\<lambda>_. refuse),
     nw_ResolvePrompt = (\<lambda>_. refuse), nw_EstimateCost = (\<lambda>_. refuse)\<rparr>"

definition example_outside :: "int \<Rightarrow> nat outside" where
  "example_outside version = \<lparr>ou_os = example_os, ou_px = example_px, ou_net = example_net version, ou_fuel = 3,
     ou_parse_json = (\<lambda>_. Inr ANil), ou_compile_schema = (\<lambda>_. Inr (\<lambda>_. Inr ()))\<rparr>"

definition serving_plugin :: PluginConfig where
  "serving_plugin = (example_plugin ''main'')\<lparr>pc_Capabilities := [RouterCap, UpstreamProviderCap],
     pc_FailMode := ''closed'', pc_Trust := ''community''\<rparr>"

definition serving_config :: Config where
  "serving_config = zero_config\<lparr>
     cf_Server := \<lparr>sv_Listen = '':8080'', sv_RequestTimeout = 0, sv_StreamIdleTimeout = 0\<rparr>,
     cf_Auth := \<lparr>au_Anonymous = True\<rparr>, cf_Plugins := [serving_plugin],
     cf_Pipeline := (cf_Pipeline zero_config)\<lparr>pl_Router := ''main'', pl_UpstreamProviders := [''main'']\<rparr>\<rparr>"

definition example_surroundings :: "nat surroundings" where
  "example_surroundings = \<lparr>su_plugins = example_outside 1, su_environ = (\<lambda>_. None), su_aliases = (\<lambda>_. []),
     su_clients = sorted_list_of_fmap, su_processes = sorted_list_of_fmap, su_Shutdown = (\<lambda>_ w. w)\<rparr>"

abbreviation serving_run :: "(start_halt + nat App) \<times> nat mstate" where
  "serving_run \<equiv> run_state (New_app example_surroundings serving_config) (initial_mstate 0)"

lemma serving_valid: "Validate serving_config = Inr ()"
  by code_simp

text \<open>A step that succeeds from every state, with an answer and a state that satisfy \<open>P\<close>.\<close>

definition yields :: "('s, 'e, 'a) prog \<Rightarrow> ('a \<Rightarrow> 's \<Rightarrow> bool) \<Rightarrow> bool" where
  "yields m P \<longleftrightarrow> (\<forall>s. \<exists>a t. run_state m s = (Inr a, t) \<and> P a t)"

lemma yields_then:
  assumes "yields m (\<lambda>a _. P a)" and "\<And>a. P a \<Longrightarrow> yields (k a) Q" shows "yields (and_then m k) Q"
  unfolding yields_def
proof
  fix s
  obtain a t where "run_state m s = (Inr a, t)" "P a" using assms(1) unfolding yields_def by blast
  with assms(2) [OF this(2)] show "\<exists>b u. run_state (and_then m k) s = (Inr b, u) \<and> Q b u"
    unfolding yields_def by simp
qed

lemma yields_done: "(\<And>t. P a t) \<Longrightarrow> yields (done_with a) P"
  by (simp add: yields_def)

lemma yields_modify: "(\<And>u. P () (f u)) \<Longrightarrow> yields (State_Monad.bind (modify f) done_with) P"
  by (simp add: yields_def)

lemma yields_rpc:
  "yields (with_rpc wrap (DialRPCPlugin (example_net v) ''unix'' a n)) (\<lambda>_ _. True)"
  "yields (with_rpc wrap (Handshake (example_net 1) c)) (\<lambda>_ _. True)"
  "yields (with_rpc wrap (GetMetadata (example_net v) c)) (\<lambda>md _. md = example_metadata)"
  "yields (with_rpc wrap (GetConfigSchema (example_net v) c)) (\<lambda>schema _. schema = [])"
  "yields (with_rpc wrap (Configure (example_net v) c config secrets)) (\<lambda>_ _. True)"
  by (simp_all add: yields_def with_rpc_def DialRPCPlugin_def Handshake_def GetMetadata_def GetConfigSchema_def
      Configure_def rpc_call_def callOn_def on_net_def client_field_def update_client_def example_net_def tick_def)

lemma yields_source: "yields (with_os id (resolveSource example_os serving_plugin)) (\<lambda>_ _. True)"
proof -
  have "\<not> IsDir rwxr_xr_x" "executable rwxr_xr_x" by code_simp+
  then show ?thesis
    by (simp add: yields_def with_os_def resolveSource_def serving_plugin_def example_plugin_def effective_checksum_def
        ResolveFilesystem_def fileSHA256_def wrapping_def deferring_def sys_defs sys_def example_os_def tick_def)
qed

lemma yields_process:
  "yields (with_process wrap (start_in_context example_os example_px p)) (\<lambda>_ _. True)"
  by (simp add: yields_def with_process_def start_in_context_def start_context_def default_wait_def Start_process_def launch_def unix_nano_def sys_defs sys_def wrapping_def
      example_os_def example_px_def tick_def wait_socket.simps Let_def)

lemma outside_parts [simp]:
  "ou_os (example_outside v) = example_os" "ou_px (example_outside v) = example_px"
  "ou_net (example_outside v) = example_net v" "ou_fuel (example_outside v) = 3"
  by (simp_all add: example_outside_def)

lemma yields_config:
  "yields (of_sum wrap (ResolvePluginSecrets (pc_Config serving_plugin) names sp)) (\<lambda>_ _. True)"
  "yields (of_sum wrap (validateJSONSchema ou [] cfg)) (\<lambda>_ _. True)"
proof -
  have "TrimSpace [] = []" by code_simp
  then show "yields (of_sum wrap (validateJSONSchema ou [] cfg)) (\<lambda>_ _. True)"
    by (simp add: yields_def of_sum_def validateJSONSchema_def)
qed (simp add: yields_def of_sum_def serving_plugin_def example_plugin_def ResolvePluginSecrets_def as_map_def)

lemma yields_connect:
  "yields (connect (example_outside 1) sp serving_plugin proc) (\<lambda>y _. snd y = example_metadata)"
  unfolding connect_def Let_def outside_parts
  by (intro yields_then [OF yields_rpc(1)] yields_then [OF yields_rpc(2)] yields_then [OF yields_rpc(3)]
      yields_then [OF yields_rpc(4)])
    (auto intro!: yields_then [OF yields_config(1)] yields_then [OF yields_config(2)]
      yields_then [OF yields_rpc(5)] yields_done)

lemma serving_trusted: "\<not> refused_untrusted serving_plugin"
  by code_simp

abbreviation serving_entered :: "nat mstate \<Rightarrow> bool" where
  "serving_entered t \<equiv> \<exists>proc c u. t = enter_plugin (example_outside 1) serving_plugin proc c example_metadata u"

lemma yields_start: "yields (start_plugin (example_outside 1) sp serving_plugin) (\<lambda>_ t. serving_entered t)"
  unfolding start_plugin_def if_not_P [OF serving_trusted] outside_parts
  by (intro yields_then [OF yields_source] yields_then [OF yields_process] yields_then [OF yields_connect])
    (auto intro!: yields_modify, blast)

lemma serving_registry:
  assumes "serving_entered t" and "cap = RouterCap \<or> cap = UpstreamProviderCap"
  shows "Has (ms_registry t) ''main'' cap"
proof -
  have "pc_Name serving_plugin = ''main''" "cap \<in> set (pc_Capabilities serving_plugin)" "cap \<in> set all_caps"
    "metadataHasCapability example_metadata cap"
    using assms(2)
    by (auto simp: serving_plugin_def example_plugin_def all_caps_def metadataHasCapability_def example_metadata_def)
  then show ?thesis using assms(1) by (auto simp: enter_plugin_def registerClient_effect)
qed

lemma serving_started:
  obtains a t where "serving_run = (Inr a, t)"
proof -
  obtain t where t: "run_state (start_plugin (example_outside 1) (secret_provider example_surroundings serving_config)
      serving_plugin) (initial_mstate 0) = (Inr (), t)" "serving_entered t"
    using yields_start unfolding yields_def by (metis (full_types) old.unit.exhaust)
  have parts: "cf_Plugins serving_config = [serving_plugin]" "su_plugins example_surroundings = example_outside 1"
    by (simp_all add: serving_config_def example_surroundings_def)
  have "compilable serving_config (ms_registry t)"
    using serving_registry [OF t(2), of UpstreamProviderCap]
    by (simp add: compilable_def optional_ok_def serving_config_def zero_config_def Let_def upstream_table.has_find)
  with t that show ?thesis
    by (simp add: New_app_def start_plugins_def Start_manager_def NewManager_def parts Let_def of_sum_def
        compile_compilable)
qed

lemma serving_clauses: "cf_Plugins serving_config = [serving_plugin]" "pc_Name serving_plugin = ''main''"
  "pl_Router (cf_Pipeline serving_config) = ''main''" "pl_UpstreamProviders (cf_Pipeline serving_config) = [''main'']"
  "au_Anonymous (cf_Auth serving_config)"
  by (simp_all add: serving_config_def serving_plugin_def example_plugin_def zero_config_def)

lemma gateway_ready_iff_witness:
  "\<exists>a t. serving_run = (Inr a, t) \<and> Ready (ap_Pipeline a) = confirmed [serving_plugin] (ms_registry t) ''main'' RouterCap \<and>
     confirmed [serving_plugin] (ms_registry t) ''main'' UpstreamProviderCap \<and> hs_Addr (ap_Server a) = '':8080''"
proof -
  obtain a t where run: "serving_run = (Inr a, t)" by (rule serving_started)
  from gateway_ready_iff [OF serving_valid run] run show ?thesis
    by (simp add: Let_def serving_clauses) (simp add: serving_config_def)
qed

lemma shutdown_stops_plugins_witness:
  "\<exists>a t u acts. serving_run = (Inr a, t) \<and>
     run_state (Run_app example_surroundings (Ctx_done (EText ''cancelled'')) a) t =
       (Inl (Start_failed (EText ''cancelled'')), u) \<and>
     ms_trace u = ms_trace t @ acts \<and> length (List.map_filter interrupted acts) = 1"
proof -
  obtain a t where run: "serving_run = (Inr a, t)" by (rule serving_started)
  obtain r u where stop: "run_state (Run_app example_surroundings (Ctx_done (EText ''cancelled'')) a) t = (r, u)"
    by force
  have "enumerates (su_processes example_surroundings (ms_processes t)) (ms_processes t)"
    by (auto simp: example_surroundings_def enumerates_def fmlookup_of_list intro!: fmap_ext)
      (simp add: sorted_list_of_fmap_def comp_def sorted_list_of_fset.rep_eq)
  from shutdown_stops_plugins [OF serving_valid run this stop] run stop show ?thesis
    by (auto simp: serving_clauses)
qed

subsection \<open>Plugins that do not start\<close>

definition example_manager :: Manager where
  "example_manager = \<lparr>mn_cfg = [serving_plugin], mn_secretProvider = \<lparr>Resolve = Inr\<rparr>\<rparr>"

definition ticking_px :: "nat px" where
  "ticking_px = example_px\<lparr>px_Now := (\<lambda>w. (int w, w)), px_DialSocket := refuse, px_Sleep := tick 50 ()\<rparr>"

lemma Start_returns_witness:
  "\<exists>r t. Start_process example_os ticking_px (NewProcess ''p'' ''/opt/p'') \<lparr>o_world = 0, o_trace = []\<rparr> = Some (r, t)"
proof -
  have "clock_advances ticking_px"
    by (simp add: clock_advances_def ticking_px_def tick_def refuse_def)
  from Start_returns [OF this] show ?thesis .
qed

lemma untrusted_never_started_witness:
  "run_state (Start_manager (example_outside 1)
      \<lparr>mn_cfg = [] @ serving_plugin\<lparr>pc_Trust := ''untrusted''\<rparr> # [], mn_secretProvider = \<lparr>Resolve = Inr\<rparr>\<rparr>) (initial_mstate 0) =
    (Inl (Start_failed (refusal_of (serving_plugin\<lparr>pc_Trust := ''untrusted''\<rparr>))), initial_mstate 0)"
proof -
  have "pc_Trust (serving_plugin\<lparr>pc_Trust := ''untrusted''\<rparr>) = ''untrusted'' \<and>
      \<not> sb_Enabled (pc_Sandbox (serving_plugin\<lparr>pc_Trust := ''untrusted''\<rparr>))"
    by (simp add: serving_plugin_def example_plugin_def)
  from untrusted_never_started [OF this, where before = "[]" and after = "[]" and ou = "example_outside 1"] show ?thesis
    by (simp add: Start_manager_def)
qed

text \<open>A plugin of another protocol version: launched, and then refused in the handshake.\<close>

definition halts :: "('s, 'e, 'a) prog \<Rightarrow> bool" where
  "halts m \<longleftrightarrow> (\<forall>s. isl (fst (run_state m s)))"

lemma halts_first: "halts m \<Longrightarrow> halts (and_then m k)"
  unfolding halts_def by (auto split: prod.splits sum.splits) (metis fst_conv sum.disc(2))

lemma halts_then: "yields m (\<lambda>a _. P a) \<Longrightarrow> (\<And>a. halts (k a)) \<Longrightarrow> halts (and_then m k)"
  unfolding halts_def yields_def by (auto split: prod.splits sum.splits)

lemma halts_handshake: "halts (with_rpc wrap (Handshake (example_net 2) c))"
  by (simp add: halts_def with_rpc_def Handshake_def rpc_call_def callOn_def on_net_def client_field_def
      example_net_def tick_def)

lemma halts_start: "halts (start_plugin (example_outside 2) sp serving_plugin)"
  unfolding start_plugin_def if_not_P [OF serving_trusted] connect_def Let_def outside_parts
  by (rule halts_then [OF yields_source], rule halts_then [OF yields_process], rule halts_first,
      rule halts_then [OF yields_rpc(1)], rule halts_first, rule halts_handshake)

lemma start_keeps_completed_only_witness:
  "\<exists>h t. run_state (Start_manager (example_outside 2) example_manager) (initial_mstate 0) = (Inl h, t) \<and>
     names_of (ms_processes t) = {} \<and> list_all unsignalled (ms_trace t)"
proof -
  obtain r t where run: "run_state (Start_manager (example_outside 2) example_manager) (initial_mstate 0) = (r, t)"
    by force
  have "isl (fst (run_state (start_plugin (example_outside 2) \<lparr>Resolve = Inr\<rparr> serving_plugin) (initial_mstate 0)))"
    using halts_start by (simp add: halts_def)
  with run have "isl r" by (auto simp: Start_manager_def example_manager_def split: prod.splits sum.splits)
  with start_keeps_completed_only [OF run] run show ?thesis
    by (auto simp: example_manager_def initial_mstate_def names_of_def isl_def)
qed

subsection \<open>A stream of a remote upstream\<close>

lemma forwarding_in_order_witness:
  "\<exists>t fuel. run_state (forward (example_net 1) 0 5 fuel)
     \<lparr>rw_net = 0, rw_clients = [\<lparr>ci_instance = [], ci_network = [], ci_address = [], ci_conn = 0,
        ci_metadata = zero_metadata\<rparr>]\<rparr> = (([], True), t)"
proof -
  let ?w = "\<lparr>rw_net = 0, rw_clients = [\<lparr>ci_instance = [], ci_network = [], ci_address = [], ci_conn = 0,
        ci_metadata = zero_metadata\<rparr>]\<rparr> :: nat rworld"
  obtain w where f: "run_state (fetch_next (example_net 1) 0 5) ?w = (FEnd, w)"
    by (simp add: fetch_next_def rpc_call_def callOn_def on_net_def client_field_def example_net_def tick_def)
  let ?s = "after_fetch FEnd w (start_forward ?w)"
  have "freach (example_net 1) 0 5 ?w ?s"
    using f by (intro freach.step [OF freach.start fstep.fetch]) (simp_all add: start_forward_def)
  from forwarding_in_order [OF this] show ?thesis
    by (auto simp: after_fetch_def start_forward_def)
qed

end
