(* ===== verification/CacheKeys.thy ===== *)
theory CacheKeys
  imports ExecuteErrors
begin

text \<open>
  The two cache keys of a request: the one \<open>ExecuteChat\<close> looks up before routing, and the one
  \<open>afterSuccess\<close> stores the response under. The proof follows the property map of the request
  through the run: after the lookup no step writes to a map that exists, so the router is shown the
  map the lookup hashed, and the stored key hashes a map that was copied from it.
\<close>

subsection \<open>Two maps, two preimages\<close>

definition route_keys :: "string fset" where
  "route_keys = {| ''duration_ms'', ''route_provider'', ''route_model'', ''fallback_index'',
     ''request_json'', ''response_json'', ''payloads_captured'' |}"

lemma stored_props_larger:
  assumes "fmdom m |\<inter>| (route_keys |\<union>| fmdom (sr_Properties r)) = {||}"
  shows "m \<subseteq>\<^sub>f withTranscriptProps c (routeEventProps m r i started t) req resp"
    and "''fallback_index'' |\<in>| fmdom (withTranscriptProps c (routeEventProps m r i started t) req resp)"
    and "''fallback_index'' |\<notin>| fmdom m"
proof -
  have no: "k |\<notin>| route_keys \<and> fmlookup (sr_Properties r) k = None" if "fmlookup m k \<noteq> None" for k
    using assms that by (auto simp: fmlookup_dom_iff dest: fmdomI)
  have "fmlookup (withTranscriptProps c (routeEventProps m r i started t) req resp) k = fmlookup m k"
    if "fmlookup m k \<noteq> None" for k
    using no [OF that] by (simp add: route_keys_def withTranscriptProps_lookup routeEventProps_lookup)
  then show "m \<subseteq>\<^sub>f withTranscriptProps c (routeEventProps m r i started t) req resp"
    by (auto simp: fmsubset_alt_def fmpred_iff)
  show "''fallback_index'' |\<in>| fmdom (withTranscriptProps c (routeEventProps m r i started t) req resp)"
    using routeEventProps_has_index [of m r i started t]
    by (simp add: fmlookup_dom_iff withTranscriptProps_lookup)
  show "''fallback_index'' |\<notin>| fmdom m"
    using assms by (auto simp: route_keys_def)
qed

lemma preimages_differ:
  assumes "fmdom m |\<inter>| (route_keys |\<union>| fmdom (sr_Properties r)) = {||}"
  shows "cache_preimage req ident m \<noteq>
     cache_preimage req ident (withTranscriptProps c (routeEventProps m r i started t) req resp)"
  using larger_map_longer_text [OF stored_props_larger [OF assms], of c i started t req resp]
  by (auto simp: cache_preimage_def)

subsection \<open>Steps that keep the maps\<close>

text \<open>
  \<open>frame strict P\<close>: the step only adds maps (when not \<open>strict\<close> it may also write to one), and the
  actions it records satisfy \<open>P\<close>.
\<close>

definition frame :: "bool \<Rightarrow> (action \<Rightarrow> bool) \<Rightarrow> 'w xstate \<Rightarrow> 'w xstate \<Rightarrow> bool" where
  "frame strict P s t \<longleftrightarrow>
     (if strict then prefix (x_heap s) (x_heap t) else length (x_heap s) \<le> length (x_heap t)) \<and>
     (\<exists>acts. x_trace t = x_trace s @ acts \<and> list_all P acts)"

interpretation frame: step_relation "frame strict P" for strict P
proof unfold_locales
  show "frame strict P s s" for s :: "'a xstate" by (simp add: frame_def)
  show "frame strict P s t \<Longrightarrow> frame strict P t u \<Longrightarrow> frame strict P s u" for s t u :: "'a xstate"
    by (cases strict) (fastforce simp: frame_def)+
qed

lemma frame_weaken:
  assumes "state_io_rel (frame True P) m" and "\<And>a. P a \<Longrightarrow> Q a"
  shows "state_io_rel (frame strict Q) m"
  using assms unfolding state_io_rel_def frame_def
  by (metis (mono_tags, lifting) list.pred_mono_strong prefix_length_le)

text \<open>The actions that have nothing to do with the keys.\<close>

definition plain :: "action \<Rightarrow> bool" where
  "plain a = (case a of ACallLookup rq ans \<Rightarrow> False | ACallRoute rq ans \<Rightarrow> False
     | ACallStore rq ans \<Rightarrow> False | _ \<Rightarrow> True)"

lemma plain_simps [simp]:
  "plain (ACallAuthn q1 a1)" "plain (ACallAuthz q2 a2)" "plain (ACallPrompt q3 a3)"
  "plain (ACallCheck q4 a4)" "plain (ACallInvoke n q5 a5)" "plain (ACallCommit q6 a6)"
  "plain (ACallObserve q7 a7)" "plain (AEvent ev)" "\<not> plain (ACallLookup q8 a8)"
  "\<not> plain (ACallRoute q9 a9)" "\<not> plain (ACallStore q10 a10)"
  by (simp_all add: plain_def)

named_theorems framed \<open>the parts of a request, as steps that keep the maps\<close>

lemmas [framed] = frame.keeps

lemma framed_prims [framed]:
  "state_io_rel (frame True P) (new_uuid e)" "state_io_rel (frame True P) (now e)"
  "state_io_rel (frame True P) (new_map m)" "state_io_rel (frame True P) (read_map r)"
  "state_io_rel (frame True P) (set_header k v)" "state_io_rel (frame True P) (update_result f)"
  by (auto simp: state_io_rel_def frame_def new_uuid_def now_def new_map_def read_map_def set_header_def
      update_result_def split: prod.splits)

lemma framed_write: "state_io_rel (frame False P) (write_map r f)"
  by (simp add: state_io_rel_def frame_def write_map_def)

lemma framed_call: "(\<And>ans. P (mk a ans)) \<Longrightarrow> state_io_rel (frame True P) (call mk m a)"
  by (auto simp: state_io_rel_def frame_def call_def split: prod.splits)

lemma framed_calls [framed]:
  "state_io_rel (frame True plain) (call ACallAuthn m1 q1)" "state_io_rel (frame True plain) (call ACallAuthz m2 q2)"
  "state_io_rel (frame True plain) (call ACallPrompt m3 q3)" "state_io_rel (frame True plain) (call ACallCheck m4 q4)"
  "state_io_rel (frame True plain) (call (ACallInvoke n) m5 q5)" "state_io_rel (frame True plain) (call ACallCommit m6 q6)"
  "state_io_rel (frame True plain) (call ACallObserve m7 q7)"
  by (rule framed_call, simp)+

lemma framed_enqueue [framed]: "state_io_rel (frame True plain) (enqueue ev)"
  by (auto simp: state_io_rel_def frame_def enqueue_def split: option.splits)

lemma framed_parts [framed]:
  "state_io_rel (frame True plain) (fail err)" "state_io_rel (frame True plain) nil_dereference"
  "state_io_rel (frame True plain) (element xs n)"
  "state_io_rel (frame True plain) (emit e name rid ten ref us)"
  "state_io_rel (frame True plain) (emitError e name rid ten ref err)"
  "state_io_rel (frame True plain) (summary_value sm)"
  "state_io_rel (frame True plain) (rate_limit_headers st)"
  "state_io_rel (frame True plain) (route_props e ref r i started)"
  "state_io_rel (frame True plain) (timed_props e ref started)"
  "state_io_rel (frame True plain) (transcript_props p ref req resp)"
  "state_io_rel (frame True plain) (announce_route r i)"
  "state_io_rel (frame True plain) (collectResponse e chunks model)"
  "state_io_rel (frame True plain) (commit_usage p ctx ident usage)"
  "state_io_rel (frame True plain) (authenticate p ctx headers ip)"
  "state_io_rel (frame True plain) (authorize p ctx ident summary)"
  "state_io_rel (frame True plain) (check_rate_limit p ctx ident ref est req)"
  unfolding fail_def nil_dereference_def element_def emit_def emitError_def summary_value_def
    rate_limit_headers_def route_props_def timed_props_def transcript_props_def announce_route_def
    collectResponse_def commit_usage_def authenticate_def authorize_def check_rate_limit_def Let_def
  by (intro framed)+

lemma framed_observers [framed]:
  "state_io_rel (frame True plain) (blocking_observers e obs rid ident ref usage)"
  by (induction obs) (unfold blocking_observers.simps, (intro framed; assumption)+)

lemma framed_stream_loop [framed]:
  "state_io_rel (frame True plain) (stream_loop p e req ctx ident ref rid started rs i lastErr)"
proof (induction rs arbitrary: i lastErr)
  case (Cons r rs)
  show ?case unfolding stream_loop.simps upstream_failed_def by (intro framed Cons.IH)
qed (simp add: framed)

lemma framed_finish_loop [framed]:
  "state_io_rel (frame True plain) (finish_loop p e req ident ref rid started r)"
  by (cases r) (simp_all add: finish_loop_def framed)

lemma framed_executeStream [framed]:
  "state_io_rel (frame True plain) (executeStream p e req ctx ident ref rid started routes)"
  unfolding executeStream_eq by (intro framed)

lemma frame_resolve_prompt:
  "state_io_rel (frame False plain) (resolve_prompt p ctx ident ref req)"
  unfolding resolve_prompt_def
  by (intro frame.keeps framed_write frame_weaken [OF framed_prims(4)] frame_weaken [OF framed_calls(3)]
      frame_weaken [OF framed_parts(1)]) simp_all

subsection \<open>The maps that are known\<close>

text \<open>
  \<open>holds P s H t\<close>: since \<open>s\<close> no map was written to and only actions of \<open>P\<close> were recorded, and the
  store of \<open>t\<close> has the maps \<open>H\<close>, each under its reference.
\<close>

definition holds :: "(action \<Rightarrow> bool) \<Rightarrow> 'w xstate \<Rightarrow> (props_ref \<times> props) list \<Rightarrow> 'w xstate \<Rightarrow> bool" where
  "holds P s H t \<longleftrightarrow> frame True P s t \<and>
     (\<forall>ref m. (ref, m) \<in> set H \<longrightarrow> ref < length (x_heap t) \<and> x_heap t ! ref = m)"

lemma holds_step:
  assumes "holds P s H t" and "frame True P t u"
  shows "holds P s H u"
proof -
  have "frame True P s u" using assms frame.R_trans by (metis holds_def)
  moreover obtain zs where "x_heap u = x_heap t @ zs" using assms(2) by (auto simp: frame_def prefix_def)
  ultimately show ?thesis using assms(1) by (auto simp: holds_def nth_append intro: trans_less_add1)
qed

lemma holds_fewer: "holds P s (x # H) t \<Longrightarrow> holds P s H t"
  by (auto simp: holds_def)

lemma holds_acts: "holds P s H t \<Longrightarrow> \<exists>acts. x_trace t = x_trace s @ acts \<and> list_all P acts"
  by (auto simp: holds_def frame_def)

lemma wp_holds:
  assumes "state_io_rel (frame True plain) m" and "\<And>a. plain a \<Longrightarrow> P a" and "holds P s H t"
    and "\<And>a u. holds P s H u \<Longrightarrow> Q a u"
  shows "wp m Q t"
proof (rule wpI)
  fix a u
  assume "run_state m t = (a, u)"
  moreover have "state_io_rel (frame True P) m" using assms(1,2) by (rule frame_weaken)
  ultimately have "frame True P t u" by (intro frame.keeps_run)
  with assms(3) show "Q a u" by (intro assms(4)) (rule holds_step)
qed

lemma holds_then:
  assumes "state_io_rel (frame True plain) m" and "\<And>a. plain a \<Longrightarrow> P a" and "holds P s H t"
    and "\<And>a u. holds P s H u \<Longrightarrow> wp (k a) (\<lambda>_. holds P s H) u"
  shows "wp (and_then m k) (\<lambda>_. holds P s H) t"
  by (rule wp_and_then, rule wp_holds [OF assms(1-3)]) (auto intro: assms(4) split: sum.splits)

text \<open>A copy of a known map is a known map.\<close>

lemma wp_copy:
  assumes "state_io_rel (frame True plain) m" and "\<And>a. plain a \<Longrightarrow> P a" and "holds P s H t"
    and "wp m (\<lambda>ref u. ref < length (x_heap u) \<and> (\<exists>x. x_heap u ! ref = f x)) t"
    and "\<And>ref x u. holds P s ((ref, f x) # H) u \<Longrightarrow> Q ref u"
  shows "wp m Q t"
proof -
  have "wp m (\<lambda>_ u. holds P s H u) t" by (rule wp_holds [OF assms(1-3)])
  from wp_conj [OF this assms(4)] show ?thesis
  proof (rule wp_mono, elim conjE exE)
    fix ref u x
    assume "holds P s H u" "ref < length (x_heap u)" "x_heap u ! ref = f x"
    then have "holds P s ((ref, f x) # H) u" by (auto simp: holds_def)
    then show "Q ref u" by (rule assms(5))
  qed
qed

lemma holds_read: "holds P s H t \<Longrightarrow> (ref, m) \<in> set H \<Longrightarrow> x_heap t ! ref = m"
  by (auto simp: holds_def)

lemma copy_route_props:
  "x_heap t ! ref = m \<Longrightarrow> wp (route_props e ref r i started)
     (\<lambda>ref' u. ref' < length (x_heap u) \<and> (\<exists>n. x_heap u ! ref' = routeEventProps m r i started n)) t"
  by (auto simp: route_props_def wp_def read_map_def now_def new_map_def split: prod.splits)

lemma copy_transcript_props:
  "ref < length (x_heap t) \<Longrightarrow> wp (transcript_props p ref req resp)
     (\<lambda>ref' u. ref' < length (x_heap u) \<and>
        (\<exists>x::unit. x_heap u ! ref' = withTranscriptProps (capture_payloads p) (x_heap t ! ref) req resp)) t"
  by (auto simp: transcript_props_def withTranscriptProps_def wp_def read_map_def new_map_def)

subsection \<open>The stored key\<close>

text \<open>What a response of this request to one of these routes may be stored under.\<close>

definition stored_under ::
  "'w env \<Rightarrow> ChatCompletionRequest \<Rightarrow> Identity \<Rightarrow> props \<Rightarrow> SelectedRoute list \<Rightarrow> string \<Rightarrow> bool" where
  "stored_under e req ident m routes key \<longleftrightarrow>
     (\<exists>r \<in> set routes. \<exists>c i started n resp. key = en_sha256_hex e
        (cache_preimage req ident (withTranscriptProps c (routeEventProps m r i started n) req resp)))"

definition storing ::
  "'w env \<Rightarrow> ChatCompletionRequest \<Rightarrow> Identity \<Rightarrow> props \<Rightarrow> SelectedRoute list \<Rightarrow> action \<Rightarrow> bool" where
  "storing e req ident m routes a \<longleftrightarrow>
     plain a \<or> (\<exists>q ans. a = ACallStore q ans \<and> stored_under e req ident m routes (sq_CacheKey q))"

lemma plain_storing: "plain a \<Longrightarrow> storing e req ident m routes a"
  by (simp add: storing_def)

lemma wp_store_in_cache:
  assumes "holds (storing e req ident m routes) s H t"
    and "stored_under e req ident m routes (en_sha256_hex e (cache_preimage req ident (x_heap t ! ref)))"
    and "\<And>a u. holds (storing e req ident m routes) s H u \<Longrightarrow> Q a u"
  shows "wp (store_in_cache p e ctx ident req ref resp usage) Q t"
proof (rule wpI)
  fix a u
  assume "run_state (store_in_cache p e ctx ident req ref resp usage) t = (a, u)"
  then have "frame True (storing e req ident m routes) t u"
    using assms(2)
    by (auto simp: store_in_cache_def read_map_def call_def cacheKey_def frame_def storing_def
        split: option.splits prod.splits)
  with assms(1) show "Q a u" by (intro assms(3)) (rule holds_step)
qed

lemma wp_afterSuccess:
  assumes "holds (storing e req ident m routes) s ((ref, routeEventProps m r i started n) # H) t"
    and "r \<in> set routes" and "\<And>a u. holds (storing e req ident m routes) s H u \<Longrightarrow> Q a u"
  shows "wp (afterSuccess p e ctx ident req ref rid resp usage) Q t"
  unfolding afterSuccess_def
proof (rule wp_bind, rule wp_copy [OF framed_parts(10) plain_storing assms(1) copy_transcript_props],
    goal_cases)
  case (1 a)
  then show ?case .
next
  case 2
  then show ?case using assms(1) by (simp add: holds_def)
next
  case (3 ref' x u)
  have "x_heap t ! ref = routeEventProps m r i started n" using assms(1) by (rule holds_read) simp
  then have key: "stored_under e req ident m routes (en_sha256_hex e (cache_preimage req ident (x_heap u ! ref')))"
    unfolding stored_under_def holds_read [OF 3 list.set_intros(1)] using assms(2) by (simp only:) blast
  have H: "holds (storing e req ident m routes) s H u" using 3 by (auto dest: holds_fewer)
  show ?case
    by (rule wp_bind, rule wp_store_in_cache [OF H key], rule wp_holds, intro framed,
        erule plain_storing, assumption, rule assms(3))
qed

lemma wp_upstream_failed:
  assumes "holds (storing e req ident m routes) s H t"
    and "\<And>u. holds (storing e req ident m routes) s H u \<Longrightarrow> wp next_try (\<lambda>_. holds (storing e req ident m routes) s H) u"
  shows "wp (upstream_failed e rid ident ref err next_try) (\<lambda>_. holds (storing e req ident m routes) s H) t"
  unfolding upstream_failed_def
  by (rule holds_then [OF framed_parts(5) plain_storing assms(1)]) (auto intro!: wp_done_with assms(2))

lemma wp_nonstream_loop:
  "holds (storing e req ident m routes) s [(ref, m)] t \<Longrightarrow> set rs \<subseteq> set routes \<Longrightarrow>
     wp (nonstream_loop p e req ctx ident ref rid started rs i lastErr)
       (\<lambda>_. holds (storing e req ident m routes) s [(ref, m)]) t"
proof (induction rs arbitrary: t i lastErr)
  case Nil
  then show ?case by (simp add: wp_done_with)
next
  case (Cons r rs)
  let ?holds = "holds (storing e req ident m routes) s"
  have rest: "wp (nonstream_loop p e req ctx ident ref rid started rs i' err') (\<lambda>_. ?holds [(ref, m)]) u"
    if "?holds [(ref, m)] u" for i' err' u
    by (rule Cons.IH [OF that]) (use Cons.prems(2) in auto)
  show ?case
  proof (cases "fmlookup (pp_upstreams p) (sr_ProviderInstance r)")
    case None
    with rest Cons.prems(1) show ?thesis by simp
  next
    case (Some up)
    have failed: "wp (upstream_failed e rid ident ref' err (nonstream_loop p e req ctx ident ref rid started rs i' err'))
        (\<lambda>_. ?holds [(ref, m)]) u" if "?holds (x # [(ref, m)]) u" for ref' err i' err' u x
      by (rule wp_upstream_failed) (use that rest in \<open>auto dest: holds_fewer\<close>)
    have served: "wp (and_then (afterSuccess p e ctx ident req ref' rid resp usage) (\<lambda>_. done_with Served))
        (\<lambda>_. ?holds [(ref, m)]) u"
      if "?holds ((ref', routeEventProps m r i started n) # [(ref, m)]) u" for ref' n resp usage u
      by (rule wp_and_then, rule wp_afterSuccess [OF that])
        (use Cons.prems(2) in \<open>auto intro!: wp_done_with split: sum.splits\<close>)
    show ?thesis
      unfolding nonstream_loop.simps Some option.case
      apply (rule wp_bind, rule wp_holds [OF framed_parts(11) plain_storing Cons.prems(1)], assumption,
          rule wp_bind, rule wp_copy [OF framed_parts(8) plain_storing _ copy_route_props], assumption,
          assumption, erule holds_read, simp,
          rule wp_bind, rule wp_holds [OF framed_prims(4) plain_storing], assumption, assumption,
          rule wp_bind, rule wp_holds [OF framed_calls(5) plain_storing], assumption, assumption)
      subgoal for _ _ ref' n _ ps _ ans u
      proof (cases ans)
        case (Inl err)
        assume "?holds ((ref', routeEventProps m r i started n) # [(ref, m)]) u"
        then show ?thesis unfolding Inl sum.case by (rule failed)
      next
        case (Inr ch)
        assume u: "?holds ((ref', routeEventProps m r i started n) # [(ref, m)]) u"
        show ?thesis unfolding Inr sum.case
          by (rule wp_bind, rule wp_holds [OF framed_parts(12) plain_storing u], assumption, rule wp_sum,
              rule failed, assumption, rule wp_prod, rule wp_bind,
              rule wp_holds [OF framed_prims(6) plain_storing], assumption, assumption, erule served)
      qed
      done
  qed
qed

subsection \<open>The stages\<close>

definition storeless :: "action list \<Rightarrow> bool" where
  "storeless acts \<longleftrightarrow> (\<forall>q ans. ACallStore q ans \<notin> set acts)"

definition looking :: "'w env \<Rightarrow> ChatCompletionRequest \<Rightarrow> Identity \<Rightarrow> props \<Rightarrow> action \<Rightarrow> bool" where
  "looking e req ident m a \<longleftrightarrow>
     (\<exists>q ans. a = ACallLookup q ans \<and> kq_CacheKey q = en_sha256_hex e (cache_preimage req ident m))"

text \<open>The actions from the rate limiter on: without a store, or routed with the map \<open>m\<close>.\<close>

definition routed :: "'w env \<Rightarrow> ChatCompletionRequest \<Rightarrow> Identity \<Rightarrow> props \<Rightarrow> action list \<Rightarrow> bool" where
  "routed e req ident m acts \<longleftrightarrow> storeless acts \<or>
     (\<exists>first rq resp later. acts = first @ ACallRoute rq (Inr resp) # later \<and> list_all plain first \<and>
        rs_Properties (tq_Request rq) = m \<and> list_all (storing e req ident m (tr_Routes resp)) later)"

text \<open>All actions: without a store, or a lookup under the map that the rest is routed with.\<close>

definition keyed :: "'w env \<Rightarrow> action list \<Rightarrow> bool" where
  "keyed e acts \<longleftrightarrow> storeless acts \<or>
     (\<exists>first look rest req ident m. acts = first @ look @ rest \<and> list_all plain first \<and>
        list_all (looking e req ident m) look \<and> routed e req ident m rest)"

definition extends :: "(action list \<Rightarrow> bool) \<Rightarrow> 'w xstate \<Rightarrow> 'w xstate \<Rightarrow> bool" where
  "extends A s t \<longleftrightarrow> (\<exists>acts. x_trace t = x_trace s @ acts \<and> A acts)"

lemma storeless_append [simp]: "storeless (xs @ ys) \<longleftrightarrow> storeless xs \<and> storeless ys"
  by (auto simp: storeless_def)

lemma storeless_plain: "list_all plain acts \<Longrightarrow> storeless acts"
  by (auto simp: storeless_def list_all_iff)

definition plain_first :: "(action list \<Rightarrow> bool) \<Rightarrow> bool" where
  "plain_first A \<longleftrightarrow> A [] \<and> (\<forall>xs acts. list_all plain xs \<and> A acts \<longrightarrow> A (xs @ acts))"

lemma routed_plain: "plain_first (routed e req ident m)"
  unfolding plain_first_def
proof (intro conjI allI impI)
  show "routed e req ident m []" by (simp add: routed_def storeless_def)
  show "routed e req ident m (xs @ acts)" if "list_all plain xs \<and> routed e req ident m acts" for xs acts
    using that unfolding routed_def storeless_append
    by (metis append.assoc list_all_append storeless_plain)
qed

lemma keyed_plain: "plain_first (keyed e)"
  unfolding plain_first_def
proof (intro conjI allI impI)
  show "keyed e []" by (simp add: keyed_def storeless_def)
  show "keyed e (xs @ acts)" if "list_all plain xs \<and> keyed e acts" for xs acts
    using that unfolding keyed_def storeless_append
    by (metis append.assoc list_all_append storeless_plain)
qed

lemma extends_plain:
  assumes "plain_first A" and "frame strict plain s t" and "extends A t u"
  shows "extends A s u"
  using assms by (fastforce simp: extends_def frame_def plain_first_def)

lemma extends_refl: "plain_first A \<Longrightarrow> x_trace t = x_trace s \<Longrightarrow> extends A s t"
  by (simp add: extends_def plain_first_def)

lemma wp_plain_then:
  assumes "state_io_rel (frame strict plain) m" and "plain_first A"
    and "\<And>a u. run_state m s = (Inr a, u) \<Longrightarrow> frame strict plain s u \<Longrightarrow> wp (k a) (\<lambda>_. extends A u) u"
  shows "wp (and_then m k) (\<lambda>_. extends A s) s"
proof (rule wp_and_then, rule wpI)
  fix r u
  assume run: "run_state m s = (r, u)"
  then have f: "frame strict plain s u" by (rule frame.keeps_run [OF assms(1)])
  show "case r of Inl h \<Rightarrow> extends A s u | Inr a \<Rightarrow> wp (k a) (\<lambda>_. extends A s) u"
  proof (cases r)
    case (Inl h)
    show ?thesis unfolding Inl sum.case by (intro extends_plain [OF assms(2) f] extends_refl assms(2) refl)
  next
    case (Inr a)
    with run have "wp (k a) (\<lambda>_. extends A u) u" by (intro assms(3) f) simp
    then show ?thesis unfolding Inr sum.case
      by (rule wp_mono) (rule extends_plain [OF assms(2) f])
  qed
qed

text \<open>The router is shown the map of the request, and its routes are executed.\<close>

lemma wp_choose_routes:
  "wp (choose_routes p ctx ident summary req)
     (\<lambda>r t. x_heap t = x_heap s \<and>
        (case r of Inl h \<Rightarrow> extends storeless s t
         | Inr routes \<Rightarrow> \<exists>rq resp. x_trace t = x_trace s @ [ACallRoute rq (Inr resp)] \<and>
             tr_Routes resp = routes \<and> rs_Properties (tq_Request rq) = x_heap s ! rs_Properties summary)) s"
  by (auto simp: choose_routes_def summary_value_def wp_def call_def read_map_def extends_def storeless_def
      split: sum.splits option.splits prod.splits)

lemma wp_execute:
  assumes "holds (storing e req ident m routes) s [(ref, m)] t"
  shows "wp (and_then (element routes 0) (\<lambda>first.
       do { ref' \<leftarrow> route_props e ref first 0 started;
            and_then (emit e ''route.selected'' rid (id_TenantID ident) ref' None) (\<lambda>_.
              if rq_Stream req then executeStream p e req ctx ident ref rid started routes
              else executeNonStream p e req ctx ident ref rid started routes) }))
     (\<lambda>_. holds (storing e req ident m routes) s [(ref, m)]) t"
proof -
  let ?holds = "holds (storing e req ident m routes) s [(ref, m)]"
  have sub: "set (tried_routes (pp_cfg p) routes) \<subseteq> set routes"
    by (simp add: tried_routes_def set_take_subset)
  have finish: "wp (finish_loop p e req ident ref rid started x) (\<lambda>_. ?holds) u" if "?holds u" for x u
    by (rule wp_holds [OF framed_finish_loop plain_storing that])
  have run: "wp (if rq_Stream req then executeStream p e req ctx ident ref rid started routes
      else executeNonStream p e req ctx ident ref rid started routes) (\<lambda>_. ?holds) u" if "?holds u" for u
    using that unfolding executeNonStream_eq
    by (intro wp_if wp_holds [OF framed_executeStream plain_storing] wp_and_then
        wp_mono [OF wp_nonstream_loop [OF that sub]])
      (auto split: sum.splits intro: finish)
  show ?thesis
    by (rule holds_then [OF framed_parts(3) plain_storing assms], assumption, rule wp_bind,
        rule wp_holds [OF framed_parts(8) plain_storing], assumption, assumption,
        rule holds_then [OF framed_parts(4) plain_storing], assumption, assumption, erule run)
qed

lemma wp_route_and_execute:
  assumes "ref < length (x_heap s)" and "rs_Properties summary = ref"
  shows "wp (route_and_execute p e req ctx ident ref summary rid started)
     (\<lambda>_. extends (routed e req ident (x_heap s ! ref)) s) s"
  unfolding route_and_execute_def
proof (rule wp_and_then, rule wp_mono [OF wp_choose_routes], goal_cases)
  case (1 r t)
  show ?case
  proof (cases r)
    case (Inl h)
    with 1 show ?thesis by (auto simp: extends_def routed_def)
  next
    case (Inr routes)
    with 1 assms(2) obtain rq resp where t: "x_heap t = x_heap s" "tr_Routes resp = routes"
      "x_trace t = x_trace s @ [ACallRoute rq (Inr resp)]" "rs_Properties (tq_Request rq) = x_heap s ! ref"
      by auto
    have "holds (storing e req ident (x_heap s ! ref) routes) t [(ref, x_heap s ! ref)] t"
      using assms(1) t(1) by (simp add: holds_def frame.R_refl)
    from wp_execute [OF this] show ?thesis unfolding Inr sum.case
    proof (rule wp_mono)
      fix a u
      assume "holds (storing e req ident (x_heap s ! ref) routes) t [(ref, x_heap s ! ref)] u"
      then obtain later where "x_trace u = x_trace t @ later"
        "list_all (storing e req ident (x_heap s ! ref) routes) later" using holds_acts by blast
      with t have "x_trace u = x_trace s @ [] @ ACallRoute rq (Inr resp) # later \<and>
          list_all (storing e req ident (x_heap s ! ref) (tr_Routes resp)) later" by simp
      with t(4) show "extends (routed e req ident (x_heap s ! ref)) s u"
        unfolding extends_def routed_def by fastforce
    qed
  qed
qed

lemma wp_cache_lookup:
  "wp (cache_lookup p e ctx ident ref rid req)
     (\<lambda>r t. x_heap t = x_heap s \<and>
        (case r of Inr False \<Rightarrow> extends (list_all (looking e req ident (x_heap s ! ref))) s t
         | _ \<Rightarrow> extends storeless s t)) s"
  by (auto simp: cache_lookup_def wp_def call_def read_map_def update_result_def set_header_def emit_def
      new_uuid_def now_def enqueue_def cacheKey_def extends_def storeless_def looking_def
      split: prod.splits sum.splits option.splits)

lemma wp_lookup_and_rest:
  assumes "ref < length (x_heap s)" and "rs_Properties summary = ref"
  shows "wp (and_then (cache_lookup p e ctx ident ref rid req) (\<lambda>hit.
       if hit then done_with ()
       else and_then (check_rate_limit p ctx ident ref est req) (\<lambda>_.
            route_and_execute p e req ctx ident ref summary rid started)))
     (\<lambda>_. extends (keyed e) s) s"
proof (rule wp_and_then, rule wp_mono [OF wp_cache_lookup], goal_cases)
  case (1 r t)
  let ?m = "x_heap s ! ref"
  show ?case
  proof (cases "r = Inr False")
    case False
    with 1 have "extends storeless s t" by (auto split: sum.splits bool.splits)
    with False show ?thesis
      by (auto simp: extends_def keyed_def intro!: wp_done_with split: sum.splits)
  next
    case True
    with 1 obtain look where look: "x_trace t = x_trace s @ look" "list_all (looking e req ident ?m) look"
      and heap: "x_heap t = x_heap s" by (auto simp: extends_def)
    have "wp (and_then (check_rate_limit p ctx ident ref est req) (\<lambda>_.
        route_and_execute p e req ctx ident ref summary rid started))
        (\<lambda>_. extends (routed e req ident ?m) t) t"
    proof (rule wp_plain_then [OF framed_parts(16) routed_plain])
      fix a u
      assume "frame True plain t u"
      then have "ref < length (x_heap u)" "x_heap u ! ref = ?m"
        using assms(1) heap by (auto simp: frame_def prefix_def nth_append)
      with wp_route_and_execute [OF _ assms(2), of u]
      show "wp (route_and_execute p e req ctx ident ref summary rid started)
          (\<lambda>_. extends (routed e req ident ?m) u) u" by simp
    qed
    then show ?thesis unfolding True sum.case if_False
    proof (rule wp_mono)
      fix a u
      assume "extends (routed e req ident ?m) t u"
      then obtain rest where "x_trace u = x_trace s @ [] @ look @ rest" "routed e req ident ?m rest"
        using look(1) by (auto simp: extends_def)
      with look(2) show "extends (keyed e) s u"
        unfolding extends_def keyed_def by (metis list.pred_inject(1))
    qed
  qed
qed

lemma wp_admit_keyed:
  assumes "ref < length (x_heap s)" and "rs_Properties summary = ref"
  shows "wp (admit_and_execute p e req ctx ident ref summary rid started) (\<lambda>_. extends (keyed e) s) s"
proof -
  have len: "ref < length (x_heap u)" if "frame strict plain t u" "ref < length (x_heap t)"
    for strict and t u :: "'a xstate"
    using that by (cases strict) (auto simp: frame_def dest: prefix_length_le)
  show ?thesis
    unfolding admit_and_execute_def
    by (rule wp_plain_then [OF framed_parts(4) keyed_plain],
        rule wp_plain_then [OF framed_parts(15) keyed_plain],
        rule wp_plain_then [OF frame_resolve_prompt keyed_plain],
        rule wp_lookup_and_rest [OF _ assms(2)])
      (blast intro: len assms(1))
qed

lemma wp_plain_bind:
  assumes "state_io_rel (frame strict plain) m" and "plain_first A"
    and "\<And>a u. run_state m s = (a, u) \<Longrightarrow> wp (k a) (\<lambda>_. extends A u) u"
  shows "wp (State_Monad.bind m k) (\<lambda>_. extends A s) s"
proof (rule wp_bind, rule wpI)
  fix a u
  assume run: "run_state m s = (a, u)"
  then have "frame strict plain s u" by (rule frame.keeps_run [OF assms(1)])
  then show "wp (k a) (\<lambda>_. extends A s) u"
    by (rule wp_mono [OF assms(3) [OF run] extends_plain [OF assms(2)]])
qed

lemma ExecuteChat_keyed: "wp (ExecuteChat p e req headers ip) (\<lambda>_. extends (keyed e) s) s"
proof -
  have auth: "wp (and_then (authenticate p ctx headers ip) (\<lambda>(ident, ctx).
      admit_and_execute p e req ctx ident ref summary rid started)) (\<lambda>_. extends (keyed e) t) t"
    if "ref < length (x_heap t)" "rs_Properties summary = ref" for ctx ref summary rid started t
    by (rule wp_plain_then [OF framed_parts(14) keyed_plain])
      (use that in \<open>auto simp: frame_def dest!: prefix_length_le split: prod.splits intro!: wp_admit_keyed\<close>)
  have "wp (fail err) (\<lambda>_. extends (keyed e) t) t" for err and t :: "'a xstate"
    by (simp add: wp_def extends_refl [OF keyed_plain])
  then show ?thesis
    unfolding ExecuteChat_def Let_def
    by (intro wp_plain_bind [OF framed_prims(1) keyed_plain] wp_plain_bind [OF framed_prims(2) keyed_plain]
        wp_plain_bind [OF framed_prims(3) keyed_plain] wp_plain_bind [OF framed_prims(6) keyed_plain]
        wp_if auth)
      (auto simp: new_map_def)
qed

text \<open>What the two keys of a run hash.\<close>

lemma keyed_keys:
  assumes "keyed e acts" and "ACallLookup q1 a1 \<in> set acts" and "ACallStore q2 a2 \<in> set acts"
    and "ACallRoute rq (Inr resp) \<in> set acts"
  shows "\<exists>req ident. kq_CacheKey q1 = en_sha256_hex e (cache_preimage req ident (rs_Properties (tq_Request rq))) \<and>
     stored_under e req ident (rs_Properties (tq_Request rq)) (tr_Routes resp) (sq_CacheKey q2)"
proof -
  have no: "\<not> storeless acts" using assms(3) by (auto simp: storeless_def)
  with assms(1) obtain first look rest req ident m where acts: "acts = first @ look @ rest"
    and first: "list_all plain first" and look: "list_all (looking e req ident m) look"
    and rest: "routed e req ident m rest" by (auto simp: keyed_def)
  have "storeless look" using look by (auto simp: storeless_def looking_def list_all_iff)
  with no acts first have "\<not> storeless rest" by (simp add: storeless_plain)
  with rest obtain more rq' resp' later where r: "rest = more @ ACallRoute rq' (Inr resp') # later"
    "list_all plain more" "rs_Properties (tq_Request rq') = m"
    "list_all (storing e req ident m (tr_Routes resp')) later" by (auto simp: routed_def)
  have plain: "plain a" if "a \<in> set first \<union> set more" for a
    using that first r(2) by (auto simp: list_all_iff)
  have later: "plain a \<or> (\<exists>q ans. a = ACallStore q ans \<and> stored_under e req ident m (tr_Routes resp') (sq_CacheKey q))"
    if "a \<in> set later" for a
    using that r(4) by (auto simp: list_all_iff storing_def)
  have look': "\<exists>q ans. a = ACallLookup q ans \<and> kq_CacheKey q = en_sha256_hex e (cache_preimage req ident m)"
    if "a \<in> set look" for a
    using that look by (auto simp: list_all_iff looking_def)
  have all: "set acts = set first \<union> set look \<union> set more \<union> {ACallRoute rq' (Inr resp')} \<union> set later"
    using acts r(1) by auto
  have "kq_CacheKey q1 = en_sha256_hex e (cache_preimage req ident m)"
    using assms(2) plain [of "ACallLookup q1 a1"] later [of "ACallLookup q1 a1"] look' [of "ACallLookup q1 a1"]
    by (auto simp: all)
  moreover have "stored_under e req ident m (tr_Routes resp') (sq_CacheKey q2)"
    using assms(3) plain [of "ACallStore q2 a2"] later [of "ACallStore q2 a2"] look' [of "ACallStore q2 a2"]
    by (auto simp: all)
  moreover have "rq = rq' \<and> resp = resp'"
    using assms(4) plain [of "ACallRoute rq (Inr resp)"] later [of "ACallRoute rq (Inr resp)"]
      look' [of "ACallRoute rq (Inr resp)"]
    by (auto simp: all)
  ultimately show ?thesis using r(3) by blast
qed

subsection \<open>Properties\<close>

text \<open>
  C12: In one run of a request the key that its response is stored under differs from the key that
  was looked up for it, short of a SHA-256 collision, provided the properties of the request (what
  the client sent as headers, and the prompt) do not use the names that the route adds. Both keys
  hash the request, the tenant and a property map: the lookup the map of the request, the same that
  the router is shown, the store that map with the duration, the route and the fallback index on top.
  So a cache that finds what was stored under a key does not answer the repetition of a request.
\<close>

theorem stored_under_another_key:
  assumes "run_state (ExecuteChat p e req headers ip) s = (r, t)" and "x_trace t = x_trace s @ acts"
    and "ACallLookup q1 a1 \<in> set acts" and "ACallStore q2 a2 \<in> set acts"
    and "ACallRoute rq (Inr resp) \<in> set acts"
    and "\<forall>rt \<in> set (tr_Routes resp).
       fmdom (rs_Properties (tq_Request rq)) |\<inter>| (route_keys |\<union>| fmdom (sr_Properties rt)) = {||}"
  shows "\<exists>req' ident m. let looked_up = cache_preimage req' ident (rs_Properties (tq_Request rq));
       stored = cache_preimage req' ident m
     in kq_CacheKey q1 = en_sha256_hex e looked_up \<and> sq_CacheKey q2 = en_sha256_hex e stored \<and>
        looked_up \<noteq> stored"
proof -
  have "keyed e acts"
    using wpD [OF ExecuteChat_keyed assms(1)] assms(2) by (auto simp: extends_def)
  from keyed_keys [OF this assms(3-5)] obtain req' ident where
    "kq_CacheKey q1 = en_sha256_hex e (cache_preimage req' ident (rs_Properties (tq_Request rq)))"
    "stored_under e req' ident (rs_Properties (tq_Request rq)) (tr_Routes resp) (sq_CacheKey q2)" by blast
  with assms(6) preimages_differ show ?thesis
    unfolding stored_under_def Let_def by metis
qed

end
