(* ===== verification/CacheWitness.thy ===== *)
theory CacheWitness
  imports Witnesses CacheKeys
begin

text \<open>
  A run that misses the cache and stores its response: the small gateway of the examples with a
  cache. As before only the queue has to be followed, and here also the property map of the request
  and the calls already made.
\<close>

definition cached_config :: Config where
  "cached_config = small_config\<lparr>cf_Pipeline := (cf_Pipeline small_config)\<lparr>pl_CacheProvider := ''cache''\<rparr>\<rparr>"

definition cached_pipeline :: "nat Pipeline" where
  "cached_pipeline = compiled cached_config example_registry example_models"

abbreviation cached_run :: "(halt + unit) \<times> nat xstate" where
  "cached_run \<equiv> run_state (ExecuteChat cached_pipeline example_env small_request [] ''10.0.0.1'') small_start"

lemma cached_parts [simp]:
  "pp_ready cached_pipeline" "au_Anonymous (cf_Auth (pp_cfg cached_pipeline))"
  "pp_authz cached_pipeline = None" "pp_prompt cached_pipeline = None"
  "pp_blockingObservers cached_pipeline = []"
  "\<not> ob_CapturePayloads (cf_Observability (pp_cfg cached_pipeline))"
  "fb_MaxAttempts (cf_Fallbacks (pp_cfg cached_pipeline)) = 3"
  by code_simp+

lemma cached_plugins [simp]:
  "pp_ratelimit cached_pipeline = None"
  "pp_cache cached_pipeline =
     Some \<lparr>Lookup = (\<lambda>rq w. (Inl (EText ''miss''), w)), Store = (\<lambda>rq w. (Inr (), w))\<rparr>"
  "pp_router cached_pipeline = Some \<lparr>Route = (\<lambda>rq w. (Inr \<lparr>tr_Routes = example_routes, tr_Reason = [],
         tr_Diagnostics = []\<rparr>, w))\<rparr>"
  "fmlookup (pp_upstreams cached_pipeline) ''a'' = None"
  "fmlookup (pp_upstreams cached_pipeline) ''b'' = Some (example_upstream (Inr [example_chunk]))"
  by (simp_all add: cached_pipeline_def compiled_def cached_config_def small_config_def example_registry_def
      zero_config_def ApplyDefaults_def found_def getRouter_def getCacheProvider_def getUpstreamProvider_def
      get_or_error_def AddAuthenticator_def AddRateLimiter_def AddCacheProvider_def
      AddRouter_def AddUpstreamProvider_def NewRegistry_def Let_def)

lemma cached_candidates: "\<exists>cs. Candidates (pp_models cached_pipeline) ''gpt'' = Inr cs"
  by (simp add: cached_pipeline_def compiled_def Let_def example_models_def Candidates_def
      NewModelRegistry_def example_alias_def)

lemma cached_tried [simp]: "tried_routes (pp_cfg cached_pipeline) example_routes = example_routes"
  by (simp add: tried_routes_eq example_routes_def)

definition steady :: "action set \<Rightarrow> props \<Rightarrow> 'w xstate \<Rightarrow> bool" where
  "steady T m s \<longleftrightarrow> calm s \<and> holds (\<lambda>_. True) s [(0, m)] s \<and> T \<subseteq> set (x_trace s)"

lemma steady_bind:
  assumes "state_io_rel same_history f" and "state_io_rel (frame True plain) f" and "steady T m s"
    and "\<And>a t. steady T m t \<Longrightarrow> wp (k a) Q t"
  shows "wp (State_Monad.bind f k) Q s"
proof (rule wp_bind, rule wpI)
  fix a t
  assume run: "run_state f s = (a, t)"
  have "same_history s t" "frame True plain s t"
    using quiet.keeps_run [OF assms(1) run] frame.keeps_run [OF assms(2) run] by simp_all
  with assms(3) have "steady T m t"
    by (auto simp: steady_def calm_def same_history_def holds_def frame_def prefix_def nth_append)
  then show "wp (k a) Q t" by (rule assms(4))
qed

lemma steady_read: "steady T m s \<Longrightarrow> (\<And>t. steady T m t \<Longrightarrow> wp (k m) Q t) \<Longrightarrow> wp (State_Monad.bind (read_map 0) k) Q s"
  by (simp add: wp_def read_map_def steady_def holds_def)

lemma steady_call:
  assumes "\<And>w. f a w = (ans, g w)" and "steady T m s"
    and "\<And>t. steady (insert (mk a ans) T) m t \<Longrightarrow> wp (k ans) Q t"
  shows "wp (State_Monad.bind (call mk f a) k) Q s"
proof -
  have run: "run_state (call mk f a) s = (ans, s\<lparr>x_world := g (x_world s), x_trace := x_trace s @ [mk a ans]\<rparr>)"
    by (simp add: call_def assms(1))
  have "steady (insert (mk a ans) T) m (s\<lparr>x_world := g (x_world s), x_trace := x_trace s @ [mk a ans]\<rparr>)"
    using assms(2) by (auto simp: steady_def calm_def holds_def frame.R_refl)
  then have "wp (k ans) Q (s\<lparr>x_world := g (x_world s), x_trace := x_trace s @ [mk a ans]\<rparr>)" by (rule assms(3))
  then show ?thesis by (intro wp_bind) (simp add: wp_def [of "call mk f a"] run)
qed

lemma steady_emit:
  assumes "steady T m s" and "\<And>t. steady T m t \<Longrightarrow> wp (k ()) Q t"
  shows "wp (and_then (emit e name rid ten ref usage) k) Q s"
  unfolding emit_def
proof (rule wp_and_then, rule steady_bind [OF quiet_new_uuid framed_prims(1) assms(1)],
    rule steady_bind [OF quiet_now framed_prims(2)], assumption)
  fix eid n and u t :: "'a xstate"
  assume t: "steady T m t"
  then have inv: "queue_inv (x_queue t)" by (simp add: steady_def calm_def)
  have "wp (enqueue ev) (\<lambda>r t. case r of Inl h \<Rightarrow> Q (Inl h) t | Inr a \<Rightarrow> wp (k a) Q t) t" for ev
  proof -
    obtain ok q where enq: "Enqueue ev (x_queue t) = Some (ok, q)"
      using event_queue.enq_total [OF inv] by fastforce
    have "queue_inv q" using inv enq by (rule Enqueue_inv)
    with t have "steady T m (t\<lparr>x_queue := q, x_trace := x_trace t @ [AEvent ev]\<rparr>)"
      by (auto simp: steady_def calm_def holds_def frame.R_refl)
    moreover have "run_state (enqueue ev) t = (Inr (), t\<lparr>x_queue := q, x_trace := x_trace t @ [AEvent ev]\<rparr>)"
      by (simp add: enqueue_def enq)
    ultimately show ?thesis using assms(2) by (simp add: wp_def [of "enqueue ev"])
  qed
  then show "wp (enqueue \<lparr>ev_EventID = eid, ev_RequestID = rid, ev_TenantID = ten, ev_EventType = name,
      ev_TimestampUnixNano = n, ev_Properties = ref,
      ev_Usage = (case usage of None \<Rightarrow> zero_usage | Some u \<Rightarrow> u), ev_Error = fmempty\<rparr>)
    (\<lambda>r t. case r of Inl h \<Rightarrow> Q (Inl h) t | Inr a \<Rightarrow> wp (k a) Q t) t" .
qed

lemmas steady_steps = steady_emit steady_bind [OF quiet_new_uuid framed_prims(1)]
  steady_bind [OF quiet_now framed_prims(2)] steady_bind [OF quiet_new_map framed_prims(3)]
  steady_bind [OF quiet_set_header framed_prims(5)] steady_bind [OF quiet_update_result framed_prims(6)]
  steady_bind [OF quiet_route_props framed_parts(8)] steady_bind [OF quiet_transcript_props framed_parts(10)]
  steady_bind [OF quiet_announce_route framed_parts(11)] steady_bind [OF quiet_collectResponse framed_parts(12)]

definition cached_story :: "nat xstate \<Rightarrow> bool" where
  "cached_story t \<longleftrightarrow> (\<exists>q1 a1 q2 a2 rq resp. ACallLookup q1 a1 \<in> set (x_trace t) \<and>
    ACallStore q2 a2 \<in> set (x_trace t) \<and> ACallRoute rq (Inr resp) \<in> set (x_trace t) \<and>
    tr_Routes resp = example_routes \<and>
    rs_Properties (tq_Request rq) = fmupd ''requested_model'' ''gpt'' fmempty)"

lemma storyI:
  "steady T m t \<Longrightarrow> ACallLookup q1 a1 \<in> T \<Longrightarrow> ACallStore q2 a2 \<in> T \<Longrightarrow> ACallRoute rq (Inr resp) \<in> T \<Longrightarrow>
     tr_Routes resp = example_routes \<Longrightarrow>
     rs_Properties (tq_Request rq) = fmupd ''requested_model'' ''gpt'' fmempty \<Longrightarrow> cached_story t"
  unfolding cached_story_def steady_def by blast

lemma cached_after:
  assumes "steady T m s" and "ACallLookup q1 a1 \<in> T" and "ACallRoute rq (Inr resp) \<in> T"
    and "tr_Routes resp = example_routes" and "rs_Properties (tq_Request rq) = fmupd ''requested_model'' ''gpt'' fmempty"
  shows "wp (afterSuccess cached_pipeline e ctx ident req ref rid resp' usage) (\<lambda>_. cached_story) s"
  unfolding afterSuccess_def store_in_cache_def commit_usage_def
  by (simp, rule steady_steps, rule assms(1), rule steady_bind [OF quiet_read_map framed_prims(4)],
      assumption, rule steady_call, simp, assumption, rule steady_emit, assumption, rule wp_done_with,
      erule storyI, rule insertI2, rule assms(2), rule insertI1, rule insertI2, rule assms(3), rule assms(4),
      rule assms(5))

lemma steady_collect: "steady T m s \<Longrightarrow> (\<And>r u t. steady T m t \<Longrightarrow> wp (k (Inr (r, u))) Q t) \<Longrightarrow>
    wp (State_Monad.bind (collectResponse e [example_chunk] model) k) Q s"
  by (rule wp_bind) (simp add: collectResponse_def example_chunk_def empty_collected_def start_response_def
      zero_response_def Let_def wp_return)

lemma cached_loop:
  assumes "steady T m s" and "ACallLookup q1 a1 \<in> T" and "ACallRoute rq (Inr resp) \<in> T"
    and "tr_Routes resp = example_routes" and "rs_Properties (tq_Request rq) = fmupd ''requested_model'' ''gpt'' fmempty"
  shows "wp (nonstream_loop cached_pipeline e req ctx ident ref rid started example_routes 0 None)
     (\<lambda>_. cached_story) s"
proof -
  have after: "wp (and_then (afterSuccess cached_pipeline e ctx ident req ref' rid resp' usage) (\<lambda>_. done_with Served))
      (\<lambda>_. cached_story) t" if "steady (insert a T) m t" for a t ref' resp' usage
    by (rule wp_and_then, rule wp_mono [OF cached_after [OF that]])
      (use assms(2-5) in \<open>auto intro!: wp_done_with split: sum.splits\<close>)
  show ?thesis
    unfolding example_routes_def
    by (simp, rule steady_steps, rule assms(1), rule steady_steps, assumption,
        rule steady_bind [OF quiet_read_map framed_prims(4)], assumption,
        rule steady_call [where ans = "Inr [example_chunk]" and g = "\<lambda>w. w + 1"],
        simp add: example_upstream_def, assumption, simp, rule steady_collect, assumption, simp,
        rule steady_steps, assumption, rule after)
qed

lemma cached_values [simp]:
  "\<not> rq_Stream small_request" "rq_Model small_request = ''gpt''"
  by (simp_all add: small_request_def example_request_def)

lemma story_kept: "cached_story s \<Longrightarrow> frame True plain s t \<Longrightarrow> cached_story t"
  by (force simp: cached_story_def frame_def)

lemma cached_choose:
  assumes "steady T m s" and "rs_Properties summary = 0"
  shows "wp (choose_routes cached_pipeline ctx ident summary small_request)
     (\<lambda>r t. r = Inr example_routes \<and> (\<exists>rq resp. steady (insert (ACallRoute rq (Inr resp)) T) m t \<and>
        tr_Routes resp = example_routes \<and> rs_Properties (tq_Request rq) = m)) s"
proof -
  obtain cs where cs: "Candidates (pp_models cached_pipeline) ''gpt'' = Inr cs"
    using cached_candidates by blast
  have routes: "example_routes \<noteq> []" by (simp add: example_routes_def)
  show ?thesis
    unfolding choose_routes_def summary_value_def assms(2)
    by (simp add: cs, rule steady_read, rule assms(1), rule steady_call, simp, assumption,
        simp add: routes, rule wp_done_with, intro conjI exI, rule refl, assumption) simp_all
qed

lemma cached_routed:
  assumes "steady T (fmupd ''requested_model'' ''gpt'' fmempty) s" and "ACallLookup q1 a1 \<in> T"
    and "rs_Properties summary = 0"
  shows "wp (route_and_execute cached_pipeline e small_request ctx ident 0 summary rid started) (\<lambda>_. cached_story) s"
  unfolding route_and_execute_def
proof (rule wp_and_then, rule wp_mono [OF cached_choose [OF assms(1,3)]], elim conjE exE, goal_cases)
  case (1 r t rq resp)
  have routes: "element example_routes 0 = done_with (hd example_routes)"
    by (simp add: example_routes_def element_first)
  have finish: "wp (finish_loop cached_pipeline e small_request ident 0 rid started x) (\<lambda>_. cached_story) t"
    if "cached_story t" for x t
    using that by (intro wpI) (auto dest: frame.keeps_run [OF framed_finish_loop] story_kept)
  have loop: "wp (and_then (nonstream_loop cached_pipeline e small_request ctx ident 0 rid started example_routes 0 None)
      (finish_loop cached_pipeline e small_request ident 0 rid started)) (\<lambda>_. cached_story) t"
    if "steady (insert (ACallRoute rq (Inr resp)) T) (fmupd ''requested_model'' ''gpt'' fmempty) t" for t
    by (rule wp_and_then, rule wp_mono [OF cached_loop [OF that]])
      (use assms(2) 1 in \<open>auto intro: finish split: sum.splits\<close>)
  show ?case
    unfolding 1 sum.case routes and_then_done_with
    by (rule steady_steps, rule 1, rule steady_steps, assumption)
      (simp add: executeNonStream_eq loop)
qed

lemma cached_run_story: "cached_story (snd cached_run)"
proof -
  let ?m = "fmupd ''requested_model'' ''gpt'' fmempty"
  have auth: "authenticate cached_pipeline ctx headers ip = done_with (anonymous_identity, ctx)" for ctx headers ip
    by (simp add: authenticate_def)
  have admit: "wp (admit_and_execute cached_pipeline e small_request ctx ident 0 summary rid started) (\<lambda>_. cached_story) s"
    if "steady {} ?m s" "rs_Properties summary = 0" for e ctx ident summary rid started s
    unfolding admit_and_execute_def authorize_def resolve_prompt_def cache_lookup_def check_rate_limit_def
    by (simp, rule steady_emit, rule that(1), rule wp_and_then, rule steady_read, assumption,
        rule steady_call, simp, assumption, simp, rule steady_steps, assumption, rule wp_done_with,
        simp, rule cached_routed, assumption, rule insertI1, rule that(2))
  have "wp (ExecuteChat cached_pipeline example_env small_request [] ''10.0.0.1'') (\<lambda>_. cached_story) small_start"
    unfolding ExecuteChat_def Let_def
    by (simp add: auth extractProperties_def,
        simp add: wp_def new_uuid_def now_def new_map_def update_result_def example_env_def small_start_def,
        fold wp_def, rule admit)
      (simp_all add: steady_def calm_def queue_inv_New holds_def frame.R_refl)
  from wpD [OF this prod.collapse [symmetric]] show ?thesis .
qed

text \<open>In this run the two keys hash different texts, and are different.\<close>

lemma stored_under_another_key_witness:
  "\<exists>q1 a1 q2 a2. ACallLookup q1 a1 \<in> set (x_trace (snd cached_run)) \<and>
     ACallStore q2 a2 \<in> set (x_trace (snd cached_run)) \<and> kq_CacheKey q1 \<noteq> sq_CacheKey q2"
proof -
  from cached_run_story obtain q1 a1 q2 a2 rq resp where tr:
    "ACallLookup q1 a1 \<in> set (x_trace (snd cached_run))" "ACallStore q2 a2 \<in> set (x_trace (snd cached_run))"
    "ACallRoute rq (Inr resp) \<in> set (x_trace (snd cached_run))" "tr_Routes resp = example_routes"
    "rs_Properties (tq_Request rq) = fmupd ''requested_model'' ''gpt'' fmempty"
    by (auto simp: cached_story_def)
  have "x_trace (snd cached_run) = x_trace small_start @ x_trace (snd cached_run)"
    by (simp add: small_start_def)
  from stored_under_another_key [OF prod.collapse [symmetric] this tr(1-3)]
  have "kq_CacheKey q1 \<noteq> sq_CacheKey q2"
    using tr(4,5) by (auto simp: route_keys_def example_routes_def example_env_def Let_def)
  with tr show ?thesis by blast
qed

end
