(* ===== verification/Spec2Isabelle.thy ===== *)
theory Spec2Isabelle
  imports SystemWitnesses CacheWitness
begin

text \<open>
  Vulpes Core is a gateway for chat completions: an HTTP server that authenticates a request, checks
  it against policies and limits, routes it to an upstream provider and returns the answer, whole or
  as a stream. All policies and providers are plugins: separate processes the gateway launches and
  calls over net/rpc.

  \<^bold>\<open>The program and its model.\<close> \<open>main\<close> loads the configuration, \<open>app.New\<close> starts the plugins, fills
  the registry, compiles the pipeline and builds the server; a chat request is decoded, run through
  the pipeline and answered. The theories follow these parts; definitions keep the names of the code,
  with a suffix where a name is taken.

  \<^item> \<open>Prelude\<close>: programs that act on a state and may stop early (\<open>raise\<close>, \<open>and_then\<close>, over the
    library's \<open>State_Monad\<close>), the predicate \<open>wp\<close> with its rules, and the locale \<open>step_relation\<close>: a
    preorder on states that every primitive step stays in is kept by a whole program. It is
    interpreted for each frame condition below: the history and the queue (\<open>quiet\<close> in
    \<open>ExecuteRefines\<close>), the recorded actions (\<open>own\<close>), unrefused endings (\<open>tame\<close>), the answer
    (\<open>kept\<close>), the response headers (\<open>headers\<close>), the store of property maps (\<open>frame\<close>), operations of
    the operating system (\<open>op\<close>), the manager's maps (\<open>quiet\<close> in \<open>ManagerProps\<close>).
  \<^item> \<open>GoStrings\<close>, \<open>GoJson\<close>, \<open>Paths\<close>: what the code uses of Go's standard library, written out: string
    functions, \<open>%q\<close>, decimal numbers, the JSON encoder with its escapes, \<open>path/filepath\<close> on Unix.
  \<^item> \<open>Capabilities\<close> (\<open>internal/capabilities/types.go\<close>, \<open>internal/pipeline/errors.go\<close>): every struct as
    a record, the ten plugin interfaces as records of functions from a request and the world to an
    answer and the world, all error values as one datatype, and the JSON of the structs.
  \<^item> \<open>Config\<close>, \<open>Durations\<close> (\<open>internal/config\<close>): structs, defaults, validation, loading, durations.
  \<^item> \<open>PluginRegistry\<close>, \<open>ModelRegistry\<close> (\<open>internal/plugins/registry.go\<close>, \<open>internal/models\<close>): the tables.
    The locale \<open>capability_table\<close> states what the compiler relies on and is interpreted for each of
    the ten tables.
  \<^item> \<open>EventQueue\<close> (\<open>internal/observability/queue.go\<close>): the queue, and the flusher with concurrent
    producers as a step relation; its contract is the locale \<open>event_buffer\<close>, extended by
    \<open>lossless_buffer\<close> for the refusing policies.
  \<^item> \<open>PipelineCompile\<close>, \<open>PipelineProps\<close>, \<open>ExecState\<close>, \<open>Collect\<close>, \<open>Execute\<close>, \<open>ExecuteRoutes\<close>
    (\<open>internal/pipeline/pipeline.go\<close>): compilation, the pure helpers, and \<open>ExecuteChat\<close> stage by
    stage. A request runs on a state of the world, a store of property maps (queued events share
    them), the event queue, the result, and a history of the plugin calls with their answers and
    the events. Errors and panics are values: a nil plugin that is called, an index or a slice bound
    that is out of range (\<open>element\<close>, \<open>slice_to\<close>, the buffer of the queue) ends the request with one.
  \<^item> \<open>Stream\<close> (\<open>executeStream\<close> and \<open>httpapi.writeStream\<close>): the forwarding goroutine and the handler as two
    processes over an unbuffered channel; the upstream closes its channel after its chunks or, as a
    parameter of the relation says, does not.
  \<^item> \<open>ChatDecode\<close>, \<open>HttpApi\<close> (\<open>internal/httpapi\<close>): decoding of a request body into the struct, with the
    matching of field names and the errors of \<open>encoding/json\<close>; the response writer, the handlers,
    the error body, dispatch.
  \<^item> \<open>Secrets\<close> (\<open>internal/secrets\<close>): references, the environment provider, scoped resolution.
  \<^item> \<open>Sources\<close> (\<open>internal/plugins/filesystem.go\<close>, \<open>github.go\<close>): digests, downloads, the plugin cache,
    extraction of zip and tar archives. File modes are 32-bit words. Every operation of the
    operating system is recorded in a history.
  \<^item> \<open>Process\<close>, \<open>Rpc\<close>, \<open>Manager\<close> (\<open>process.go\<close>, \<open>rpc.go\<close>, \<open>manager.go\<close> of \<open>internal/plugins\<close>): launching and
    stopping processes, the client with its reconnection and streams, starting and stopping all
    plugins. In \<open>RpcProps\<close>, concurrent callers of one client and the forwarding of a stream with its
    watcher are step relations.
  \<^item> \<open>App\<close> (\<open>internal/app/app.go\<close>, \<open>cmd/gateway/main.go\<close>): \<open>New\<close>, \<open>Run\<close>, \<open>main\<close> and the exit status.

  \<^bold>\<open>What is shown.\<close>

  \<^item> \<open>RequestFlow\<close> is the specification of a request: an automaton over plugin calls and events.
    \<open>ExecuteRefines\<close> and \<open>ExecuteProps\<close> show that \<open>ExecuteChat\<close> refines it for every compiled
    pipeline and whatever the plugins answer; \<open>FlowProps\<close> derives from the automaton what holds of
    every request: no invocation before admission, final refusals, the order of the fallbacks, one
    outcome. \<open>ExecuteOwn\<close>, \<open>ExecuteResult\<close>, \<open>ExecuteErrors\<close> add the caller every action carries, the
    answer of a success, and the error of a refusal. \<open>CacheKeys\<close> follows the property map of a request
    through its run: the response is stored under another key than the one that was looked up.
  \<^item> \<open>Stream\<close>: frames in order, accounting exactly once, the one case in which the goroutine blocks
    for ever, and when a stream ends: its runs are bounded by the chunks, but without a close of the
    upstream's channel they stop waiting.
  \<^item> \<open>EventQueue\<close>: delivery in order and at most once under every interleaving, the bound, what each
    overflow policy keeps, termination of a flush.
  \<^item> \<open>HttpProps\<close>: the response to every chat request, with its status, headers and body, on top of
    \<open>ExecuteChat\<close>. \<open>ChatDecode\<close>: requests survive the wire.
  \<^item> \<open>SourcesProps\<close>: extraction stays below its destination, nothing enters the cache unverified.
    \<open>Secrets\<close>: what is not declared stays hidden.
  \<^item> \<open>ManagerProps\<close>, \<open>AppProps\<close>: untrusted plugins, what the registry holds after a start, which
    processes are kept and stopped, and when the started gateway is ready.
  \<^item> \<open>RpcProps\<close>: reconnecting callers leak no connection, streams are forwarded in order.
  \<^item> \<open>Examples\<close>, \<open>Witnesses\<close>, \<open>CacheWitness\<close>, \<open>SystemWitnesses\<close>: the properties at concrete gateways.

  \<^bold>\<open>Loops and fuel.\<close> Loops over slices are structural. \<open>json_chars\<close> takes the length of the string as
  fuel, and every step consumes a byte (\<open>json_chars_fuel\<close>). The wait for a plugin's socket is
  \<open>partial_function (option)\<close>: \<open>None\<close> is a wait that never ends, and \<open>Start_returns\<close> excludes it when
  the clock advances. A remote upstream may stream for ever, so \<open>forward\<close> (and \<open>Invoke\<close> of an RPC
  client, with \<open>ou_fuel\<close>) takes a bound on the chunks it reads; \<open>forwarding_in_order\<close> states for
  every run of the goroutine that was not cancelled that some fuel gives exactly its chunks.
  \<open>time.ParseDuration\<close> terminates because every part is shorter than what it was read from.

  \<^bold>\<open>Channels.\<close> The list an upstream answers is what it sends on its channel. A streaming request only
  passes the channel on; in \<open>Stream\<close> it may stay open, and a channel that never ends is covered by
  its prefixes, each without a close. \<open>collectResponse\<close> of a non-streaming request drains the channel
  first: the model assumes that it is closed after finitely many chunks or carries an error. On one
  that stalls the Go function does not return, as it has no timeout, and the statements about
  \<open>ExecuteChat\<close> say nothing of such a request.

  \<^bold>\<open>Parameters.\<close> Code outside the repository is an argument: the plugins behind their interfaces,
  net/rpc, the operating system, the HTTP client, archive readers, SHA-256, the clock and UUIDs, the
  YAML decoder, the JSON byte parser, the JSON schema validator, and the order in which Go iterates
  over a map. Hypotheses on them are named: \<open>clock_advances\<close> (the clock does not go back and a sleep
  takes time), \<open>temp_named\<close> (how \<open>os.CreateTemp\<close> names files), \<open>textual_errors\<close> (net/rpc hands errors over
  as text), \<open>enumerates\<close> (an iteration order lists a map).

  \<^bold>\<open>Not modelled.\<close> Logging. Generated protobuf bindings, which nothing imports. \<open>pluginctl\<close>, which prints
  a line. The test doubles of \<open>internal/testutil\<close>. The gob registrations of \<open>rpc.go\<close>.
  \<open>Duration.MarshalText\<close>, which nothing calls. The listener, TLS and signals. Path cleaning by
  \<open>http.ServeMux\<close>. Cancellation of the request context inside \<open>ExecuteChat\<close>, which the code only hands on
  to the plugins, where it is an error like any other. Floating-point numbers are their decimal
  text; integers of the wire types are unbounded except where the code converts or compares them
  at a width (modes, stream identifiers, durations).
\<close>

end
